theory Spec2Isabelle
  imports Complex_Main "HOL-Library.AList" "HOL-Library.Log_Nat" "HOL-Library.Multiset"
    "HOL-Library.Product_Lexorder"
begin

section \<open>Floating-point values as the code meets them\<close>

text \<open>
  The Python code computes with IEEE doubles (Python \<^verbatim>\<open>float\<close>, numpy \<^verbatim>\<open>float64\<close>).
  A finite double is taken as the real number it denotes, and the operations below are
  the exact ones: they represent the part of IEEE arithmetic that changes control flow
  everywhere, NaN and the two infinities, which numpy produces instead of raising when a
  \<^verbatim>\<open>float64\<close> is divided by zero, and the fact that every ordered comparison with NaN
  is false. A zero divisor is taken as \<^verbatim>\<open>+0.0\<close>. Rounding to the nearest double and
  overflow are a separate step, \<open>np_round\<close> further down, applied after each operation
  of the J-value strategy, whose comparisons of a computed score with a threshold depend
  on the last bit.
\<close>

datatype npfloat = Fin real | PInf | NInf | NaN

fun np_neg :: "npfloat \<Rightarrow> npfloat" where
  "np_neg (Fin a) = Fin (- a)"
| "np_neg PInf = NInf"
| "np_neg NInf = PInf"
| "np_neg NaN = NaN"

fun np_add :: "npfloat \<Rightarrow> npfloat \<Rightarrow> npfloat" where
  "np_add NaN _ = NaN"
| "np_add _ NaN = NaN"
| "np_add (Fin a) (Fin b) = Fin (a + b)"
| "np_add PInf NInf = NaN"
| "np_add NInf PInf = NaN"
| "np_add PInf _ = PInf"
| "np_add _ PInf = PInf"
| "np_add NInf _ = NInf"
| "np_add _ NInf = NInf"

fun np_mul :: "npfloat \<Rightarrow> npfloat \<Rightarrow> npfloat" where
  "np_mul NaN _ = NaN"
| "np_mul _ NaN = NaN"
| "np_mul (Fin a) (Fin b) = Fin (a * b)"
| "np_mul (Fin a) PInf = (if a = 0 then NaN else if 0 < a then PInf else NInf)"
| "np_mul (Fin a) NInf = (if a = 0 then NaN else if 0 < a then NInf else PInf)"
| "np_mul PInf (Fin b) = (if b = 0 then NaN else if 0 < b then PInf else NInf)"
| "np_mul NInf (Fin b) = (if b = 0 then NaN else if 0 < b then NInf else PInf)"
| "np_mul PInf PInf = PInf"
| "np_mul PInf NInf = NInf"
| "np_mul NInf PInf = NInf"
| "np_mul NInf NInf = PInf"

fun np_div :: "npfloat \<Rightarrow> npfloat \<Rightarrow> npfloat" where
  "np_div NaN _ = NaN"
| "np_div _ NaN = NaN"
| "np_div (Fin a) (Fin b) =
     (if b \<noteq> 0 then Fin (a / b)
      else if a = 0 then NaN
      else if 0 < a then PInf else NInf)"
| "np_div (Fin a) PInf = Fin 0"
| "np_div (Fin a) NInf = Fin 0"
| "np_div PInf (Fin b) = (if 0 \<le> b then PInf else NInf)"
| "np_div NInf (Fin b) = (if 0 \<le> b then NInf else PInf)"
| "np_div PInf PInf = NaN"
| "np_div PInf NInf = NaN"
| "np_div NInf PInf = NaN"
| "np_div NInf NInf = NaN"

fun np_lt :: "npfloat \<Rightarrow> npfloat \<Rightarrow> bool" where
  "np_lt NaN _ = False"
| "np_lt _ NaN = False"
| "np_lt (Fin a) (Fin b) = (a < b)"
| "np_lt (Fin a) PInf = True"
| "np_lt (Fin a) NInf = False"
| "np_lt PInf _ = False"
| "np_lt NInf (Fin b) = True"
| "np_lt NInf PInf = True"
| "np_lt NInf NInf = False"

fun np_le :: "npfloat \<Rightarrow> npfloat \<Rightarrow> bool" where
  "np_le NaN _ = False"
| "np_le _ NaN = False"
| "np_le (Fin a) (Fin b) = (a \<le> b)"
| "np_le (Fin a) PInf = True"
| "np_le (Fin a) NInf = False"
| "np_le PInf PInf = True"
| "np_le PInf _ = False"
| "np_le NInf _ = True"

text \<open>
  The usual symbols on \<^typ>\<open>npfloat\<close>. Only the syntactic classes are instantiated: the
  comparison is not an order (NaN is not below itself), so \<open>\<not> a < b\<close> and \<open>b \<le> a\<close>
  are different statements, as in the code.
\<close>

instantiation npfloat :: "{plus, minus, uminus, times, inverse, ord}"
begin

definition plus_npfloat :: "npfloat \<Rightarrow> npfloat \<Rightarrow> npfloat" where
  "plus_npfloat a b = np_add a b"

definition uminus_npfloat :: "npfloat \<Rightarrow> npfloat" where
  "uminus_npfloat a = np_neg a"

definition minus_npfloat :: "npfloat \<Rightarrow> npfloat \<Rightarrow> npfloat" where
  "minus_npfloat a b = np_add a (np_neg b)"

definition times_npfloat :: "npfloat \<Rightarrow> npfloat \<Rightarrow> npfloat" where
  "times_npfloat a b = np_mul a b"

definition divide_npfloat :: "npfloat \<Rightarrow> npfloat \<Rightarrow> npfloat" where
  "divide_npfloat a b = np_div a b"

definition inverse_npfloat :: "npfloat \<Rightarrow> npfloat" where
  "inverse_npfloat a = np_div (Fin 1) a"

definition less_npfloat :: "npfloat \<Rightarrow> npfloat \<Rightarrow> bool" where
  "less_npfloat a b = np_lt a b"

definition less_eq_npfloat :: "npfloat \<Rightarrow> npfloat \<Rightarrow> bool" where
  "less_eq_npfloat a b = np_le a b"

instance ..

end

lemmas npfloat_ops =
  plus_npfloat_def uminus_npfloat_def minus_npfloat_def times_npfloat_def
  divide_npfloat_def inverse_npfloat_def less_npfloat_def less_eq_npfloat_def

definition isna :: "npfloat \<Rightarrow> bool" where
  "isna x = (x = NaN)"

subsection \<open>Rounding to the nearest double\<close>

text \<open>
  The result of an arithmetic operation on doubles is the exact result rounded to the
  nearest binary64 number, ties to the even significand: \<open>round64 x\<close> is the multiple of
  \<open>2 ^ (e - 52)\<close> nearest to \<open>x\<close>, where \<open>2 ^ e \<le> \<bar>x\<bar> < 2 ^ (e + 1)\<close> and \<open>e\<close> is not
  taken below \<open>- 1022\<close> (the subnormal range has the spacing \<open>2 ^ (- 1074)\<close>). A rounded
  value of magnitude \<open>2 ^ 1024\<close> or more is an infinity. \<open>bitlen n\<close> is the number of
  binary digits of a positive integer.
\<close>

definition round_half_even :: "real \<Rightarrow> int" where
  "round_half_even y =
     (let f = \<lfloor>y\<rfloor>; d = y - of_int f
      in if d < 1 / 2 then f else if 1 / 2 < d then f + 1
         else if even f then f else f + 1)"

definition pow2 :: "int \<Rightarrow> real" where
  "pow2 k = (if 0 \<le> k then 2 ^ nat k else 1 / 2 ^ nat (- k))"

definition exponent :: "real \<Rightarrow> int" where
  "exponent x =
     (if 1 \<le> \<bar>x\<bar> then bitlen \<lfloor>\<bar>x\<bar>\<rfloor> - 1
      else - bitlen (\<lceil>1 / \<bar>x\<bar>\<rceil> - 1))"

definition binade :: "real \<Rightarrow> int" where
  "binade x = max (exponent x) (- 1022)"

definition round64 :: "real \<Rightarrow> real" where
  "round64 x =
     (if x = 0 then 0
      else of_int (round_half_even (x / pow2 (binade x - 52))) * pow2 (binade x - 52))"

definition fl :: "real \<Rightarrow> npfloat" where
  "fl x =
     (let r = round64 x
      in if pow2 1024 \<le> \<bar>r\<bar> then (if 0 < r then PInf else NInf) else Fin r)"

fun np_round :: "npfloat \<Rightarrow> npfloat" where
  "np_round (Fin x) = fl x"
| "np_round PInf = PInf"
| "np_round NInf = NInf"
| "np_round NaN = NaN"

text \<open>The double that the literal \<^verbatim>\<open>0.8\<close> denotes: \<open>0.8000000000000000444\<dots>\<close>\<close>

definition double_0_8 :: real where
  "double_0_8 = 3602879701896397 / 4503599627370496"

section \<open>Exceptions and message texts\<close>

datatype error =
    ValueError string
  | KeyError string
  | ZeroDivisionError
  | OtherException string

fun str_of_error :: "error \<Rightarrow> string" where
  "str_of_error (ValueError m) = m"
| "str_of_error (KeyError m) = m"
| "str_of_error ZeroDivisionError = ''float division by zero''"
| "str_of_error (OtherException m) = m"

text \<open>
  The message and name texts of the source are Chinese; they are given here as their
  UTF-8 bytes. In the order of the definitions below they read: "score must lie in 0-100",
  "confidence must lie in 0-1", "insufficient data", "insufficient data or required
  column missing", "cannot get the latest data", "J value data missing",
  "analysis error: ", the default names of the two built-in strategies
  ("J-value screening strategy", "volume/price relation strategy"), the pieces of the
  J-value reason ("J value", "is below the threshold", ", in the oversold zone",
  "is above the threshold", ", not in the oversold zone") and the pieces of the
  volume/price texts ("required column missing: ", "insufficient recent data",
  "volume/price analysis failed", "volume-ratio contrast", "short of",
  "up-day volume ratio", "not expanded", "down-day volume ratio", "not shrunk",
  "conditions not met: ", "matches the pattern of rising on volume and falling on
  thin volume: contrast", ", up-day volume ratio", ", down-day volume ratio").
\<close>

definition msg_score_range :: string where
  "msg_score_range = ''score '' @ [CHR 0xE5, CHR 0xBF, CHR 0x85, CHR 0xE9, CHR 0xA1, CHR 0xBB, CHR 0xE5, CHR 0x9C, CHR 0xA8] @ '' 0-100 '' @ [CHR 0xE4, CHR 0xB9, CHR 0x8B, CHR 0xE9, CHR 0x97, CHR 0xB4]"

definition msg_confidence_range :: string where
  "msg_confidence_range = ''confidence '' @ [CHR 0xE5, CHR 0xBF, CHR 0x85, CHR 0xE9, CHR 0xA1, CHR 0xBB, CHR 0xE5, CHR 0x9C, CHR 0xA8] @ '' 0-1 '' @ [CHR 0xE4, CHR 0xB9, CHR 0x8B, CHR 0xE9, CHR 0x97, CHR 0xB4]"

definition msg_insufficient :: string where
  "msg_insufficient = [CHR 0xE6, CHR 0x95, CHR 0xB0, CHR 0xE6, CHR 0x8D, CHR 0xAE, CHR 0xE4, CHR 0xB8, CHR 0x8D, CHR 0xE8, CHR 0xB6, CHR 0xB3]"

definition msg_insufficient_or_missing :: string where
  "msg_insufficient_or_missing = [CHR 0xE6, CHR 0x95, CHR 0xB0, CHR 0xE6, CHR 0x8D, CHR 0xAE, CHR 0xE4, CHR 0xB8, CHR 0x8D, CHR 0xE8, CHR 0xB6, CHR 0xB3, CHR 0xE6, CHR 0x88, CHR 0x96, CHR 0xE7, CHR 0xBC, CHR 0xBA, CHR 0xE5, CHR 0xB0, CHR 0x91, CHR 0xE5, CHR 0xBF, CHR 0x85, CHR 0xE8, CHR 0xA6, CHR 0x81, CHR 0xE5, CHR 0x88, CHR 0x97]"

definition msg_no_latest :: string where
  "msg_no_latest = [CHR 0xE6, CHR 0x97, CHR 0xA0, CHR 0xE6, CHR 0xB3, CHR 0x95, CHR 0xE8, CHR 0x8E, CHR 0xB7, CHR 0xE5, CHR 0x8F, CHR 0x96, CHR 0xE6, CHR 0x9C, CHR 0x80, CHR 0xE6, CHR 0x96, CHR 0xB0, CHR 0xE6, CHR 0x95, CHR 0xB0, CHR 0xE6, CHR 0x8D, CHR 0xAE]"

definition msg_missing_j :: string where
  "msg_missing_j = [CHR 0xE7, CHR 0xBC, CHR 0xBA, CHR 0xE5, CHR 0xB0, CHR 0x91] @ ''J'' @ [CHR 0xE5, CHR 0x80, CHR 0xBC, CHR 0xE6, CHR 0x95, CHR 0xB0, CHR 0xE6, CHR 0x8D, CHR 0xAE]"

definition msg_analysis_error :: string where
  "msg_analysis_error = [CHR 0xE5, CHR 0x88, CHR 0x86, CHR 0xE6, CHR 0x9E, CHR 0x90, CHR 0xE5, CHR 0x87, CHR 0xBA, CHR 0xE9, CHR 0x94, CHR 0x99] @ '': ''"

definition j_default_name :: string where
  "j_default_name = ''J'' @ [CHR 0xE5, CHR 0x80, CHR 0xBC, CHR 0xE7, CHR 0xAD, CHR 0x9B, CHR 0xE9, CHR 0x80, CHR 0x89, CHR 0xE7, CHR 0xAD, CHR 0x96, CHR 0xE7, CHR 0x95, CHR 0xA5]"

definition volume_default_name :: string where
  "volume_default_name = [CHR 0xE9, CHR 0x87, CHR 0x8F, CHR 0xE4, CHR 0xBB, CHR 0xB7, CHR 0xE5, CHR 0x85, CHR 0xB3, CHR 0xE7, CHR 0xB3, CHR 0xBB, CHR 0xE7, CHR 0xAD, CHR 0x96, CHR 0xE7, CHR 0x95, CHR 0xA5]"

definition txt_j_value :: string where
  "txt_j_value = ''J'' @ [CHR 0xE5, CHR 0x80, CHR 0xBC]"

definition txt_below_threshold :: string where
  "txt_below_threshold = [CHR 0xE5, CHR 0xB0, CHR 0x8F, CHR 0xE4, CHR 0xBA, CHR 0x8E, CHR 0xE9, CHR 0x98, CHR 0x88, CHR 0xE5, CHR 0x80, CHR 0xBC]"

definition txt_oversold :: string where
  "txt_oversold = [CHR 0xEF, CHR 0xBC, CHR 0x8C, CHR 0xE5, CHR 0xA4, CHR 0x84, CHR 0xE4, CHR 0xBA, CHR 0x8E, CHR 0xE8, CHR 0xB6, CHR 0x85, CHR 0xE5, CHR 0x8D, CHR 0x96, CHR 0xE5, CHR 0x8C, CHR 0xBA, CHR 0xE5, CHR 0x9F, CHR 0x9F]"

definition txt_above_threshold :: string where
  "txt_above_threshold = [CHR 0xE5, CHR 0xA4, CHR 0xA7, CHR 0xE4, CHR 0xBA, CHR 0x8E, CHR 0xE9, CHR 0x98, CHR 0x88, CHR 0xE5, CHR 0x80, CHR 0xBC]"

definition txt_not_oversold :: string where
  "txt_not_oversold = [CHR 0xEF, CHR 0xBC, CHR 0x8C, CHR 0xE4, CHR 0xB8, CHR 0x8D, CHR 0xE5, CHR 0x9C, CHR 0xA8, CHR 0xE8, CHR 0xB6, CHR 0x85, CHR 0xE5, CHR 0x8D, CHR 0x96, CHR 0xE5, CHR 0x8C, CHR 0xBA, CHR 0xE5, CHR 0x9F, CHR 0x9F]"

definition msg_missing_column :: string where
  "msg_missing_column = [CHR 0xE7, CHR 0xBC, CHR 0xBA, CHR 0xE5, CHR 0xB0, CHR 0x91, CHR 0xE5, CHR 0xBF, CHR 0x85, CHR 0xE8, CHR 0xA6, CHR 0x81, CHR 0xE5, CHR 0x88, CHR 0x97] @ '': ''"

definition msg_recent_insufficient :: string where
  "msg_recent_insufficient = [CHR 0xE8, CHR 0xBF, CHR 0x91, CHR 0xE6, CHR 0x9C, CHR 0x9F, CHR 0xE6, CHR 0x95, CHR 0xB0, CHR 0xE6, CHR 0x8D, CHR 0xAE, CHR 0xE4, CHR 0xB8, CHR 0x8D, CHR 0xE8, CHR 0xB6, CHR 0xB3]"

definition msg_pattern_failed :: string where
  "msg_pattern_failed = [CHR 0xE9, CHR 0x87, CHR 0x8F, CHR 0xE4, CHR 0xBB, CHR 0xB7, CHR 0xE5, CHR 0x88, CHR 0x86, CHR 0xE6, CHR 0x9E, CHR 0x90, CHR 0xE5, CHR 0xA4, CHR 0xB1, CHR 0xE8, CHR 0xB4, CHR 0xA5]"

definition txt_contrast :: string where
  "txt_contrast = [CHR 0xE9, CHR 0x87, CHR 0x8F, CHR 0xE6, CHR 0xAF, CHR 0x94, CHR 0xE5, CHR 0xAF, CHR 0xB9, CHR 0xE6, CHR 0xAF, CHR 0x94, CHR 0xE5, CHR 0xBA, CHR 0xA6]"

definition txt_short_of :: string where
  "txt_short_of = [CHR 0xE4, CHR 0xB8, CHR 0x8D, CHR 0xE8, CHR 0xB6, CHR 0xB3]"

definition txt_up_ratio :: string where
  "txt_up_ratio = [CHR 0xE6, CHR 0xB6, CHR 0xA8, CHR 0xE6, CHR 0x97, CHR 0xA5, CHR 0xE9, CHR 0x87, CHR 0x8F, CHR 0xE6, CHR 0xAF, CHR 0x94]"

definition txt_not_expanded :: string where
  "txt_not_expanded = [CHR 0xE6, CHR 0x9C, CHR 0xAA, CHR 0xE6, CHR 0x94, CHR 0xBE, CHR 0xE9, CHR 0x87, CHR 0x8F]"

definition txt_down_ratio :: string where
  "txt_down_ratio = [CHR 0xE8, CHR 0xB7, CHR 0x8C, CHR 0xE6, CHR 0x97, CHR 0xA5, CHR 0xE9, CHR 0x87, CHR 0x8F, CHR 0xE6, CHR 0xAF, CHR 0x94]"

definition txt_not_shrunk :: string where
  "txt_not_shrunk = [CHR 0xE6, CHR 0x9C, CHR 0xAA, CHR 0xE7, CHR 0xBC, CHR 0xA9, CHR 0xE9, CHR 0x87, CHR 0x8F]"

definition txt_not_qualified :: string where
  "txt_not_qualified = [CHR 0xE4, CHR 0xB8, CHR 0x8D, CHR 0xE7, CHR 0xAC, CHR 0xA6, CHR 0xE5, CHR 0x90, CHR 0x88, CHR 0xE6, CHR 0x9D, CHR 0xA1, CHR 0xE4, CHR 0xBB, CHR 0xB6] @ '': ''"

definition txt_pattern_ok :: string where
  "txt_pattern_ok = [CHR 0xE7, CHR 0xAC, CHR 0xA6, CHR 0xE5, CHR 0x90, CHR 0x88, CHR 0xE6, CHR 0x94, CHR 0xBE, CHR 0xE9, CHR 0x87, CHR 0x8F, CHR 0xE4, CHR 0xB8, CHR 0x8A, CHR 0xE6, CHR 0xB6, CHR 0xA8, CHR 0xE7, CHR 0xBC, CHR 0xA9, CHR 0xE9, CHR 0x87, CHR 0x8F, CHR 0xE4, CHR 0xB8, CHR 0x8B, CHR 0xE8, CHR 0xB7, CHR 0x8C, CHR 0xE6, CHR 0xA8, CHR 0xA1, CHR 0xE5, CHR 0xBC, CHR 0x8F] @ '': '' @ [CHR 0xE9, CHR 0x87, CHR 0x8F, CHR 0xE6, CHR 0xAF, CHR 0x94, CHR 0xE5, CHR 0xAF, CHR 0xB9, CHR 0xE6, CHR 0xAF, CHR 0x94]"

definition txt_comma_up :: string where
  "txt_comma_up = '', '' @ [CHR 0xE6, CHR 0xB6, CHR 0xA8, CHR 0xE6, CHR 0x97, CHR 0xA5, CHR 0xE9, CHR 0x87, CHR 0x8F, CHR 0xE6, CHR 0xAF, CHR 0x94]"

definition txt_comma_down :: string where
  "txt_comma_down = '', '' @ [CHR 0xE8, CHR 0xB7, CHR 0x8C, CHR 0xE6, CHR 0x97, CHR 0xA5, CHR 0xE9, CHR 0x87, CHR 0x8F, CHR 0xE6, CHR 0xAF, CHR 0x94]"

text \<open>The texts of the two setters' errors: "the weight must not be negative" and
  "the J threshold must be greater than 0".\<close>

definition msg_negative_weight :: string where
  "msg_negative_weight = [CHR 0xE6, CHR 0x9D, CHR 0x83, CHR 0xE9, CHR 0x87, CHR 0x8D, CHR 0xE4, CHR 0xB8, CHR 0x8D, CHR 0xE8, CHR 0x83, CHR 0xBD, CHR 0xE4, CHR 0xB8, CHR 0xBA, CHR 0xE8, CHR 0xB4, CHR 0x9F, CHR 0xE6, CHR 0x95, CHR 0xB0]"

definition msg_j_threshold_positive :: string where
  "msg_j_threshold_positive = ''J'' @ [CHR 0xE5, CHR 0x80, CHR 0xBC, CHR 0xE9, CHR 0x98, CHR 0x88, CHR 0xE5, CHR 0x80, CHR 0xBC, CHR 0xE5, CHR 0xBF, CHR 0x85, CHR 0xE9, CHR 0xA1, CHR 0xBB, CHR 0xE5, CHR 0xA4, CHR 0xA7, CHR 0xE4, CHR 0xBA, CHR 0x8E] @ ''0''"

section \<open>Data model\<close>

subsection \<open>Bars and data frames\<close>

text \<open>
  One row of a security's daily table. \<open>trade_date\<close> is the date as the number
  \<^verbatim>\<open>YYYYMMDD\<close>; \<open>high\<close>, \<open>low\<close>, \<open>close\<close> and \<open>vol\<close> are finite; the indicator columns
  \<open>K\<close>, \<open>D\<close>, \<open>J\<close> may hold NaN or an infinity. A data frame is its list of column names
  and its rows; the value a row holds for a column that is not listed is never read.
\<close>

record bar =
  trade_date :: nat
  high :: real
  low :: real
  close :: real
  vol :: real
  K :: npfloat
  D :: npfloat
  J :: npfloat

record dataframe =
  columns :: "string list"
  rows :: "bar list"

definition df_empty :: "dataframe \<Rightarrow> bool" where
  \<comment> \<open>pandas \<^verbatim>\<open>DataFrame.empty\<close>: an axis of length 0\<close>
  "df_empty df = (rows df = [] \<or> columns df = [])"

function str_nat :: "nat \<Rightarrow> string" where
  "str_nat n =
     (if n < 10 then [char_of (48 + n)]
      else str_nat (n div 10) @ [char_of (48 + n mod 10)])"
  by pat_completeness auto
termination
  by (relation "measure id") auto

declare str_nat.simps [simp del]

subsection \<open>Verdicts: \<^verbatim>\<open>StrategyResult\<close>\<close>

text \<open>
  An f-string of the source that interpolates a float is kept as its pieces: the literal
  text and each number with its format specification (\<^verbatim>\<open>.2f\<close>, \<^verbatim>\<open>.1f\<close>, or none).
\<close>

datatype text_part = Lit string | FloatFmt string npfloat

type_synonym reason_text = "text_part list"

text \<open>The dictionary \<^verbatim>\<open>_analyze_volume_price_pattern\<close> returns, key by key.\<close>

record analysis_result =
  is_qualified_ar :: bool
  up_days_count :: nat
  down_days_count :: nat
  avg_vol_ratio_up :: npfloat
  avg_vol_ratio_down :: npfloat
  volume_contrast :: npfloat
  recent_return_5d :: npfloat
  j_value_ar :: npfloat
  cond_volume_contrast :: bool
  cond_up_day_volume :: bool
  cond_down_day_volume :: bool
  param_days_to_analyze :: nat
  param_min_price_change :: real
  param_min_volume_contrast :: real

datatype details =
    NoDetails
  | JDetails npfloat real npfloat
    \<comment> \<open>\<^verbatim>\<open>j_value\<close>, \<^verbatim>\<open>max_j_value\<close> (also under \<^verbatim>\<open>analysis_params\<close>), \<^verbatim>\<open>j_percentile\<close>\<close>
  | VolumeDetails analysis_result

text \<open>
  A \<^verbatim>\<open>StrategyResult\<close> object exists only once \<^verbatim>\<open>__post_init__\<close> has accepted it, and the
  check \<^verbatim>\<open>0 <= score <= 100\<close> is false for NaN and for the infinities: the score and the
  confidence of an object are finite, and the record holds them as reals. The constructor
  takes the floats it is called with.
\<close>

record StrategyResult =
  stock_code :: string
  stock_name :: string
  strategy_name :: string
  is_qualified :: bool
  score :: real
  confidence :: real
  details :: details
  reason :: reason_text
  current_price :: real
  trade_date_str :: string

fun fin_val :: "npfloat \<Rightarrow> real" where
  "fin_val (Fin a) = a"
| "fin_val _ = 0"

definition StrategyResult_new ::
  "string \<Rightarrow> string \<Rightarrow> string \<Rightarrow> bool \<Rightarrow> npfloat \<Rightarrow> npfloat \<Rightarrow> details \<Rightarrow> reason_text \<Rightarrow> real \<Rightarrow> string
    \<Rightarrow> error + StrategyResult" where
  "StrategyResult_new code nm sname q sc cf det rsn price date =
     (if \<not> (Fin 0 \<le> sc \<and> sc \<le> Fin 100) then Inl (ValueError msg_score_range)
      else if \<not> (Fin 0 \<le> cf \<and> cf \<le> Fin 1) then Inl (ValueError msg_confidence_range)
      else Inr \<lparr> stock_code = code, stock_name = nm, strategy_name = sname,
                 is_qualified = q, score = fin_val sc, confidence = fin_val cf,
                 details = det, reason = rsn, current_price = price,
                 trade_date_str = date \<rparr>)"

subsection \<open>Strategies: \<^verbatim>\<open>BaseStrategy\<close>\<close>

text \<open>
  A strategy object carries the attributes of \<^verbatim>\<open>BaseStrategy.__init__\<close>; its class, with
  the parameters of that class, is its \<open>kind\<close>. \<open>OtherStrategy f\<close> is any further subclass:
  \<open>f\<close> is its \<^verbatim>\<open>analyze\<close>, which returns a verdict or raises (\<open>Inl\<close>). The \<^verbatim>\<open>params\<close>
  dictionary repeats the keyword arguments and is read by no function here.
\<close>

datatype kind =
    JValueStrategy real
  | VolumePatternStrategy nat real real
  | OtherStrategy "string \<Rightarrow> string \<Rightarrow> dataframe option \<Rightarrow> error + StrategyResult"

record strategy =
  name :: string
  weight :: real
  enabled :: bool
  is_filter_strategy :: bool
  threshold_score :: real
  kind :: kind

definition get_name :: "strategy \<Rightarrow> string" where
  "get_name self = name self"

definition is_enabled :: "strategy \<Rightarrow> bool" where
  "is_enabled self = enabled self"

definition is_filter :: "strategy \<Rightarrow> bool" where
  "is_filter self = is_filter_strategy self"

definition set_weight :: "strategy \<Rightarrow> real \<Rightarrow> error + strategy" where
  "set_weight self w =
     (if w < 0 then Inl (ValueError msg_negative_weight)
      else Inr (self\<lparr>weight := w\<rparr>))"

definition passes_filter :: "strategy \<Rightarrow> StrategyResult \<Rightarrow> bool" where
  "passes_filter self result =
     (if \<not> is_filter_strategy self then True
      else is_qualified result \<and> threshold_score self \<le> score result)"

definition validate_data :: "dataframe option \<Rightarrow> nat \<Rightarrow> bool" where
  "validate_data stock_data min_length =
     (case stock_data of
        None \<Rightarrow> False
      | Some df \<Rightarrow>
          if df_empty df then False
          else if length (rows df) < min_length then False
          else if \<not> list_all (\<lambda>col. col \<in> set (columns df)) [''trade_date'', ''close'', ''vol'']
          then False
          else True)"

text \<open>
  \<^verbatim>\<open>sort_values('trade_date', ascending=True)\<close> is taken as a stable sort; pandas' default
  algorithm is not stable, which shows only when two rows carry the same date.
\<close>

definition sort_values_trade_date :: "dataframe \<Rightarrow> error + dataframe" where
  "sort_values_trade_date df =
     (if ''trade_date'' \<notin> set (columns df) then Inl (KeyError ''trade_date'')
      else Inr (df\<lparr>rows := sort_key trade_date (rows df)\<rparr>))"

definition get_latest_data :: "dataframe option \<Rightarrow> error + bar option" where
  "get_latest_data stock_data =
     (case stock_data of
        None \<Rightarrow> Inr None
      | Some df \<Rightarrow>
          if df_empty df then Inr None
          else case sort_values_trade_date df of
                 Inl e \<Rightarrow> Inl e
               | Inr df_sorted \<Rightarrow> Inr (Some (last (rows df_sorted))))"

definition create_failed_result ::
  "strategy \<Rightarrow> string \<Rightarrow> string \<Rightarrow> reason_text \<Rightarrow> error + StrategyResult" where
  "create_failed_result self code nm rsn =
     StrategyResult_new code nm (name self) False (Fin 0) (Fin 0) NoDetails rsn 0 []"

text \<open>
  Python's \<^verbatim>\<open>/\<close> on two \<^verbatim>\<open>float\<close> objects raises on a zero divisor, and rounds the
  quotient otherwise.
\<close>

definition py_truediv :: "npfloat \<Rightarrow> npfloat \<Rightarrow> error + npfloat" where
  "py_truediv a b = (if b = Fin 0 then Inl ZeroDivisionError else Inr (np_round (a / b)))"

subsection \<open>\<^verbatim>\<open>JValueStrategy\<close>\<close>

definition JValueStrategy_init :: "real \<Rightarrow> real \<Rightarrow> bool \<Rightarrow> real \<Rightarrow> strategy" where
  "JValueStrategy_init max_j_value w is_f thr =
     \<lparr> name = j_default_name, weight = w, enabled = True, is_filter_strategy = is_f,
       threshold_score = thr, kind = JValueStrategy max_j_value \<rparr>"

definition set_max_j_value :: "strategy \<Rightarrow> real \<Rightarrow> error + strategy" where
  "set_max_j_value self max_j_value =
     (if max_j_value \<le> 0 then Inl (ValueError msg_j_threshold_positive)
      else Inr (self\<lparr>kind := JValueStrategy max_j_value\<rparr>))"

definition j_score :: "npfloat \<Rightarrow> real \<Rightarrow> error + npfloat" where
  "j_score j_value max_j_value =
     (if j_value \<le> Fin 0 then Inr (Fin 100)
      else if Fin max_j_value \<le> j_value then Inr (Fin 0)
      else case py_truediv j_value (Fin max_j_value) of
             Inl e \<Rightarrow> Inl e
           | Inr q \<Rightarrow> Inr (np_round (Fin 100 - np_round (q * Fin 90))))"

definition j_confidence :: "npfloat \<Rightarrow> real \<Rightarrow> npfloat" where
  "j_confidence j_value max_j_value =
     (if j_value \<le> np_round (Fin max_j_value * Fin 0.5) then Fin 0.9
      else if j_value \<le> np_round (Fin max_j_value * Fin double_0_8) then Fin 0.7
      else Fin 0.5)"

definition j_reason :: "bool \<Rightarrow> npfloat \<Rightarrow> real \<Rightarrow> reason_text" where
  "j_reason q j_value max_j_value =
     (if q then [Lit txt_j_value, FloatFmt ''.2f'' j_value, Lit txt_below_threshold,
                 FloatFmt [] (Fin max_j_value), Lit txt_oversold]
      else [Lit txt_j_value, FloatFmt ''.2f'' j_value, Lit txt_above_threshold,
            FloatFmt [] (Fin max_j_value), Lit txt_not_oversold])"

definition JValueStrategy_analyze ::
  "strategy \<Rightarrow> real \<Rightarrow> string \<Rightarrow> string \<Rightarrow> dataframe option \<Rightarrow> error + StrategyResult" where
  "JValueStrategy_analyze self max_j_value code nm stock_data =
     (if \<not> validate_data stock_data 5
      then create_failed_result self code nm [Lit msg_insufficient_or_missing]
      else case get_latest_data stock_data of
        Inl e \<Rightarrow> Inl e
      | Inr None \<Rightarrow> create_failed_result self code nm [Lit msg_no_latest]
      | Inr (Some latest_data) \<Rightarrow>
          if ''J'' \<notin> set (case stock_data of None \<Rightarrow> [] | Some df \<Rightarrow> columns df)
             \<or> isna (J latest_data)
          then create_failed_result self code nm [Lit msg_missing_j]
          else
            let j_value = J latest_data;
                price = close latest_data;
                date = str_nat (trade_date latest_data);
                q = (j_value < Fin max_j_value)
            in case j_score j_value max_j_value of
                 Inl e \<Rightarrow> Inl e
               | Inr sc \<Rightarrow>
                   (case py_truediv j_value (Fin max_j_value) of
                      Inl e \<Rightarrow> Inl e
                    | Inr pct \<Rightarrow>
                        StrategyResult_new code nm (name self) q sc
                          (j_confidence j_value max_j_value)
                          (JDetails j_value max_j_value (np_round (pct * Fin 100)))
                          (j_reason q j_value max_j_value) price date))"

subsection \<open>\<^verbatim>\<open>VolumePatternStrategy\<close>\<close>

definition VolumePatternStrategy_init :: "nat \<Rightarrow> real \<Rightarrow> real \<Rightarrow> real \<Rightarrow> strategy" where
  "VolumePatternStrategy_init days_to_analyze min_price_change min_volume_contrast w =
     \<lparr> name = volume_default_name, weight = w, enabled = True, is_filter_strategy = False,
       threshold_score = 100,
       kind = VolumePatternStrategy days_to_analyze min_price_change min_volume_contrast \<rparr>"

text \<open>The pandas operations the strategy uses, on the columns as lists.\<close>

definition tail :: "nat \<Rightarrow> 'a list \<Rightarrow> 'a list" where
  "tail n xs = drop (length xs - n) xs"

fun pct_change :: "real list \<Rightarrow> npfloat list" where
  "pct_change [] = []"
| "pct_change (x # xs) = NaN # map2 (\<lambda>prev cur. Fin cur / Fin prev - Fin 1) (x # xs) xs"

definition rolling_mean :: "nat \<Rightarrow> real list \<Rightarrow> npfloat list" where
  \<comment> \<open>\<^verbatim>\<open>rolling(window=w).mean()\<close>: NaN until \<open>w\<close> values are there\<close>
  "rolling_mean w xs =
     map (\<lambda>i. if i + 1 < w then NaN
               else Fin (sum_list (take w (drop (i + 1 - w) xs)) / real w))
         [0..<length xs]"

definition mean_skipna :: "npfloat list \<Rightarrow> npfloat" where
  \<comment> \<open>\<^verbatim>\<open>Series.mean()\<close>: NaN entries are skipped; NaN when nothing is left\<close>
  "mean_skipna xs =
     (let ys = filter (\<lambda>x. \<not> isna x) xs
      in if ys = [] then NaN else fold (\<lambda>y acc. acc + y) ys (Fin 0) / Fin (real (length ys)))"

definition py_min :: "npfloat \<Rightarrow> npfloat \<Rightarrow> npfloat" where
  \<comment> \<open>Python's \<^verbatim>\<open>min(a, b)\<close>: \<open>b\<close> only when \<open>b < a\<close>\<close>
  "py_min a b = (if b < a then b else a)"

definition analyze_volume_price_pattern ::
  "nat \<Rightarrow> real \<Rightarrow> real \<Rightarrow> dataframe \<Rightarrow> analysis_result option" where
  "analyze_volume_price_pattern days_to_analyze min_price_change min_volume_contrast data =
     (let analysis_data = tail days_to_analyze (rows data);
          price_change = pct_change (map close analysis_data);
          volume_ma = rolling_mean 5 (map vol analysis_data);
          volume_ratio = map2 (\<lambda>v ma. Fin v / ma) (map vol analysis_data) volume_ma;
          up_days = filter (\<lambda>(pc, r). Fin min_price_change < pc) (zip price_change volume_ratio);
          down_days = filter (\<lambda>(pc, r). pc < Fin (- min_price_change))
                        (zip price_change volume_ratio)
      in if length up_days < 3 \<or> length down_days < 3 then None
         else
           let avg_up = mean_skipna (map snd up_days);
               avg_down = mean_skipna (map snd down_days);
               contrast = (if avg_down \<noteq> Fin 0 then avg_up / avg_down else Fin 0);
               conditions_met = True;
               conditions_met =
                 (if contrast < Fin min_volume_contrast then False else conditions_met);
               conditions_met = (if avg_up < Fin 1 then False else conditions_met);
               conditions_met = (if Fin 1 < avg_down then False else conditions_met);
               recent_5days = tail 5 analysis_data;
               recent_return =
                 (Fin (close (last recent_5days)) / Fin (close (hd recent_5days)) - Fin 1)
                   * Fin 100;
               j = (if ''J'' \<in> set (columns data) then J (last analysis_data) else Fin 0)
           in Some \<lparr> is_qualified_ar = conditions_met,
                      up_days_count = length up_days,
                      down_days_count = length down_days,
                      avg_vol_ratio_up = avg_up,
                      avg_vol_ratio_down = avg_down,
                      volume_contrast = contrast,
                      recent_return_5d = recent_return,
                      j_value_ar = j,
                      cond_volume_contrast = (Fin min_volume_contrast \<le> contrast),
                      cond_up_day_volume = (Fin 1 \<le> avg_up),
                      cond_down_day_volume = (avg_down \<le> Fin 1),
                      param_days_to_analyze = days_to_analyze,
                      param_min_price_change = min_price_change,
                      param_min_volume_contrast = min_volume_contrast \<rparr>)"

definition contrast_points :: "real \<Rightarrow> npfloat \<Rightarrow> real" where
  "contrast_points min_volume_contrast c =
     (if Fin 2 \<le> c then 40 else if Fin 1.5 \<le> c then 30
      else if Fin min_volume_contrast \<le> c then 20 else 0)"

definition up_points :: "npfloat \<Rightarrow> real" where
  "up_points u =
     (if Fin 1.5 \<le> u then 30 else if Fin 1.2 \<le> u then 20
      else if Fin 1 \<le> u then 10 else 0)"

definition down_points :: "npfloat \<Rightarrow> real" where
  "down_points d =
     (if d \<le> Fin 0.8 then 20 else if d \<le> Fin 0.9 then 15
      else if d \<le> Fin 1 then 10 else 0)"

definition calculate_score :: "real \<Rightarrow> analysis_result \<Rightarrow> npfloat" where
  "calculate_score min_volume_contrast ar =
     (if \<not> is_qualified_ar ar then Fin 0
      else
        let sc = Fin 0;
            sc = sc + Fin (contrast_points min_volume_contrast (volume_contrast ar));
            sc = sc + Fin (up_points (avg_vol_ratio_up ar));
            sc = sc + Fin (down_points (avg_vol_ratio_down ar));
            sc = (if Fin 0 < recent_return_5d ar
                  then sc + py_min (Fin 10) (recent_return_5d ar) else sc)
        in py_min (Fin 100) sc)"

definition calculate_confidence :: "analysis_result \<Rightarrow> npfloat" where
  "calculate_confidence ar =
     (if \<not> is_qualified_ar ar then Fin 0.1
      else
        let cf = (0.5 :: real);
            total_samples = up_days_count ar + down_days_count ar;
            cf = (if 10 \<le> total_samples then cf + 0.2
                  else if 6 \<le> total_samples then cf + 0.1 else cf);
            cf = (if Fin 2 \<le> volume_contrast ar then cf + 0.2
                  else if Fin 1.5 \<le> volume_contrast ar then cf + 0.1 else cf);
            conditions_met =
              length (filter id [cond_volume_contrast ar, cond_up_day_volume ar,
                                 cond_down_day_volume ar]);
            cf = cf + real conditions_met * 0.05
        in py_min (Fin 1) (Fin cf))"

fun join_text :: "reason_text \<Rightarrow> reason_text list \<Rightarrow> reason_text" where
  "join_text sep [] = []"
| "join_text sep [t] = t"
| "join_text sep (t # ts) = t @ sep @ join_text sep ts"

definition generate_reason :: "real \<Rightarrow> analysis_result \<Rightarrow> reason_text" where
  "generate_reason min_volume_contrast ar =
     (if \<not> is_qualified_ar ar then
        let reasons =
              (if \<not> cond_volume_contrast ar
               then [[Lit txt_contrast, FloatFmt ''.1f'' (volume_contrast ar), Lit txt_short_of,
                      FloatFmt [] (Fin min_volume_contrast)]] else [])
              @ (if \<not> cond_up_day_volume ar
                 then [[Lit txt_up_ratio, FloatFmt ''.1f'' (avg_vol_ratio_up ar),
                        Lit txt_not_expanded]] else [])
              @ (if \<not> cond_down_day_volume ar
                 then [[Lit txt_down_ratio, FloatFmt ''.1f'' (avg_vol_ratio_down ar),
                        Lit txt_not_shrunk]] else [])
        in Lit txt_not_qualified # join_text [Lit '', ''] reasons
      else [Lit txt_pattern_ok, FloatFmt ''.1f'' (volume_contrast ar),
            Lit txt_comma_up, FloatFmt ''.1f'' (avg_vol_ratio_up ar),
            Lit txt_comma_down, FloatFmt ''.1f'' (avg_vol_ratio_down ar)])"

definition VolumePatternStrategy_analyze ::
  "strategy \<Rightarrow> nat \<Rightarrow> real \<Rightarrow> real \<Rightarrow> string \<Rightarrow> string \<Rightarrow> dataframe option
    \<Rightarrow> error + StrategyResult" where
  "VolumePatternStrategy_analyze self days_to_analyze min_price_change min_volume_contrast
       code nm stock_data =
     (if \<not> validate_data stock_data (days_to_analyze + 10)
      then create_failed_result self code nm [Lit msg_insufficient]
      else case stock_data of
        None \<Rightarrow> create_failed_result self code nm [Lit msg_insufficient]
      | Some df \<Rightarrow>
          (case filter (\<lambda>col. col \<notin> set (columns df)) [''close'', ''vol'', ''trade_date''] of
             col # _ \<Rightarrow> create_failed_result self code nm [Lit (msg_missing_column @ col)]
           | [] \<Rightarrow>
               let attempt =
                 (case sort_values_trade_date df of
                    Inl e \<Rightarrow> Inl e
                  | Inr df_sorted \<Rightarrow>
                      let recent_data = df_sorted\<lparr>rows := tail (days_to_analyze + 5) (rows df_sorted)\<rparr>
                      in if length (rows recent_data) < days_to_analyze
                         then create_failed_result self code nm [Lit msg_recent_insufficient]
                         else case analyze_volume_price_pattern days_to_analyze min_price_change
                                     min_volume_contrast recent_data of
                                None \<Rightarrow> create_failed_result self code nm [Lit msg_pattern_failed]
                              | Some ar \<Rightarrow>
                                  let latest_data = last (rows recent_data)
                                  in StrategyResult_new code nm (name self) (is_qualified_ar ar)
                                       (calculate_score min_volume_contrast ar)
                                       (calculate_confidence ar) (VolumeDetails ar)
                                       (generate_reason min_volume_contrast ar)
                                       (close latest_data) (str_nat (trade_date latest_data)))
               in case attempt of
                    Inl e \<Rightarrow>
                      create_failed_result self code nm
                        [Lit (msg_analysis_error @ str_of_error e)]
                  | Inr r \<Rightarrow> Inr r))"

subsection \<open>Dispatch of \<^verbatim>\<open>analyze\<close>\<close>

definition analyze ::
  "strategy \<Rightarrow> string \<Rightarrow> string \<Rightarrow> dataframe option \<Rightarrow> error + StrategyResult" where
  "analyze self code nm stock_data =
     (case kind self of
        JValueStrategy max_j_value \<Rightarrow> JValueStrategy_analyze self max_j_value code nm stock_data
      | VolumePatternStrategy days mpc mvc \<Rightarrow>
          VolumePatternStrategy_analyze self days mpc mvc code nm stock_data
      | OtherStrategy f \<Rightarrow> f code nm stock_data)"

section \<open>\<^verbatim>\<open>StrategyRegistry\<close>\<close>

text \<open>
  \<^verbatim>\<open>_strategies\<close> is a dictionary from names to strategy objects; Python dictionaries keep
  insertion order and assigning to a present key keeps its place, which is
  \<^const>\<open>AList.update\<close> on an association list. The console messages are not represented.
\<close>

type_synonym registry = "(string \<times> strategy) list"

type_synonym results = "(string \<times> StrategyResult) list"

definition register_strategy :: "registry \<Rightarrow> strategy \<Rightarrow> registry" where
  "register_strategy reg s = AList.update (get_name s) s reg"

definition unregister_strategy :: "registry \<Rightarrow> string \<Rightarrow> registry" where
  "unregister_strategy reg nm = AList.delete nm reg"

definition get_strategy :: "registry \<Rightarrow> string \<Rightarrow> strategy option" where
  "get_strategy reg nm = map_of reg nm"

definition get_enabled_strategies :: "registry \<Rightarrow> strategy list" where
  "get_enabled_strategies reg = filter is_enabled (map snd reg)"

definition get_filter_strategies :: "registry \<Rightarrow> strategy list" where
  "get_filter_strategies reg = filter (\<lambda>s. is_enabled s \<and> is_filter s) (map snd reg)"

definition get_scoring_strategies :: "registry \<Rightarrow> strategy list" where
  "get_scoring_strategies reg = filter (\<lambda>s. is_enabled s \<and> \<not> is_filter s) (map snd reg)"

definition named_strategies :: "registry \<Rightarrow> string list \<Rightarrow> strategy list" where
  \<comment> \<open>\<^verbatim>\<open>[self.get_strategy(name) for name in strategy_names if ... is not None]\<close>\<close>
  "named_strategies reg names = List.map_filter (get_strategy reg) names"

text \<open>
  The state of an evaluation: the dictionary of results built so far and, as a log of
  the effect the short-circuit is about, the strategies whose \<^verbatim>\<open>analyze\<close> has been called,
  in call order.
\<close>

type_synonym eval_state = "results \<times> strategy list"

definition error_result :: "strategy \<Rightarrow> string \<Rightarrow> string \<Rightarrow> error \<Rightarrow> error + StrategyResult" where
  "error_result s code nm e =
     create_failed_result s code nm [Lit (msg_analysis_error @ str_of_error e)]"

text \<open>
  The loop of \<^verbatim>\<open>analyze_stock\<close> and the second loop of \<^verbatim>\<open>analyze_stock_with_filtering\<close>.
  An exception of \<^verbatim>\<open>analyze\<close> is caught; one raised inside the handler would leave the
  function, so it is a branch of the model.
\<close>

fun run_strategies ::
  "string \<Rightarrow> string \<Rightarrow> dataframe option \<Rightarrow> strategy list \<Rightarrow> eval_state \<Rightarrow> error + eval_state" where
  "run_strategies code nm data [] st = Inr st"
| "run_strategies code nm data (s # ss) (res, calls) =
     (case analyze s code nm data of
        Inr r \<Rightarrow> run_strategies code nm data ss (AList.update (get_name s) r res, calls @ [s])
      | Inl e \<Rightarrow>
          (case error_result s code nm e of
             Inl e' \<Rightarrow> Inl e'
           | Inr er \<Rightarrow>
               run_strategies code nm data ss (AList.update (get_name s) er res, calls @ [s])))"

text \<open>
  The first loop of \<^verbatim>\<open>analyze_stock_with_filtering\<close>. The flag of the result says whether
  the loop ran to its end (\<open>True\<close>) or left through one of its two \<^verbatim>\<open>return results\<close>.
\<close>

fun run_filters ::
  "string \<Rightarrow> string \<Rightarrow> dataframe option \<Rightarrow> strategy list \<Rightarrow> eval_state
    \<Rightarrow> error + (bool \<times> eval_state)" where
  "run_filters code nm data [] st = Inr (True, st)"
| "run_filters code nm data (s # ss) (res, calls) =
     (case analyze s code nm data of
        Inr r \<Rightarrow>
          (let res' = AList.update (get_name s) r res
           in if \<not> passes_filter s r then Inr (False, (res', calls @ [s]))
              else run_filters code nm data ss (res', calls @ [s]))
      | Inl e \<Rightarrow>
          (case error_result s code nm e of
             Inl e' \<Rightarrow> Inl e'
           | Inr er \<Rightarrow> Inr (False, (AList.update (get_name s) er res, calls @ [s]))))"

definition analyze_stock ::
  "registry \<Rightarrow> string \<Rightarrow> string \<Rightarrow> dataframe option \<Rightarrow> string list option \<Rightarrow> error + eval_state" where
  "analyze_stock reg code nm data strategy_names =
     (let strategies =
            (case strategy_names of
               None \<Rightarrow> get_enabled_strategies reg
             | Some names \<Rightarrow> named_strategies reg names)
      in run_strategies code nm data strategies ([], []))"

definition selected_filter_strategies :: "registry \<Rightarrow> string list option \<Rightarrow> strategy list" where
  "selected_filter_strategies reg strategy_names =
     (case strategy_names of
        None \<Rightarrow> get_filter_strategies reg
      | Some names \<Rightarrow> filter is_filter (named_strategies reg names))"

definition selected_scoring_strategies :: "registry \<Rightarrow> string list option \<Rightarrow> strategy list" where
  "selected_scoring_strategies reg strategy_names =
     (case strategy_names of
        None \<Rightarrow> get_scoring_strategies reg
      | Some names \<Rightarrow> filter (\<lambda>s. \<not> is_filter s) (named_strategies reg names))"

definition analyze_stock_with_filtering ::
  "registry \<Rightarrow> string \<Rightarrow> string \<Rightarrow> dataframe option \<Rightarrow> string list option \<Rightarrow> error + eval_state" where
  "analyze_stock_with_filtering reg code nm data strategy_names =
     (let filter_strategies = selected_filter_strategies reg strategy_names;
          scoring_strategies = selected_scoring_strategies reg strategy_names
      in case run_filters code nm data filter_strategies ([], []) of
           Inl e \<Rightarrow> Inl e
         | Inr (False, st) \<Rightarrow> Inr st
         | Inr (True, st) \<Rightarrow> run_strategies code nm data scoring_strategies st)"

section \<open>\<^verbatim>\<open>ScoringEngine\<close>\<close>

record StockScore =
  stock_code_ss :: string
  stock_name_ss :: string
  total_score :: real
  weighted_score :: real
  strategy_scores :: "(string \<times> real) list"
  strategy_weights :: "(string \<times> real) list"
  strategy_results :: results
  qualified_strategies :: "string list"
  confidence_ss :: real
  current_price_ss :: real
  trade_date_ss :: string

definition qualified_count :: "StockScore \<Rightarrow> nat" where
  "qualified_count ss = length (qualified_strategies ss)"

definition dict_get :: "('k \<times> 'v) list \<Rightarrow> 'k \<Rightarrow> 'v \<Rightarrow> 'v" where
  \<comment> \<open>\<^verbatim>\<open>d.get(key, default)\<close>\<close>
  "dict_get d k dflt = (case map_of d k of None \<Rightarrow> dflt | Some v \<Rightarrow> v)"

definition StockScore_post_init :: "StockScore \<Rightarrow> StockScore" where
  "StockScore_post_init self =
     (if strategy_results self \<noteq> [] then
        let self = self\<lparr>qualified_strategies :=
                          map fst (filter (\<lambda>(n, r). is_qualified r) (strategy_results self))\<rparr>
        in if strategy_weights self \<noteq> [] then
             let total_weight = sum_list (map snd (strategy_weights self))
             in if 0 < total_weight then
                  self\<lparr>confidence_ss :=
                         sum_list (map (\<lambda>(n, r). confidence r * dict_get (strategy_weights self) n 0)
                                       (strategy_results self)) / total_weight\<rparr>
                else self
           else self
      else self)"

record RankedStock =
  rank :: nat
  stock_score :: StockScore

text \<open>The engine object: its method name and its default for the qualified-count floor.\<close>

record ScoringEngine =
  scoring_method :: string
  min_qualified_strategies :: nat

definition ScoringEngine_init :: "string \<Rightarrow> ScoringEngine" where
  "ScoringEngine_init method = \<lparr> scoring_method = method, min_qualified_strategies = 1 \<rparr>"

fun index_of :: "'a \<Rightarrow> 'a list \<Rightarrow> nat" where
  \<comment> \<open>\<^verbatim>\<open>list.index\<close>, called only with a member of the list\<close>
  "index_of x [] = 0"
| "index_of x (y # ys) = (if x = y then 0 else Suc (index_of x ys))"

fun list_max :: "real list \<Rightarrow> real" where
  \<comment> \<open>\<^verbatim>\<open>max\<close> of a list, called only on a non-empty one\<close>
  "list_max [] = 0"
| "list_max (x # xs) = fold max xs x"

definition calculate_scores ::
  "ScoringEngine \<Rightarrow> (string \<times> real) list \<Rightarrow> (string \<times> real) list \<Rightarrow> error + real \<times> real" where
  "calculate_scores self scores_dict weights_dict =
     (if scores_dict = [] then Inr (0, 0)
      else
        let scores = map snd scores_dict;
            weights = map (\<lambda>n. dict_get weights_dict n 1) (map fst scores_dict);
            total_sc = sum_list scores / real (length scores)
        in if scoring_method self = ''weighted_average'' then
             let total_weight = sum_list weights
             in if 0 < total_weight
                then Inr (total_sc, sum_list (map2 (\<lambda>sc w. sc * w) scores weights) / total_weight)
                else Inr (total_sc, total_sc)
           else if scoring_method self = ''multiplicative'' then
             if list_all (\<lambda>sc. 0 < sc) scores then
               let product = fold (\<lambda>(sc, w) p. p * (sc / 100) powr w) (zip scores weights) 1
               in if sum_list weights = 0 then Inl ZeroDivisionError
                  else Inr (total_sc, (product powr (1 / sum_list weights)) * 100)
             else Inr (total_sc, 0)
           else if scoring_method self = ''max_score'' then
             let max_weight_idx = index_of (list_max weights) weights
             in Inr (total_sc, scores ! max_weight_idx)
           else Inr (total_sc, total_sc))"

definition calculate_stock_score ::
  "ScoringEngine \<Rightarrow> string \<Rightarrow> string \<Rightarrow> results \<Rightarrow> (string \<times> real) list option
    \<Rightarrow> string list option \<Rightarrow> error + StockScore" where
  "calculate_stock_score self code nm results0 weights0 filter_strategy_names0 =
     (if results0 = [] then
        Inr (StockScore_post_init
          \<lparr> stock_code_ss = code, stock_name_ss = nm, total_score = 0, weighted_score = 0,
            strategy_scores = [], strategy_weights = [], strategy_results = [],
            qualified_strategies = [], confidence_ss = 0, current_price_ss = 0,
            trade_date_ss = [] \<rparr>)
      else
        let filter_strategy_names =
              (case filter_strategy_names0 of None \<Rightarrow> [] | Some ns \<Rightarrow> ns);
            scoring_results =
              filter (\<lambda>(n, r). n \<notin> set filter_strategy_names) results0;
            weights =
              (case weights0 of
                 None \<Rightarrow> map (\<lambda>(n, r). (n, 1)) scoring_results
               | Some ws \<Rightarrow> filter (\<lambda>(n, w). n \<in> set (map fst scoring_results)) ws);
            scores = map (\<lambda>(n, r). (n, score r)) scoring_results
        in case calculate_scores self scores weights of
             Inl e \<Rightarrow> Inl e
           | Inr (total_sc, weighted_sc) \<Rightarrow>
               let priced = filter (\<lambda>(n, r). 0 < current_price r) results0;
                   price = (case priced of [] \<Rightarrow> 0 | (n, r) # _ \<Rightarrow> current_price r);
                   date = (case priced of [] \<Rightarrow> [] | (n, r) # _ \<Rightarrow> trade_date_str r)
               in Inr (StockScore_post_init
                    \<lparr> stock_code_ss = code, stock_name_ss = nm, total_score = total_sc,
                      weighted_score = weighted_sc, strategy_scores = scores,
                      strategy_weights = weights, strategy_results = results0,
                      qualified_strategies = [], confidence_ss = 0,
                      current_price_ss = price, trade_date_ss = date \<rparr>))"

text \<open>
  \<^verbatim>\<open>list.sort(key=..., reverse=True)\<close>: CPython reverses the list, sorts it stably in
  ascending order and reverses the result, so that elements with equal keys keep their
  order.
\<close>

definition sort_reverse :: "('a \<Rightarrow> 'k::linorder) \<Rightarrow> 'a list \<Rightarrow> 'a list" where
  "sort_reverse key xs = rev (sort_key key (rev xs))"

definition keep_stock :: "string \<Rightarrow> real \<Rightarrow> nat \<Rightarrow> StockScore \<Rightarrow> bool" where
  \<comment> \<open>the negation of the three \<^verbatim>\<open>continue\<close> tests of the filtering loop\<close>
  "keep_stock sort_by min_score min_q ss =
     (if sort_by = ''total_score'' \<and> total_score ss < min_score then False
      else if sort_by = ''weighted_score'' \<and> weighted_score ss < min_score then False
      else if qualified_count ss < min_q then False
      else True)"

definition sort_stocks :: "string \<Rightarrow> StockScore list \<Rightarrow> StockScore list" where
  "sort_stocks sort_by filtered_stocks =
     (if sort_by = ''total_score'' then sort_reverse total_score filtered_stocks
      else if sort_by = ''weighted_score'' then sort_reverse weighted_score filtered_stocks
      else if sort_by = ''qualified_count''
      then sort_reverse (\<lambda>x. (qualified_count x, weighted_score x)) filtered_stocks
      else if sort_by = ''confidence'' then sort_reverse confidence_ss filtered_stocks
      else sort_reverse weighted_score filtered_stocks)"

definition rank_stocks ::
  "ScoringEngine \<Rightarrow> StockScore list \<Rightarrow> string \<Rightarrow> real \<Rightarrow> nat option \<Rightarrow> RankedStock list" where
  "rank_stocks self stock_scores sort_by min_score min_qualified_strategies0 =
     (let min_q = (case min_qualified_strategies0 of
                     None \<Rightarrow> min_qualified_strategies self | Some m \<Rightarrow> m);
          filtered_stocks = filter (keep_stock sort_by min_score min_q) stock_scores;
          sorted_stocks = sort_stocks sort_by filtered_stocks
      in map (\<lambda>(i, ss). \<lparr> rank = i, stock_score = ss \<rparr>)
             (zip [1..<Suc (length sorted_stocks)] sorted_stocks))"

section \<open>The KDJ indicator: \<^verbatim>\<open>DataDownloader._calculate_kdj\<close>\<close>

fun np_min :: "real list \<Rightarrow> real" where
  \<comment> \<open>\<^verbatim>\<open>np.min\<close> of a slice; the loop only takes non-empty slices\<close>
  "np_min [] = 0"
| "np_min (x # xs) = fold min xs x"

fun np_max :: "real list \<Rightarrow> real" where
  "np_max [] = 0"
| "np_max (x # xs) = fold max xs x"

definition window :: "nat \<Rightarrow> nat \<Rightarrow> 'a list \<Rightarrow> 'a list" where
  \<comment> \<open>the slice \<^verbatim>\<open>xs[max(0, i - n + 1):i + 1]\<close>\<close>
  "window n i xs = take (i + 1 - (i + 1 - n)) (drop (i + 1 - n) xs)"

definition rsv_at :: "real list \<Rightarrow> real list \<Rightarrow> real list \<Rightarrow> nat \<Rightarrow> npfloat" where
  "rsv_at close_prices high_prices low_prices i =
     (let low_min = np_min (window 9 i low_prices);
          high_max = np_max (window 9 i high_prices)
      in Fin (close_prices ! i - low_min) / Fin (high_max - low_min) * Fin 100)"

text \<open>
  The loop over \<^verbatim>\<open>range(len(close_prices))\<close>, with the loop variables \<^verbatim>\<open>k_previous\<close>,
  \<^verbatim>\<open>d_previous\<close> and the three lists as its state.
\<close>

function kdj_loop ::
  "real list \<Rightarrow> real list \<Rightarrow> real list \<Rightarrow> nat
    \<Rightarrow> npfloat \<times> npfloat \<times> npfloat list \<times> npfloat list \<times> npfloat list
    \<Rightarrow> npfloat list \<times> npfloat list \<times> npfloat list" where
  "kdj_loop close_prices high_prices low_prices i (k_previous, d_previous, k_list, d_list, j_list) =
     (if i < length close_prices then
        let rsv = rsv_at close_prices high_prices low_prices i;
            k = Fin (2 / 3) * k_previous + Fin (1 / 3) * rsv;
            d = Fin (2 / 3) * d_previous + Fin (1 / 3) * k;
            j = Fin 3 * k - Fin 2 * d
        in kdj_loop close_prices high_prices low_prices (Suc i)
             (k, d, k_list @ [k], d_list @ [d], j_list @ [j])
      else (k_list, d_list, j_list))"
  by pat_completeness auto
termination
  by (relation "measure (\<lambda>(cs, hs, ls, i, st). length cs - i)") auto

declare kdj_loop.simps [simp del]

definition add_columns :: "string list \<Rightarrow> string list \<Rightarrow> string list" where
  \<comment> \<open>assigning a column keeps it in place if present and appends it otherwise\<close>
  "add_columns cols new = cols @ filter (\<lambda>c. c \<notin> set cols) new"

definition calculate_kdj :: "dataframe \<Rightarrow> error + dataframe" where
  "calculate_kdj data0 =
     (case sort_values_trade_date data0 of
        Inl e \<Rightarrow> Inl e
      | Inr data \<Rightarrow>
          (case filter (\<lambda>col. col \<notin> set (columns data)) [''close'', ''high'', ''low''] of
             col # _ \<Rightarrow> Inl (KeyError col)
           | [] \<Rightarrow>
               let close_prices = map close (rows data);
                   high_prices = map high (rows data);
                   low_prices = map low (rows data);
                   (k_list, d_list, j_list) =
                     kdj_loop close_prices high_prices low_prices 0 (Fin 50, Fin 50, [], [], [])
               in Inr \<lparr> columns = add_columns (columns data) [''K'', ''D'', ''J''],
                        rows = map (\<lambda>(b, k, d, j). b\<lparr>K := k, D := d, J := j\<rparr>)
                                 (zip (rows data) (zip k_list (zip d_list j_list))) \<rparr>))"

section \<open>Notions used to state the properties\<close>

text \<open>
  The verdict \<^verbatim>\<open>create_failed_result\<close> builds, written out; what the body of the
  \<^verbatim>\<open>try\<close>/\<^verbatim>\<open>except\<close> of the registry's loops stores under a strategy's name; and whether a
  strategy lets the first loop of the layered evaluation go on.
\<close>

definition failed_verdict :: "strategy \<Rightarrow> string \<Rightarrow> string \<Rightarrow> reason_text \<Rightarrow> StrategyResult" where
  "failed_verdict s code nm rsn =
     \<lparr> stock_code = code, stock_name = nm, strategy_name = name s, is_qualified = False,
       score = 0, confidence = 0, details = NoDetails, reason = rsn, current_price = 0,
       trade_date_str = [] \<rparr>"

definition recorded :: "string \<Rightarrow> string \<Rightarrow> dataframe option \<Rightarrow> strategy \<Rightarrow> StrategyResult" where
  "recorded code nm data s =
     (case analyze s code nm data of
        Inr r \<Rightarrow> r
      | Inl e \<Rightarrow> failed_verdict s code nm [Lit (msg_analysis_error @ str_of_error e)])"

definition gate_ok :: "string \<Rightarrow> string \<Rightarrow> dataframe option \<Rightarrow> strategy \<Rightarrow> bool" where
  "gate_ok code nm data s =
     (case analyze s code nm data of Inr r \<Rightarrow> passes_filter s r | Inl e \<Rightarrow> False)"

definition store_all ::
  "string \<Rightarrow> string \<Rightarrow> dataframe option \<Rightarrow> strategy list \<Rightarrow> results \<Rightarrow> results" where
  "store_all code nm data ss res =
     fold (\<lambda>s. AList.update (get_name s) (recorded code nm data s)) ss res"

text \<open>
  A registry as \<^verbatim>\<open>register_strategy\<close> builds it: every strategy sits under its own name.
\<close>

definition registry_ok :: "registry \<Rightarrow> bool" where
  "registry_ok reg = (distinct (map fst reg) \<and> list_all (\<lambda>(k, s). get_name s = k) reg)"

text \<open>
  What it means that \<open>ys\<close> is \<open>xs\<close> sorted in descending order of a key with ties kept in
  the order of \<open>xs\<close>: the same elements, keys falling, and for every key value the
  elements of that key in the same order as in \<open>xs\<close>.
\<close>

definition stable_descending :: "('a \<Rightarrow> 'k::linorder) \<Rightarrow> 'a list \<Rightarrow> 'a list \<Rightarrow> bool" where
  "stable_descending key xs ys =
     (mset ys = mset xs \<and> sorted (rev (map key ys))
      \<and> (\<forall>k. filter (\<lambda>x. key x = k) ys = filter (\<lambda>x. key x = k) xs))"

text \<open>
  The KDJ formulas in the words of the specification. \<open>rsv_formula\<close> is the raw stochastic
  value of bar \<open>i\<close> over the last 9 bars, the window clamped at index 0; \<open>seeded xs i\<close> is
  the previous value \<open>xs[i-1]\<close> of a smoothed line, the seed 50 for the first bar; and
  \<open>kdj_recurrence\<close> says that three lists obey the smoothing recursion on the first \<open>n\<close>
  bars.
\<close>

definition rsv_formula :: "real list \<Rightarrow> real list \<Rightarrow> real list \<Rightarrow> nat \<Rightarrow> npfloat" where
  "rsv_formula closes highs lows i =
     Fin (closes ! i - Min {lows ! k |k. i + 1 - 9 \<le> k \<and> k \<le> i})
       / Fin (Max {highs ! k |k. i + 1 - 9 \<le> k \<and> k \<le> i}
              - Min {lows ! k |k. i + 1 - 9 \<le> k \<and> k \<le> i})
       * Fin 100"

definition seeded :: "npfloat list \<Rightarrow> nat \<Rightarrow> npfloat" where
  "seeded xs i = (if i = 0 then Fin 50 else xs ! (i - 1))"

definition kdj_recurrence ::
  "real list \<Rightarrow> real list \<Rightarrow> real list \<Rightarrow> nat
    \<Rightarrow> npfloat list \<Rightarrow> npfloat list \<Rightarrow> npfloat list \<Rightarrow> bool" where
  "kdj_recurrence closes highs lows n ks ds js =
     (\<forall>i<n. ks ! i = Fin (2 / 3) * seeded ks i + Fin (1 / 3) * rsv_formula closes highs lows i
           \<and> ds ! i = Fin (2 / 3) * seeded ds i + Fin (1 / 3) * ks ! i
           \<and> js ! i = Fin 3 * ks ! i - Fin 2 * ds ! i)"

text \<open>
  The interpolated score \<^verbatim>\<open>100 - (j_value / self.max_j_value) * 90\<close> as Python evaluates
  it: a quotient, a product and a difference, each rounded to a double.
\<close>

definition j_quotient :: "real \<Rightarrow> real \<Rightarrow> real" where
  "j_quotient j m = round64 (j / m)"

definition j_deduction :: "real \<Rightarrow> real \<Rightarrow> real" where
  "j_deduction j m = round64 (j_quotient j m * 90)"

definition j_interpolated :: "real \<Rightarrow> real \<Rightarrow> real" where
  "j_interpolated j m = round64 (100 - j_deduction j m)"

section \<open>Concrete inputs\<close>

text \<open>
  Two strategies of a further class: a filter whose \<^verbatim>\<open>analyze\<close> raises, and a scoring
  strategy that returns a fixed qualified verdict; the registry that holds both; and a
  five-bar table, not in the order of its dates, whose latest bar (the second row)
  carries the given \<open>J\<close>.
\<close>

definition raising_filter :: strategy where
  "raising_filter =
     \<lparr> name = ''gate'', weight = 1, enabled = True, is_filter_strategy = True,
       threshold_score = 100, kind = OtherStrategy (\<lambda>code nm data. Inl (OtherException ''boom'')) \<rparr>"

definition fixed_scorer :: strategy where
  "fixed_scorer =
     \<lparr> name = ''scorer'', weight = 1, enabled = True, is_filter_strategy = False,
       threshold_score = 100,
       kind = OtherStrategy (\<lambda>code nm data.
                StrategyResult_new code nm ''scorer'' True (Fin 80) (Fin 0.5) NoDetails [] 10 []) \<rparr>"

definition raising_scorer :: strategy where
  "raising_scorer =
     \<lparr> name = ''broken'', weight = 1, enabled = True, is_filter_strategy = False,
       threshold_score = 100, kind = OtherStrategy (\<lambda>code nm data. Inl (OtherException ''boom'')) \<rparr>"

definition example_registry :: registry where
  "example_registry =
     register_strategy (register_strategy (register_strategy [] raising_filter) fixed_scorer)
       raising_scorer"

definition example_bar :: "nat \<Rightarrow> real \<Rightarrow> npfloat \<Rightarrow> bar" where
  "example_bar date c j =
     \<lparr> trade_date = date, high = c + 1, low = c - 1, close = c, vol = 1000,
       K = Fin 50, D = Fin 50, J = j \<rparr>"

definition example_frame :: "npfloat \<Rightarrow> dataframe" where
  "example_frame j =
     \<lparr> columns = [''trade_date'', ''high'', ''low'', ''close'', ''vol'', ''K'', ''D'', ''J''],
       rows = [example_bar 20240103 10 (Fin 30), example_bar 20240108 10 j,
               example_bar 20240102 10 (Fin 40), example_bar 20240105 10 (Fin 10),
               example_bar 20240104 10 (Fin 20)] \<rparr>"

text \<open>
  Composite scores for the ranking: \<open>example_stock code t w c q\<close> has total score \<open>t\<close>,
  weighted score \<open>w\<close>, confidence \<open>c\<close> and \<open>q\<close> qualified strategies.
\<close>

definition example_stock :: "string \<Rightarrow> real \<Rightarrow> real \<Rightarrow> real \<Rightarrow> nat \<Rightarrow> StockScore" where
  "example_stock code t w c q =
     \<lparr> stock_code_ss = code, stock_name_ss = code, total_score = t, weighted_score = w,
       strategy_scores = [], strategy_weights = [], strategy_results = [],
       qualified_strategies = replicate q ''s'', confidence_ss = c, current_price_ss = 0,
       trade_date_ss = [] \<rparr>"

text \<open>
  Raw daily tables, before the indicators are computed: \<open>ohlc_bar date h l c\<close> is the bar
  of that date with the given high, low and close. \<open>example_ohlc\<close> has three ordinary
  bars; the first bar of \<open>flat_ohlc\<close> has high = low = close, as on a day when a stock
  trades at one price only.
\<close>

definition ohlc_bar :: "nat \<Rightarrow> real \<Rightarrow> real \<Rightarrow> real \<Rightarrow> bar" where
  "ohlc_bar date h l c =
     \<lparr> trade_date = date, high = h, low = l, close = c, vol = 1000,
       K = NaN, D = NaN, J = NaN \<rparr>"

definition example_ohlc :: dataframe where
  "example_ohlc =
     \<lparr> columns = [''trade_date'', ''high'', ''low'', ''close'', ''vol''],
       rows = [ohlc_bar 20240102 11 9 10, ohlc_bar 20240103 12 10 11,
               ohlc_bar 20240104 12 10 12] \<rparr>"

definition flat_ohlc :: dataframe where
  "flat_ohlc =
     \<lparr> columns = [''trade_date'', ''high'', ''low'', ''close'', ''vol''],
       rows = [ohlc_bar 20240102 10 10 10, ohlc_bar 20240103 11 10 11] \<rparr>"

text \<open>
  Thirty daily bars for the volume/price strategy with its default parameters, given as
  date, close and volume (high and low are not read by the strategy and equal the
  close). The analysed window is the last 20 bars. Its bars 1 to 3 rise by more than 1%
  each, its bars 4 to 6 fall by more than 1% each on half the volume, and the price does
  not move on any other bar.
\<close>

definition price_volume_bar :: "nat \<times> real \<times> real \<Rightarrow> bar" where
  "price_volume_bar = (\<lambda>(date, c, v).
     \<lparr> trade_date = date, high = c, low = c, close = c, vol = v,
       K = NaN, D = NaN, J = NaN \<rparr>)"

definition early_rise_rows :: "(nat \<times> real \<times> real) list" where
  "early_rise_rows =
       [(20240101, 100, 1000), (20240102, 100, 1000), (20240103, 100, 1000),
        (20240104, 100, 1000), (20240105, 100, 1000), (20240106, 100, 1000),
        (20240107, 100, 1000), (20240108, 100, 1000), (20240109, 100, 1000),
        (20240110, 100, 1000), (20240111, 100, 1000), (20240112, 102, 1000),
        (20240113, 105, 1000), (20240114, 108, 1000), (20240115, 106, 500),
        (20240116, 104, 500), (20240117, 102, 500), (20240118, 102, 1000),
        (20240119, 102, 1000), (20240120, 102, 1000), (20240121, 102, 1000),
        (20240122, 102, 1000), (20240123, 102, 1000), (20240124, 102, 1000),
        (20240125, 102, 1000), (20240126, 102, 1000), (20240127, 102, 1000),
        (20240128, 102, 1000), (20240129, 102, 1000), (20240130, 102, 1000)]"

definition early_rise_frame :: dataframe where
  "early_rise_frame =
     \<lparr> columns = [''trade_date'', ''high'', ''low'', ''close'', ''vol''],
       rows = map price_volume_bar early_rise_rows \<rparr>"

section \<open>Verified properties\<close>

subsection \<open>Comparisons of floats with finite bounds\<close>

lemma np_le_Fin_left: "(Fin a \<le> x) = (x = PInf \<or> (\<exists>b. x = Fin b \<and> a \<le> b))"
  by (cases x) (simp_all add: less_eq_npfloat_def)

lemma np_le_Fin_right: "(x \<le> Fin a) = (x = NInf \<or> (\<exists>b. x = Fin b \<and> b \<le> a))"
  by (cases x) (simp_all add: less_eq_npfloat_def)

lemma np_between: "(Fin a \<le> x \<and> x \<le> Fin b) = (\<exists>r. x = Fin r \<and> a \<le> r \<and> r \<le> b)"
  by (cases x) (simp_all add: less_eq_npfloat_def)

subsection \<open>Verdicts are range-checked at construction\<close>

text \<open>
  Claim C8. Every \<^verbatim>\<open>StrategyResult\<close> that the constructor returns has its score in
  \<open>[0, 100]\<close> and its confidence in \<open>[0, 1]\<close>, and they are the values the constructor was
  given, unchanged. A score outside \<open>[0, 100]\<close> (NaN and the infinities included) makes
  the constructor raise \<^verbatim>\<open>ValueError\<close>; so does a confidence outside \<open>[0, 1]\<close>; values
  within both ranges give an object.
\<close>

theorem StrategyResult_bounds_checked:
  "(\<forall>v. StrategyResult_new code nm sname q sc cf det rsn price date = Inr v \<longrightarrow>
        0 \<le> score v \<and> score v \<le> 100 \<and> 0 \<le> confidence v \<and> confidence v \<le> 1
        \<and> sc = Fin (score v) \<and> cf = Fin (confidence v))
   \<and> (\<not> (Fin 0 \<le> sc \<and> sc \<le> Fin 100) \<longrightarrow>
        StrategyResult_new code nm sname q sc cf det rsn price date
          = Inl (ValueError msg_score_range))
   \<and> ((Fin 0 \<le> sc \<and> sc \<le> Fin 100) \<and> \<not> (Fin 0 \<le> cf \<and> cf \<le> Fin 1) \<longrightarrow>
        StrategyResult_new code nm sname q sc cf det rsn price date
          = Inl (ValueError msg_confidence_range))
   \<and> ((Fin 0 \<le> sc \<and> sc \<le> Fin 100) \<and> (Fin 0 \<le> cf \<and> cf \<le> Fin 1) \<longrightarrow>
        (\<exists>v. StrategyResult_new code nm sname q sc cf det rsn price date = Inr v))"
  unfolding StrategyResult_new_def np_between
  by (auto split: if_splits)

theorem StrategyResult_bounds_checked_witness:
  "StrategyResult_new ''000001'' ''A'' ''s'' True (Fin 100.5) (Fin 0.5) NoDetails [] 1 ''20240102''
     = Inl (ValueError msg_score_range)
   \<and> StrategyResult_new ''000001'' ''A'' ''s'' True NaN (Fin 0.5) NoDetails [] 1 ''20240102''
     = Inl (ValueError msg_score_range)
   \<and> StrategyResult_new ''000001'' ''A'' ''s'' True (Fin 55) (Fin (-0.1)) NoDetails [] 1 ''20240102''
     = Inl (ValueError msg_confidence_range)
   \<and> (\<exists>v. StrategyResult_new ''000001'' ''A'' ''s'' True (Fin 55) (Fin 0.9) NoDetails [] 1 ''20240102''
          = Inr v \<and> score v = 55 \<and> confidence v = 0.9)"
  using StrategyResult_bounds_checked [of "''000001''" "''A''" "''s''" True "Fin 100.5" "Fin 0.5" NoDetails "[]" 1 "''20240102''"]
        StrategyResult_bounds_checked [of "''000001''" "''A''" "''s''" True NaN "Fin 0.5" NoDetails "[]" 1 "''20240102''"]
        StrategyResult_bounds_checked [of "''000001''" "''A''" "''s''" True "Fin 55" "Fin (-0.1)" NoDetails "[]" 1 "''20240102''"]
        StrategyResult_bounds_checked [of "''000001''" "''A''" "''s''" True "Fin 55" "Fin 0.9" NoDetails "[]" 1 "''20240102''"]
  by (auto simp: less_eq_npfloat_def)

subsection \<open>The loops of the registry in closed form\<close>

lemma create_failed_result_eq:
  "create_failed_result s code nm rsn = Inr (failed_verdict s code nm rsn)"
  by (simp add: create_failed_result_def StrategyResult_new_def failed_verdict_def
      less_eq_npfloat_def)

lemma error_result_eq:
  "error_result s code nm e
     = Inr (failed_verdict s code nm [Lit (msg_analysis_error @ str_of_error e)])"
  by (simp add: error_result_def create_failed_result_eq)

lemma run_strategies_eq:
  "run_strategies code nm data ss (res, calls)
     = Inr (store_all code nm data ss res, calls @ ss)"
proof (induction ss arbitrary: res calls)
  case Nil
  then show ?case by (simp add: store_all_def)
next
  case (Cons s ss)
  show ?case
  proof (cases "analyze s code nm data")
    case (Inl e)
    then show ?thesis
      using Cons.IH by (simp add: error_result_eq recorded_def store_all_def)
  next
    case (Inr r)
    then show ?thesis
      using Cons.IH by (simp add: recorded_def store_all_def)
  qed
qed

lemma run_filters_pass:
  "list_all (gate_ok code nm data) fs \<Longrightarrow>
   run_filters code nm data fs (res, calls)
     = Inr (True, (store_all code nm data fs res, calls @ fs))"
proof (induction fs arbitrary: res calls)
  case Nil
  then show ?case by (simp add: store_all_def)
next
  case (Cons s fs)
  from Cons.prems obtain r where r: "analyze s code nm data = Inr r" "passes_filter s r"
    by (auto simp: gate_ok_def split: sum.splits)
  from Cons.prems have "list_all (gate_ok code nm data) fs" by simp
  from Cons.IH [OF this] r show ?case
    by (simp add: recorded_def store_all_def)
qed

lemma run_filters_stop:
  "list_all (gate_ok code nm data) pre \<Longrightarrow> \<not> gate_ok code nm data s \<Longrightarrow>
   run_filters code nm data (pre @ s # rest) (res, calls)
     = Inr (False, (store_all code nm data (pre @ [s]) res, calls @ pre @ [s]))"
proof (induction pre arbitrary: res calls)
  case Nil
  then show ?case
    by (cases "analyze s code nm data")
       (simp_all add: gate_ok_def error_result_eq recorded_def store_all_def)
next
  case (Cons t pre)
  from Cons.prems obtain r where r: "analyze t code nm data = Inr r" "passes_filter t r"
    by (auto simp: gate_ok_def split: sum.splits)
  from Cons.prems have "list_all (gate_ok code nm data) pre" by simp
  from Cons.IH [OF this Cons.prems(2)] r show ?case
    by (simp add: recorded_def store_all_def)
qed

lemma first_failure:
  "\<not> list_all P fs \<Longrightarrow> \<exists>pre s rest. fs = pre @ s # rest \<and> list_all P pre \<and> \<not> P s"
proof -
  assume "\<not> list_all P fs"
  then have "\<exists>x\<in>set fs. \<not> P x" by (simp add: list_all_iff)
  from split_list_first_prop [OF this] obtain pre s rest
    where "fs = pre @ s # rest" "\<not> P s" "\<forall>y\<in>set pre. \<not> \<not> P y" by blast
  then show ?thesis by (auto simp: list_all_iff)
qed

lemma layered_pass:
  "list_all (gate_ok code nm data) (selected_filter_strategies reg names) \<Longrightarrow>
   analyze_stock_with_filtering reg code nm data names
     = Inr (store_all code nm data
              (selected_filter_strategies reg names @ selected_scoring_strategies reg names) [],
            selected_filter_strategies reg names @ selected_scoring_strategies reg names)"
  by (simp add: analyze_stock_with_filtering_def run_filters_pass run_strategies_eq store_all_def)

lemma layered_stop:
  "selected_filter_strategies reg names = pre @ s # rest \<Longrightarrow>
   list_all (gate_ok code nm data) pre \<Longrightarrow> \<not> gate_ok code nm data s \<Longrightarrow>
   analyze_stock_with_filtering reg code nm data names
     = Inr (store_all code nm data (pre @ [s]) [], pre @ [s])"
  by (simp add: analyze_stock_with_filtering_def run_filters_stop)

lemma map_of_store_all:
  "map_of (store_all code nm data ss res)
     = fold (\<lambda>s m. m(get_name s \<mapsto> recorded code nm data s)) ss (map_of res)"
  unfolding store_all_def
  by (induction ss arbitrary: res) (simp_all add: update_conv')

lemma keys_store_all:
  "fst ` set (store_all code nm data ss res) = fst ` set res \<union> get_name ` set ss"
  unfolding store_all_def
  by (induction ss arbitrary: res) (auto simp: dom_update)

lemma fold_upd_cases:
  "fold (\<lambda>s m. m(get_name s \<mapsto> recorded code nm data s)) ss m n = Some r \<Longrightarrow>
   m n = Some r \<or> (\<exists>s\<in>set ss. get_name s = n \<and> r = recorded code nm data s)"
  by (induction ss arbitrary: m) (fastforce split: if_splits)+

lemma fold_upd_last:
  "fold (\<lambda>s m. m(get_name s \<mapsto> recorded code nm data s)) (ss @ [s]) m (get_name s)
     = Some (recorded code nm data s)"
  by simp

lemma fold_upd_same:
  "s \<in> set ss \<Longrightarrow> \<forall>t\<in>set ss. get_name t = get_name s \<longrightarrow> t = s \<Longrightarrow>
   fold (\<lambda>s m. m(get_name s \<mapsto> recorded code nm data s)) ss m (get_name s)
     = Some (recorded code nm data s)"
proof (induction ss arbitrary: m rule: rev_induct)
  case Nil
  then show ?case by simp
next
  case (snoc t ss)
  show ?case
  proof (cases "get_name t = get_name s")
    case True
    with snoc.prems have "t = s" by simp
    then show ?thesis by simp
  next
    case False
    with snoc.prems have "s \<in> set ss" by auto
    from snoc.IH [OF this] snoc.prems(2) False show ?thesis by simp
  qed
qed

subsection \<open>Registries built by registration; the selected strategies\<close>

lemma registry_ok_empty: "registry_ok []"
  by (simp add: registry_ok_def)

lemma set_alist_update: "set (AList.update k v al) \<subseteq> insert (k, v) (set al)"
  by (induction al) auto

lemma registry_ok_register: "registry_ok reg \<Longrightarrow> registry_ok (register_strategy reg s)"
  unfolding registry_ok_def register_strategy_def list_all_iff
  using set_alist_update [of "get_name s" s reg]
  by (auto simp: distinct_update)

lemma registry_ok_lookup:
  "registry_ok reg \<Longrightarrow> (k, s) \<in> set reg \<Longrightarrow> get_name s = k"
  by (auto simp: registry_ok_def list_all_iff)

lemma registry_ok_same:
  assumes "registry_ok reg" "s \<in> snd ` set reg" "t \<in> snd ` set reg" "get_name t = get_name s"
  shows "t = s"
proof -
  from assms obtain k k' where "(k, s) \<in> set reg" "(k', t) \<in> set reg" by force
  moreover from this assms have "k = get_name s" "k' = get_name s"
    by (auto dest: registry_ok_lookup)
  moreover from assms have "distinct (map fst reg)" by (simp add: registry_ok_def)
  ultimately show ?thesis by (metis eq_key_imp_eq_value)
qed

lemma named_strategies_subset: "set (named_strategies reg names) \<subseteq> snd ` set reg"
  by (force simp: named_strategies_def get_strategy_def map_filter_def dest: map_of_SomeD)

lemma selected_subset:
  "set (get_enabled_strategies reg) \<subseteq> snd ` set reg"
  "set (selected_filter_strategies reg names) \<subseteq> snd ` set reg"
  "set (selected_scoring_strategies reg names) \<subseteq> snd ` set reg"
  using named_strategies_subset
  by (auto simp: get_enabled_strategies_def selected_filter_strategies_def
      selected_scoring_strategies_def get_filter_strategies_def get_scoring_strategies_def
      split: option.splits)

lemma selected_filter_is_filter:
  "s \<in> set (selected_filter_strategies reg names) \<Longrightarrow> is_filter s"
  by (auto simp: selected_filter_strategies_def get_filter_strategies_def split: option.splits)

lemma selected_scoring_not_filter:
  "s \<in> set (selected_scoring_strategies reg names) \<Longrightarrow> \<not> is_filter s"
  by (auto simp: selected_scoring_strategies_def get_scoring_strategies_def split: option.splits)

lemma gate_ok_iff:
  "gate_ok code nm data s = (\<exists>r. analyze s code nm data = Inr r \<and> passes_filter s r)"
  by (auto simp: gate_ok_def split: sum.splits)

lemma recorded_cases:
  "(\<exists>r. analyze s code nm data = Inr r \<and> recorded code nm data s = r)
   \<or> (\<exists>e. analyze s code nm data = Inl e
          \<and> recorded code nm data s
              = failed_verdict s code nm [Lit (msg_analysis_error @ str_of_error e)])"
  by (cases "analyze s code nm data") (simp_all add: recorded_def)

subsection \<open>The concrete registry\<close>

lemma example_registry_eq:
  "example_registry = [(''gate'', raising_filter), (''scorer'', fixed_scorer), (''broken'', raising_scorer)]"
  by (simp add: example_registry_def register_strategy_def get_name_def raising_filter_def
      fixed_scorer_def raising_scorer_def)

lemma example_filters:
  "selected_filter_strategies example_registry None = [raising_filter]"
  by (simp add: example_registry_eq selected_filter_strategies_def get_filter_strategies_def
      is_enabled_def is_filter_def raising_filter_def fixed_scorer_def raising_scorer_def)

lemma raising_filter_raises:
  "analyze raising_filter code nm data = Inl (OtherException ''boom'')"
  by (simp add: analyze_def raising_filter_def)

lemma raising_filter_name: "get_name raising_filter = ''gate''"
  by (simp add: get_name_def raising_filter_def)

lemma example_enabled:
  "get_enabled_strategies example_registry = [raising_filter, fixed_scorer, raising_scorer]"
  by (simp add: example_registry_eq get_enabled_strategies_def is_enabled_def
      raising_filter_def fixed_scorer_def raising_scorer_def)

lemma raising_scorer_raises:
  "analyze raising_scorer code nm data = Inl (OtherException ''boom'')"
  by (simp add: analyze_def raising_scorer_def)

lemma raising_scorer_name: "get_name raising_scorer = ''broken''"
  by (simp add: get_name_def raising_scorer_def)

lemma raising_filter_is_filter: "is_filter raising_filter"
  by (simp add: is_filter_def raising_filter_def)

subsection \<open>Layered evaluation stops at the first filter that fails\<close>

text \<open>
  Claim C1. In \<^verbatim>\<open>analyze_stock_with_filtering\<close>, for every registry, security and
  selection of strategies: if some filter strategy fails its gate (its \<^verbatim>\<open>analyze\<close> raises,
  or returns a verdict that \<^verbatim>\<open>passes_filter\<close> rejects), then the evaluation returns, and it
  stopped at the first such filter \<open>s\<close>: the strategies whose \<^verbatim>\<open>analyze\<close> was called are
  exactly the filters before \<open>s\<close> (which all passed) and \<open>s\<close> itself, in that order; none
  of them is a scoring strategy; the keys of the returned dictionary are the names of the
  strategies called, and every entry is what the strategy of that name produced (its
  verdict, or the failed verdict made from its exception).
\<close>

theorem layered_short_circuit:
  assumes "\<exists>s\<in>set (selected_filter_strategies reg names).
             \<forall>r. analyze s code nm data = Inr r \<longrightarrow> \<not> passes_filter s r"
  shows "\<exists>pre s rest res.
           selected_filter_strategies reg names = pre @ s # rest
         \<and> (\<forall>t\<in>set pre. \<exists>r. analyze t code nm data = Inr r \<and> passes_filter t r)
         \<and> (\<forall>r. analyze s code nm data = Inr r \<longrightarrow> \<not> passes_filter s r)
         \<and> analyze_stock_with_filtering reg code nm data names = Inr (res, pre @ [s])
         \<and> (\<forall>t\<in>set (pre @ [s]).
               is_filter t \<and> t \<notin> set (selected_scoring_strategies reg names))
         \<and> fst ` set res = get_name ` set (pre @ [s])
         \<and> (\<forall>n v. map_of res n = Some v \<longrightarrow>
               (\<exists>t\<in>set (pre @ [s]). get_name t = n \<and>
                  (analyze t code nm data = Inr v
                   \<or> (\<exists>e. analyze t code nm data = Inl e \<and>
                        v = failed_verdict t code nm
                              [Lit (msg_analysis_error @ str_of_error e)]))))"
proof -
  let ?fs = "selected_filter_strategies reg names"
  from assms have "\<not> list_all (gate_ok code nm data) ?fs"
    by (auto simp: list_all_iff gate_ok_iff)
  from first_failure [OF this] obtain pre s rest
    where split: "?fs = pre @ s # rest"
      and pre: "list_all (gate_ok code nm data) pre"
      and s: "\<not> gate_ok code nm data s" by blast
  let ?res = "store_all code nm data (pre @ [s]) []"
  have run: "analyze_stock_with_filtering reg code nm data names = Inr (?res, pre @ [s])"
    by (rule layered_stop [OF split pre s])
  have sub: "set (pre @ [s]) \<subseteq> set ?fs" using split by auto
  have filt: "\<forall>t\<in>set (pre @ [s]). is_filter t \<and> t \<notin> set (selected_scoring_strategies reg names)"
    using sub selected_filter_is_filter selected_scoring_not_filter by blast
  have keys: "fst ` set ?res = get_name ` set (pre @ [s])"
    by (simp add: keys_store_all)
  have entries: "\<forall>n v. map_of ?res n = Some v \<longrightarrow>
               (\<exists>t\<in>set (pre @ [s]). get_name t = n \<and>
                  (analyze t code nm data = Inr v
                   \<or> (\<exists>e. analyze t code nm data = Inl e \<and>
                        v = failed_verdict t code nm
                              [Lit (msg_analysis_error @ str_of_error e)])))"
  proof (intro allI impI)
    fix n v assume "map_of ?res n = Some v"
    then have "fold (\<lambda>s m. m(get_name s \<mapsto> recorded code nm data s)) (pre @ [s]) (map_of []) n = Some v"
      by (simp only: map_of_store_all)
    from fold_upd_cases [OF this] obtain t
      where t: "t \<in> set (pre @ [s])" "get_name t = n" "v = recorded code nm data t" by auto
    with recorded_cases [of t code nm data] show
      "\<exists>t\<in>set (pre @ [s]). get_name t = n \<and>
                  (analyze t code nm data = Inr v
                   \<or> (\<exists>e. analyze t code nm data = Inl e \<and>
                        v = failed_verdict t code nm
                              [Lit (msg_analysis_error @ str_of_error e)]))"
      by metis
  qed
  from pre have pre': "\<forall>t\<in>set pre. \<exists>r. analyze t code nm data = Inr r \<and> passes_filter t r"
    by (simp add: list_all_iff gate_ok_iff)
  from s have s': "\<forall>r. analyze s code nm data = Inr r \<longrightarrow> \<not> passes_filter s r"
    by (simp add: gate_ok_iff)
  from split pre' s' run filt keys entries show ?thesis by blast
qed

theorem layered_short_circuit_witness:
  "(\<exists>s\<in>set (selected_filter_strategies example_registry None).
       \<forall>r. analyze s ''000001'' ''A'' None = Inr r \<longrightarrow> \<not> passes_filter s r)
   \<and> (\<exists>res. analyze_stock_with_filtering example_registry ''000001'' ''A'' None None
               = Inr (res, [raising_filter])
            \<and> fst ` set res = {''gate''})"
proof -
  have h: "\<exists>s\<in>set (selected_filter_strategies example_registry None).
       \<forall>r. analyze s ''000001'' ''A'' None = Inr r \<longrightarrow> \<not> passes_filter s r"
    by (simp add: example_filters raising_filter_raises)
  from layered_short_circuit [OF h] have
    "\<exists>res. analyze_stock_with_filtering example_registry ''000001'' ''A'' None None
               = Inr (res, [raising_filter])
            \<and> fst ` set res = {''gate''}"
  proof (elim exE conjE)
    fix pre s rest res
    assume sp: "selected_filter_strategies example_registry None = pre @ s # rest"
    assume run: "analyze_stock_with_filtering example_registry ''000001'' ''A'' None None
               = Inr (res, pre @ [s])"
    assume keys: "fst ` set res = get_name ` set (pre @ [s])"
    from sp have "[raising_filter] = pre @ s # rest" by (simp only: example_filters)
    then have ps: "pre = []" "s = raising_filter"
      by (simp_all only: Cons_eq_append_conv) auto
    from run ps have r1: "analyze_stock_with_filtering example_registry ''000001'' ''A'' None None
                 = Inr (res, [raising_filter])" by simp
    from keys ps have r2: "fst ` set res = {''gate''}" by (simp add: raising_filter_name)
    from r1 r2 show ?thesis by blast
  qed
  with h show ?thesis by (rule conjI)
qed

subsection \<open>Exceptions of strategies stay inside the registry\<close>

lemma failed_verdict_fields:
  "\<not> is_qualified (failed_verdict s code nm rsn)"
  "score (failed_verdict s code nm rsn) = 0"
  "confidence (failed_verdict s code nm rsn) = 0"
  "reason (failed_verdict s code nm rsn) = rsn"
  "strategy_name (failed_verdict s code nm rsn) = name s"
  by (simp_all add: failed_verdict_def)

lemma recorded_raise:
  "analyze s code nm data = Inl e \<Longrightarrow>
   recorded code nm data s = failed_verdict s code nm [Lit (msg_analysis_error @ str_of_error e)]"
  by (simp add: recorded_def)

lemma stored_entry:
  assumes ok: "registry_ok reg" and sub: "set ss \<subseteq> snd ` set reg" and s: "s \<in> set ss"
  shows "map_of (store_all code nm data ss []) (get_name s) = Some (recorded code nm data s)"
proof -
  have "\<forall>t\<in>set ss. get_name t = get_name s \<longrightarrow> t = s"
  proof (intro ballI impI)
    fix t assume t: "t \<in> set ss" and eq: "get_name t = get_name s"
    from sub s have s': "s \<in> snd ` set reg" by (rule subsetD)
    from sub t have t': "t \<in> snd ` set reg" by (rule subsetD)
    show "t = s" by (rule registry_ok_same [OF ok s' t' eq])
  qed
  from fold_upd_same [OF s this] show ?thesis by (simp only: map_of_store_all)
qed

lemma flat_eq:
  "analyze_stock reg code nm data names
     = Inr (store_all code nm data
              (case names of None \<Rightarrow> get_enabled_strategies reg
                           | Some ns \<Rightarrow> named_strategies reg ns) [],
            (case names of None \<Rightarrow> get_enabled_strategies reg
                         | Some ns \<Rightarrow> named_strategies reg ns))"
  by (simp add: analyze_stock_def run_strategies_eq Let_def)

lemma flat_subset:
  "set (case names of None \<Rightarrow> get_enabled_strategies reg | Some ns \<Rightarrow> named_strategies reg ns)
     \<subseteq> snd ` set reg"
  using selected_subset(1) [of reg] named_strategies_subset [of reg]
  by (cases names) auto

lemma layered_cases:
  "(analyze_stock_with_filtering reg code nm data names
            = Inr (store_all code nm data
                     (selected_filter_strategies reg names @ selected_scoring_strategies reg names) [],
                   selected_filter_strategies reg names @ selected_scoring_strategies reg names)
          \<and> list_all (gate_ok code nm data) (selected_filter_strategies reg names))
   \<or> (\<exists>pre s rest. selected_filter_strategies reg names = pre @ s # rest
          \<and> list_all (gate_ok code nm data) pre \<and> \<not> gate_ok code nm data s
          \<and> analyze_stock_with_filtering reg code nm data names
               = Inr (store_all code nm data (pre @ [s]) [], pre @ [s]))"
proof (cases "list_all (gate_ok code nm data) (selected_filter_strategies reg names)")
  case True
  show ?thesis
    by (rule disjI1, rule conjI, rule layered_pass [OF True], rule True)
next
  case False
  from first_failure [OF False] obtain pre s rest
    where sp: "selected_filter_strategies reg names = pre @ s # rest"
      and pre: "list_all (gate_ok code nm data) pre" and s: "\<not> gate_ok code nm data s"
    by (elim exE conjE)
  show ?thesis
    by (rule disjI2, (rule exI)+, intro conjI, rule sp, rule pre, rule s,
        rule layered_stop [OF sp pre s])
qed

text \<open>
  Claim C9. For a registry as registration builds it, both evaluation modes return a
  result (no exception leaves them), whatever the strategies do. For every strategy
  whose \<^verbatim>\<open>analyze\<close> was called and raised \<open>e\<close>, the dictionary holds under its name the
  failed verdict: not qualified, score 0, confidence 0, and as reason the text
  "analysis error: " followed by \<^verbatim>\<open>str(e)\<close>. In the layered mode, when that strategy is a
  filter, the failed verdict does not pass its gate, the strategy is the last one called
  and every strategy called is a filter: the evaluation stopped there, as it does for a
  filter that returns a disqualifying verdict.
\<close>

theorem strategy_errors_contained:
  assumes ok: "registry_ok reg"
  shows
   "(\<exists>res calls. analyze_stock reg code nm data names = Inr (res, calls)
        \<and> (\<forall>s\<in>set calls. \<forall>e. analyze s code nm data = Inl e \<longrightarrow>
              (\<exists>v. map_of res (get_name s) = Some v
                   \<and> v = failed_verdict s code nm [Lit (msg_analysis_error @ str_of_error e)]
                   \<and> \<not> is_qualified v \<and> score v = 0 \<and> confidence v = 0
                   \<and> reason v = [Lit (msg_analysis_error @ str_of_error e)])))
    \<and> (\<exists>res calls. analyze_stock_with_filtering reg code nm data names = Inr (res, calls)
        \<and> (\<forall>s\<in>set calls. \<forall>e. analyze s code nm data = Inl e \<longrightarrow>
              (\<exists>v. map_of res (get_name s) = Some v
                   \<and> v = failed_verdict s code nm [Lit (msg_analysis_error @ str_of_error e)]
                   \<and> \<not> is_qualified v \<and> score v = 0 \<and> confidence v = 0
                   \<and> reason v = [Lit (msg_analysis_error @ str_of_error e)]
                   \<and> (is_filter s \<longrightarrow>
                         \<not> passes_filter s v \<and> last calls = s
                         \<and> (\<forall>t\<in>set calls. is_filter t)))))"
proof (rule conjI)
  let ?ss = "case names of None \<Rightarrow> get_enabled_strategies reg
                         | Some ns \<Rightarrow> named_strategies reg ns"
  show "\<exists>res calls. analyze_stock reg code nm data names = Inr (res, calls)
        \<and> (\<forall>s\<in>set calls. \<forall>e. analyze s code nm data = Inl e \<longrightarrow>
              (\<exists>v. map_of res (get_name s) = Some v
                   \<and> v = failed_verdict s code nm [Lit (msg_analysis_error @ str_of_error e)]
                   \<and> \<not> is_qualified v \<and> score v = 0 \<and> confidence v = 0
                   \<and> reason v = [Lit (msg_analysis_error @ str_of_error e)]))"
  proof (intro exI conjI ballI allI impI)
    show "analyze_stock reg code nm data names = Inr (store_all code nm data ?ss [], ?ss)"
      by (rule flat_eq)
  next
    fix s e assume s: "s \<in> set ?ss" and e: "analyze s code nm data = Inl e"
    from stored_entry [OF ok flat_subset s] recorded_raise [OF e]
    show "map_of (store_all code nm data ?ss []) (get_name s)
            = Some (failed_verdict s code nm [Lit (msg_analysis_error @ str_of_error e)])"
      by simp
  qed (simp_all add: failed_verdict_fields)
next
  let ?fs = "selected_filter_strategies reg names"
  let ?sc = "selected_scoring_strategies reg names"
  let ?P = "\<lambda>res calls. analyze_stock_with_filtering reg code nm data names = Inr (res, calls)
        \<and> (\<forall>s\<in>set calls. \<forall>e. analyze s code nm data = Inl e \<longrightarrow>
              (\<exists>v. map_of res (get_name s) = Some v
                   \<and> v = failed_verdict s code nm [Lit (msg_analysis_error @ str_of_error e)]
                   \<and> \<not> is_qualified v \<and> score v = 0 \<and> confidence v = 0
                   \<and> reason v = [Lit (msg_analysis_error @ str_of_error e)]
                   \<and> (is_filter s \<longrightarrow>
                         \<not> passes_filter s v \<and> last calls = s
                         \<and> (\<forall>t\<in>set calls. is_filter t))))"
  have fsub: "set ?fs \<subseteq> snd ` set reg" and ssub: "set ?sc \<subseteq> snd ` set reg"
    by (rule selected_subset)+
  show "\<exists>res calls. ?P res calls"
  proof (rule disjE [OF layered_cases [of reg code nm data names]])
    assume a: "analyze_stock_with_filtering reg code nm data names
                   = Inr (store_all code nm data (?fs @ ?sc) [], ?fs @ ?sc)
               \<and> list_all (gate_ok code nm data) ?fs"
    from a have run: "analyze_stock_with_filtering reg code nm data names
                   = Inr (store_all code nm data (?fs @ ?sc) [], ?fs @ ?sc)" by (rule conjunct1)
    from a have pass: "list_all (gate_ok code nm data) ?fs" by (rule conjunct2)
    have sub: "set (?fs @ ?sc) \<subseteq> snd ` set reg" using fsub ssub by simp
    have p: "?P (store_all code nm data (?fs @ ?sc) []) (?fs @ ?sc)"
    proof (intro conjI ballI allI impI)
      show "analyze_stock_with_filtering reg code nm data names
                   = Inr (store_all code nm data (?fs @ ?sc) [], ?fs @ ?sc)" by (rule run)
    next
      fix s e assume s: "s \<in> set (?fs @ ?sc)" and e: "analyze s code nm data = Inl e"
      from stored_entry [OF ok sub s] recorded_raise [OF e]
      have m: "map_of (store_all code nm data (?fs @ ?sc) []) (get_name s)
            = Some (failed_verdict s code nm [Lit (msg_analysis_error @ str_of_error e)])"
        by simp
      have nf: "\<not> is_filter s"
      proof
        assume f: "is_filter s"
        with s selected_scoring_not_filter have "s \<in> set ?fs" by auto
        with pass have "gate_ok code nm data s" by (simp add: list_all_iff)
        with e show False by (simp add: gate_ok_def)
      qed
      from m nf show "\<exists>v. map_of (store_all code nm data (?fs @ ?sc) []) (get_name s) = Some v
                   \<and> v = failed_verdict s code nm [Lit (msg_analysis_error @ str_of_error e)]
                   \<and> \<not> is_qualified v \<and> score v = 0 \<and> confidence v = 0
                   \<and> reason v = [Lit (msg_analysis_error @ str_of_error e)]
                   \<and> (is_filter s \<longrightarrow>
                         \<not> passes_filter s v \<and> last (?fs @ ?sc) = s
                         \<and> (\<forall>t\<in>set (?fs @ ?sc). is_filter t))"
        by (simp add: failed_verdict_fields)
    qed
    show "\<exists>res calls. ?P res calls" by (rule exI, rule exI) (rule p)
  next
    assume "\<exists>pre s rest. ?fs = pre @ s # rest
          \<and> list_all (gate_ok code nm data) pre \<and> \<not> gate_ok code nm data s
          \<and> analyze_stock_with_filtering reg code nm data names
               = Inr (store_all code nm data (pre @ [s]) [], pre @ [s])"
    then obtain pre s0 rest where sp: "?fs = pre @ s0 # rest"
       and pre: "list_all (gate_ok code nm data) pre"
       and run: "analyze_stock_with_filtering reg code nm data names
                   = Inr (store_all code nm data (pre @ [s0]) [], pre @ [s0])"
      by (elim exE conjE)
    have sub: "set (pre @ [s0]) \<subseteq> snd ` set reg" using fsub sp by auto
    have allf: "\<forall>t\<in>set (pre @ [s0]). is_filter t"
      using sp selected_filter_is_filter [of _ reg names] by auto
    have p: "?P (store_all code nm data (pre @ [s0]) []) (pre @ [s0])"
    proof (intro conjI ballI allI impI)
      show "analyze_stock_with_filtering reg code nm data names
                   = Inr (store_all code nm data (pre @ [s0]) [], pre @ [s0])" by (rule run)
    next
      fix s e assume s: "s \<in> set (pre @ [s0])" and e: "analyze s code nm data = Inl e"
      from stored_entry [OF ok sub s] recorded_raise [OF e]
      have m: "map_of (store_all code nm data (pre @ [s0]) []) (get_name s)
            = Some (failed_verdict s code nm [Lit (msg_analysis_error @ str_of_error e)])"
        by simp
      have "s \<notin> set pre"
      proof
        assume "s \<in> set pre"
        with pre have "gate_ok code nm data s" by (simp add: list_all_iff)
        with e show False by (simp add: gate_ok_def)
      qed
      with s have last: "last (pre @ [s0]) = s" by simp
      from m last allf
      show "\<exists>v. map_of (store_all code nm data (pre @ [s0]) []) (get_name s) = Some v
                   \<and> v = failed_verdict s code nm [Lit (msg_analysis_error @ str_of_error e)]
                   \<and> \<not> is_qualified v \<and> score v = 0 \<and> confidence v = 0
                   \<and> reason v = [Lit (msg_analysis_error @ str_of_error e)]
                   \<and> (is_filter s \<longrightarrow>
                         \<not> passes_filter s v \<and> last (pre @ [s0]) = s
                         \<and> (\<forall>t\<in>set (pre @ [s0]). is_filter t))"
        by (simp add: failed_verdict_fields passes_filter_def is_filter_def)
    qed
    show "\<exists>res calls. ?P res calls" by (rule exI, rule exI) (rule p)
  qed
qed

theorem strategy_errors_contained_witness:
  "registry_ok example_registry
   \<and> analyze raising_scorer ''000001'' ''A'' None = Inl (OtherException ''boom'')
   \<and> analyze raising_filter ''000001'' ''A'' None = Inl (OtherException ''boom'')
   \<and> (\<exists>res. analyze_stock example_registry ''000001'' ''A'' None None
                = Inr (res, [raising_filter, fixed_scorer, raising_scorer])
             \<and> map_of res ''broken''
                 = Some (failed_verdict raising_scorer ''000001'' ''A''
                           [Lit (msg_analysis_error @ ''boom'')]))
   \<and> (\<exists>res. analyze_stock_with_filtering example_registry ''000001'' ''A'' None None
                = Inr (res, [raising_filter])
             \<and> map_of res ''gate''
                 = Some (failed_verdict raising_filter ''000001'' ''A''
                           [Lit (msg_analysis_error @ ''boom'')]))"
proof -
  have h: "registry_ok example_registry"
    by (simp add: example_registry_def registry_ok_register registry_ok_empty)
  note inst = strategy_errors_contained [OF h, of "''000001''" "''A''" None None]
  from inst obtain res calls
    where run: "analyze_stock example_registry ''000001'' ''A'' None None = Inr (res, calls)"
      and pr1: "\<forall>s\<in>set calls. \<forall>e. analyze s ''000001'' ''A'' None = Inl e \<longrightarrow>
              (\<exists>v. map_of res (get_name s) = Some v
                   \<and> v = failed_verdict s ''000001'' ''A'' [Lit (msg_analysis_error @ str_of_error e)]
                   \<and> \<not> is_qualified v \<and> score v = 0 \<and> confidence v = 0
                   \<and> reason v = [Lit (msg_analysis_error @ str_of_error e)])"
    by (elim conjE exE)
  from run have calls: "calls = [raising_filter, fixed_scorer, raising_scorer]"
    by (simp add: flat_eq example_enabled)
  then have mem1: "raising_scorer \<in> set calls" by simp
  from mp [OF spec [OF bspec [OF pr1 mem1]] raising_scorer_raises]
  have e1: "map_of res ''broken''
                 = Some (failed_verdict raising_scorer ''000001'' ''A''
                           [Lit (msg_analysis_error @ ''boom'')])"
    by (auto simp: raising_scorer_name)
  from inst obtain res2 calls2
    where run2: "analyze_stock_with_filtering example_registry ''000001'' ''A'' None None
                   = Inr (res2, calls2)"
      and pr2: "\<forall>s\<in>set calls2. \<forall>e. analyze s ''000001'' ''A'' None = Inl e \<longrightarrow>
              (\<exists>v. map_of res2 (get_name s) = Some v
                   \<and> v = failed_verdict s ''000001'' ''A'' [Lit (msg_analysis_error @ str_of_error e)]
                   \<and> \<not> is_qualified v \<and> score v = 0 \<and> confidence v = 0
                   \<and> reason v = [Lit (msg_analysis_error @ str_of_error e)]
                   \<and> (is_filter s \<longrightarrow>
                         \<not> passes_filter s v \<and> last calls2 = s
                         \<and> (\<forall>t\<in>set calls2. is_filter t)))"
    by (elim conjE exE)
  have ng: "\<not> gate_ok ''000001'' ''A'' None raising_filter"
    by (simp add: gate_ok_def raising_filter_raises)
  have "selected_filter_strategies example_registry None = [] @ raising_filter # []"
    by (simp add: example_filters)
  from layered_stop [OF this _ ng] run2 have calls2: "calls2 = [raising_filter]" by simp
  then have mem2: "raising_filter \<in> set calls2" by simp
  from mp [OF spec [OF bspec [OF pr2 mem2]] raising_filter_raises]
  have e2: "map_of res2 ''gate''
                 = Some (failed_verdict raising_filter ''000001'' ''A''
                           [Lit (msg_analysis_error @ ''boom'')])"
    by (auto simp: raising_filter_name)
  from run calls e1 have c1: "\<exists>res. analyze_stock example_registry ''000001'' ''A'' None None
                = Inr (res, [raising_filter, fixed_scorer, raising_scorer])
             \<and> map_of res ''broken''
                 = Some (failed_verdict raising_scorer ''000001'' ''A''
                           [Lit (msg_analysis_error @ ''boom'')])"
    by (intro exI [of _ res]) simp
  from run2 calls2 e2 have c2: "\<exists>res. analyze_stock_with_filtering example_registry ''000001'' ''A'' None None
                = Inr (res, [raising_filter])
             \<and> map_of res ''gate''
                 = Some (failed_verdict raising_filter ''000001'' ''A''
                           [Lit (msg_analysis_error @ ''boom'')])"
    by (intro exI [of _ res2]) simp
  from h raising_scorer_raises raising_filter_raises c1 c2 show ?thesis by (intro conjI)
qed

subsection \<open>Rounding to the nearest double\<close>

text \<open>
  \<open>exponent\<close> is the binary exponent \<open>\<lfloor>log\<^sub>2 \<bar>x\<bar>\<rfloor>\<close>; rounding is monotone on the
  non-negative numbers, leaves every \<open>n * 2 ^ k\<close> with \<open>\<bar>n\<bar> < 2 ^ 53\<close> and \<open>k \<ge> - 1074\<close>
  where it is, and moves a number by at most half a unit in the last place.
\<close>

lemma rhe_of_int [simp]: "round_half_even (of_int n) = n"
  by (simp add: round_half_even_def)

lemma rhe_bounds: "\<lfloor>y\<rfloor> \<le> round_half_even y" "round_half_even y \<le> \<lfloor>y\<rfloor> + 1"
  by (simp_all add: round_half_even_def Let_def)

lemma rhe_mono: assumes "a \<le> b" shows "round_half_even a \<le> round_half_even b"
proof (cases "\<lfloor>a\<rfloor> = \<lfloor>b\<rfloor>")
  case True
  with assms have "a - of_int \<lfloor>a\<rfloor> \<le> b - of_int \<lfloor>b\<rfloor>" by simp
  with True show ?thesis by (auto simp: round_half_even_def Let_def)
next
  case False
  with assms have "\<lfloor>a\<rfloor> < \<lfloor>b\<rfloor>" by (simp add: floor_mono order.strict_iff_order)
  then have "\<lfloor>a\<rfloor> + 1 \<le> \<lfloor>b\<rfloor>" by simp
  with rhe_bounds(2) [of a] rhe_bounds(1) [of b] show ?thesis by linarith
qed

lemma rhe_error: "\<bar>of_int (round_half_even y) - y\<bar> \<le> 1 / 2"
proof -
  have "of_int \<lfloor>y\<rfloor> \<le> y" "y < of_int \<lfloor>y\<rfloor> + 1" by linarith+
  then show ?thesis by (auto simp: round_half_even_def Let_def)
qed

lemma rhe_nonneg: "0 \<le> y \<Longrightarrow> 0 \<le> round_half_even y"
  using rhe_mono [of 0 y] rhe_of_int [of 0] by simp

lemma floor_log_bounds:
  assumes "0 < x"
  shows "2 powr of_int \<lfloor>log 2 x\<rfloor> \<le> x" "x < 2 powr of_int (\<lfloor>log 2 x\<rfloor> + 1)"
proof -
  have "of_int \<lfloor>log 2 x\<rfloor> \<le> log 2 x" by simp
  then have "2 powr of_int \<lfloor>log 2 x\<rfloor> \<le> 2 powr log 2 x" by simp
  with assms show "2 powr of_int \<lfloor>log 2 x\<rfloor> \<le> x" by simp
  have "log 2 x < of_int (\<lfloor>log 2 x\<rfloor> + 1)" by linarith
  then have "2 powr log 2 x < 2 powr of_int (\<lfloor>log 2 x\<rfloor> + 1)" by simp
  with assms show "x < 2 powr of_int (\<lfloor>log 2 x\<rfloor> + 1)" by simp
qed

lemma floor_log_eq:
  assumes "0 < x" "2 powr of_int e \<le> x" "x < 2 powr of_int (e + 1)"
  shows "\<lfloor>log 2 x\<rfloor> = e"
proof -
  from assms have "of_int e \<le> log 2 x" by (simp add: le_log_iff)
  moreover from assms have "log 2 x < of_int (e + 1)" by (simp add: log_less_iff)
  ultimately show ?thesis by linarith
qed

lemma pow2_powr: "pow2 k = 2 powr of_int k"
  by (simp add: pow2_def powr_real_of_int field_simps)

lemma exponent_log: assumes "x \<noteq> 0" shows "exponent x = \<lfloor>log 2 \<bar>x\<bar>\<rfloor>"
proof (cases "1 \<le> \<bar>x\<bar>")
  case True
  define n where "n = \<lfloor>\<bar>x\<bar>\<rfloor>"
  define e where "e = bitlen n - 1"
  from True have n: "0 < n" by (simp add: n_def)
  then have e: "0 \<le> e" by (simp add: e_def bitlen_alt_def)
  from bitlen_bounds [OF n] have b: "2 ^ nat e \<le> n" "n < 2 ^ nat (e + 1)"
    by (simp_all add: e_def)
  have "real_of_int (2 ^ nat e) \<le> of_int n" using b(1) by (simp only: of_int_le_iff)
  also have "of_int n \<le> \<bar>x\<bar>" by (simp add: n_def)
  finally have lo: "2 powr of_int e \<le> \<bar>x\<bar>" using e by (simp add: powr_real_of_int)
  from b(2) have "n + 1 \<le> 2 ^ nat (e + 1)" by simp
  then have "real_of_int (n + 1) \<le> of_int (2 ^ nat (e + 1))" by (simp only: of_int_le_iff)
  moreover have "\<bar>x\<bar> < of_int (n + 1)" unfolding n_def by linarith
  moreover have "2 powr of_int (e + 1) = real_of_int (2 ^ nat (e + 1))"
    using e powr_real_of_int [of 2 "e + 1"] by simp
  ultimately have hi: "\<bar>x\<bar> < 2 powr of_int (e + 1)" by linarith
  from assms have "0 < \<bar>x\<bar>" by simp
  from floor_log_eq [OF this lo hi] True show ?thesis by (simp add: exponent_def e_def n_def)
next
  case False
  with assms have x: "0 < \<bar>x\<bar>" "\<bar>x\<bar> < 1" by simp_all
  define m where "m = \<lceil>1 / \<bar>x\<bar>\<rceil>"
  define b where "b = bitlen (m - 1)"
  from x have "1 < 1 / \<bar>x\<bar>" by simp
  then have "1 < m" unfolding m_def by (simp add: less_ceiling_iff)
  then have m: "0 < m - 1" by simp
  then have bpos: "1 \<le> b" by (simp add: b_def bitlen_alt_def)
  from bitlen_bounds [OF m] have bb: "2 ^ nat (b - 1) \<le> m - 1" "m - 1 < 2 ^ nat b"
    by (simp_all add: b_def)
  have "real_of_int (2 ^ nat (b - 1)) \<le> of_int (m - 1)" using bb(1) by (simp only: of_int_le_iff)
  moreover have "of_int (m - 1) < 1 / \<bar>x\<bar>" unfolding m_def by linarith
  ultimately have "2 ^ nat (b - 1) < 1 / \<bar>x\<bar>" by simp
  with x have "\<bar>x\<bar> < 1 / 2 ^ nat (b - 1)" by (simp add: field_simps)
  moreover have "2 powr of_int (- b + 1) = 1 / (2::real) ^ nat (b - 1)"
    using bpos powr_real_of_int [of 2 "- b + 1"] by (cases "b = 1") (simp_all add: field_simps)
  ultimately have hi: "\<bar>x\<bar> < 2 powr of_int (- b + 1)" by linarith
  from bb(2) have "m \<le> 2 ^ nat b" by simp
  then have "real_of_int m \<le> 2 ^ nat b"
    using of_int_le_iff [of m "2 ^ nat b", where ?'a = real] by simp
  moreover have "1 / \<bar>x\<bar> \<le> of_int m" unfolding m_def by linarith
  ultimately have "1 / \<bar>x\<bar> \<le> 2 ^ nat b" by linarith
  with x have "1 / 2 ^ nat b \<le> \<bar>x\<bar>" by (simp add: field_simps)
  moreover have "2 powr of_int (- b) = 1 / (2::real) ^ nat b"
    using bpos powr_real_of_int [of 2 "- b"] by (simp add: field_simps)
  ultimately have lo: "2 powr of_int (- b) \<le> \<bar>x\<bar>" by linarith
  from floor_log_eq [OF x(1) lo hi] False show ?thesis by (simp add: exponent_def b_def m_def)
qed

lemma binade_log: "x \<noteq> 0 \<Longrightarrow> binade x = max \<lfloor>log 2 \<bar>x\<bar>\<rfloor> (- 1022)"
  by (simp add: binade_def exponent_log)

lemma binade_eq:
  assumes "- 1022 \<le> e" "2 powr of_int e \<le> \<bar>x\<bar>" "\<bar>x\<bar> < 2 powr of_int (e + 1)"
  shows "binade x = e"
proof -
  from assms(2) have "0 < \<bar>x\<bar>" by (smt (verit) powr_gt_zero)
  then have "x \<noteq> 0" by auto
  from floor_log_eq [OF \<open>0 < \<bar>x\<bar>\<close> assms(2,3)] assms(1) binade_log [OF this] show ?thesis by simp
qed

lemma binade_upper: assumes "x \<noteq> 0" shows "\<bar>x\<bar> < 2 powr of_int (binade x + 1)"
proof -
  from assms have p: "0 < \<bar>x\<bar>" by simp
  have "\<bar>x\<bar> < 2 powr of_int (\<lfloor>log 2 \<bar>x\<bar>\<rfloor> + 1)" by (rule floor_log_bounds(2) [OF p])
  also have "\<dots> \<le> 2 powr of_int (binade x + 1)" using assms by (simp add: binade_log)
  finally show ?thesis .
qed

lemma binade_lower:
  assumes "x \<noteq> 0" "- 1022 < binade x" shows "2 powr of_int (binade x) \<le> \<bar>x\<bar>"
proof -
  from assms have p: "0 < \<bar>x\<bar>" by simp
  from assms have "binade x = \<lfloor>log 2 \<bar>x\<bar>\<rfloor>" by (simp add: binade_log max_def split: if_splits)
  with floor_log_bounds(1) [OF p] show ?thesis by simp
qed

lemma binade_mono: assumes "0 < x" "x \<le> y" shows "binade x \<le> binade y"
proof -
  from assms have "log 2 \<bar>x\<bar> \<le> log 2 \<bar>y\<bar>" by simp
  then have "\<lfloor>log 2 \<bar>x\<bar>\<rfloor> \<le> \<lfloor>log 2 \<bar>y\<bar>\<rfloor>" by (rule floor_mono)
  moreover from assms have "x \<noteq> 0" "y \<noteq> 0" by auto
  ultimately show ?thesis by (simp add: binade_log)
qed

lemma pow2_pos [simp]: "0 < pow2 k"
  by (simp add: pow2_powr)

lemma pow2_nonneg [simp]: "0 \<le> pow2 k"
  by (simp add: pow2_powr)

lemma pow2_nz [simp]: "pow2 k \<noteq> 0"
  using pow2_pos [of k] by linarith

lemma pow2_mono: "k \<le> l \<Longrightarrow> pow2 k \<le> pow2 l"
  by (simp add: pow2_powr)

lemma pow2_add: "pow2 (k + l) = pow2 k * pow2 l"
  by (simp add: pow2_powr powr_add)

lemma pow2_split_53: "pow2 (e + 1) = pow2 53 * pow2 (e - 52)"
proof -
  have "pow2 53 * pow2 (e - 52) = pow2 (53 + (e - 52))" by (rule pow2_add [symmetric])
  moreover have "53 + (e - 52) = e + 1" by simp
  ultimately show ?thesis by (simp only:)
qed

lemma pow2_split_52: "pow2 e = pow2 52 * pow2 (e - 52)"
proof -
  have "pow2 52 * pow2 (e - 52) = pow2 (52 + (e - 52))" by (rule pow2_add [symmetric])
  moreover have "52 + (e - 52) = e" by simp
  ultimately show ?thesis by (simp only:)
qed

lemma pow2_of_int: "0 \<le> k \<Longrightarrow> pow2 k = of_int (2 ^ nat k)"
  by (simp add: pow2_def)

lemma binade_eq_pow2:
  assumes "- 1022 \<le> e" "pow2 e \<le> \<bar>x\<bar>" "\<bar>x\<bar> < pow2 (e + 1)"
  shows "binade x = e"
  using assms binade_eq [of e x] by (simp only: pow2_powr)

lemma binade_upper_pow2: "x \<noteq> 0 \<Longrightarrow> \<bar>x\<bar> < pow2 (binade x + 1)"
  unfolding pow2_powr by (rule binade_upper)

lemma binade_lower_pow2: "x \<noteq> 0 \<Longrightarrow> - 1022 < binade x \<Longrightarrow> pow2 (binade x) \<le> \<bar>x\<bar>"
  unfolding pow2_powr by (rule binade_lower)

lemma binade_ge: "- 1022 \<le> binade x"
  by (simp add: binade_def)

lemma round64_0 [simp]: "round64 0 = 0"
  by (simp add: round64_def)

lemma round64_nonneg: assumes "0 \<le> x" shows "0 \<le> round64 x"
proof (cases "x = 0")
  case False
  from assms have "0 \<le> x / pow2 (binade x - 52)" by simp
  then have "0 \<le> round_half_even (x / pow2 (binade x - 52))" by (rule rhe_nonneg)
  with False show ?thesis by (simp add: round64_def)
qed simp

lemma round64_exact:
  assumes "\<bar>n\<bar> < 2 ^ 53" "- 1074 \<le> k"
  shows "round64 (of_int n * pow2 k) = of_int n * pow2 k"
proof (cases "n = 0")
  case False
  define x where "x = real_of_int n * pow2 k"
  from False have x0: "x \<noteq> 0" by (simp add: x_def)
  have "real_of_int \<bar>n\<bar> < of_int (2 ^ 53)" using assms(1) by (simp only: of_int_less_iff)
  then have a: "real_of_int \<bar>n\<bar> < pow2 53" by (simp add: pow2_def)
  have "\<bar>x\<bar> = real_of_int \<bar>n\<bar> * pow2 k" by (simp add: x_def abs_mult)
  also have "\<dots> < pow2 53 * pow2 k" by (rule mult_strict_right_mono [OF a pow2_pos])
  finally have "\<bar>x\<bar> < pow2 53 * pow2 k" .
  then have ub: "\<bar>x\<bar> < pow2 (k + 53)" by (simp add: pow2_add mult.commute)
  have "binade x \<le> k + 52"
  proof (rule ccontr)
    assume "\<not> binade x \<le> k + 52"
    then have b: "k + 53 \<le> binade x" by simp
    with assms(2) have "- 1022 < binade x" by simp
    from binade_lower_pow2 [OF x0 this] have "pow2 (binade x) \<le> \<bar>x\<bar>" .
    with pow2_mono [OF b] ub show False by linarith
  qed
  then have j: "0 \<le> k - (binade x - 52)" by simp
  define u where "u = pow2 (binade x - 52)"
  define v where "v = pow2 (k - (binade x - 52))"
  have u: "0 < u" by (simp add: u_def)
  have "pow2 k = pow2 ((k - (binade x - 52)) + (binade x - 52))" by simp
  also have "\<dots> = v * u" unfolding u_def v_def by (rule pow2_add)
  finally have pk: "pow2 k = v * u" .
  have v: "v = of_int (2 ^ nat (k - (binade x - 52)))" unfolding v_def by (rule pow2_of_int [OF j])
  have xv: "x = of_int n * v * u" by (simp add: x_def pk)
  then have "x / u = of_int n * v" using u by simp
  also have "\<dots> = of_int (n * 2 ^ nat (k - (binade x - 52)))" by (simp add: v)
  finally have "round_half_even (x / u) = n * 2 ^ nat (k - (binade x - 52))"
    by (simp only: rhe_of_int)
  then have "real_of_int (round_half_even (x / u)) = of_int n * v" by (simp add: v)
  moreover have "round64 x = of_int (round_half_even (x / u)) * u"
    using x0 by (simp add: round64_def u_def)
  ultimately have "round64 x = x" by (simp add: xv)
  then show ?thesis by (simp add: x_def)
qed simp

lemma round64_pow2: "- 1074 \<le> k \<Longrightarrow> round64 (pow2 k) = pow2 k"
  using round64_exact [of 1 k] by simp

lemma round64_le_pow2: assumes "0 < x" shows "round64 x \<le> pow2 (binade x + 1)"
proof -
  define u where "u = pow2 (binade x - 52)"
  have u: "0 < u" by (simp add: u_def)
  from assms binade_upper_pow2 [of x] have "x < pow2 (binade x + 1)" by simp
  also have "pow2 (binade x + 1) = pow2 53 * u" unfolding u_def by (rule pow2_split_53)
  finally have "x / u < pow2 53" using u by (simp add: field_simps)
  then have "x / u \<le> of_int (2 ^ 53)" by (simp add: pow2_def)
  then have "round_half_even (x / u) \<le> round_half_even (of_int (2 ^ 53))" by (rule rhe_mono)
  then have "round_half_even (x / u) \<le> 2 ^ 53" by (simp only: rhe_of_int)
  then have "real_of_int (round_half_even (x / u)) \<le> of_int (2 ^ 53)" by (simp only: of_int_le_iff)
  then have "real_of_int (round_half_even (x / u)) \<le> pow2 53" by (simp add: pow2_def)
  with u have "real_of_int (round_half_even (x / u)) * u \<le> pow2 53 * u" by simp
  also have "pow2 53 * u = pow2 (binade x + 1)" unfolding u_def by (rule pow2_split_53 [symmetric])
  finally show ?thesis using assms by (simp add: round64_def u_def)
qed

lemma round64_ge_pow2:
  assumes "0 < x" "- 1022 < binade x" shows "pow2 (binade x) \<le> round64 x"
proof -
  define u where "u = pow2 (binade x - 52)"
  have u: "0 < u" by (simp add: u_def)
  from assms have x0: "x \<noteq> 0" by simp
  from binade_lower_pow2 [OF x0 assms(2)] assms(1) have "pow2 (binade x) \<le> x" by simp
  moreover have "pow2 (binade x) = pow2 52 * u" unfolding u_def by (rule pow2_split_52)
  ultimately have "pow2 52 \<le> x / u" using u by (simp add: field_simps)
  then have "of_int (2 ^ 52) \<le> x / u" by (simp add: pow2_def)
  then have "round_half_even (of_int (2 ^ 52)) \<le> round_half_even (x / u)" by (rule rhe_mono)
  then have "2 ^ 52 \<le> round_half_even (x / u)" by (simp only: rhe_of_int)
  then have "real_of_int (2 ^ 52) \<le> of_int (round_half_even (x / u))" by (simp only: of_int_le_iff)
  then have "pow2 52 \<le> of_int (round_half_even (x / u))" by (simp add: pow2_def)
  then have "pow2 52 * u \<le> of_int (round_half_even (x / u)) * u"
    by (rule mult_right_mono) (simp add: u_def)
  moreover have "pow2 52 * u = pow2 (binade x)" unfolding u_def by (rule pow2_split_52 [symmetric])
  ultimately have "pow2 (binade x) \<le> of_int (round_half_even (x / u)) * u" by linarith
  then show ?thesis using x0 by (simp add: round64_def u_def)
qed

lemma round64_mono: assumes "0 \<le> x" "x \<le> y" shows "round64 x \<le> round64 y"
proof (cases "x = 0")
  case True
  with assms round64_nonneg [of y] show ?thesis by simp
next
  case False
  with assms have x: "0 < x" and y: "0 < y" by simp_all
  from binade_mono [OF x assms(2)] have "binade x = binade y \<or> binade x + 1 \<le> binade y" by linarith
  then show ?thesis
  proof
    assume e: "binade x = binade y"
    have "x / pow2 (binade y - 52) \<le> y / pow2 (binade y - 52)"
      using assms(2) by (simp add: divide_right_mono)
    then have "round_half_even (x / pow2 (binade y - 52)) \<le> round_half_even (y / pow2 (binade y - 52))"
      by (rule rhe_mono)
    then have "real_of_int (round_half_even (x / pow2 (binade y - 52)))
                 \<le> of_int (round_half_even (y / pow2 (binade y - 52)))"
      by (simp only: of_int_le_iff)
    then show ?thesis using x y e by (simp add: round64_def)
  next
    assume lt: "binade x + 1 \<le> binade y"
    with binade_ge [of x] have "- 1022 < binade y" by linarith
    from round64_ge_pow2 [OF y this] have "pow2 (binade y) \<le> round64 y" .
    with round64_le_pow2 [OF x] pow2_mono [OF lt] show ?thesis by linarith
  qed
qed

lemma round64_error: "\<bar>round64 x - x\<bar> \<le> pow2 (binade x - 53)"
proof (cases "x = 0")
  case False
  define u where "u = pow2 (binade x - 52)"
  have u: "0 < u" by (simp add: u_def)
  have "round64 x - x = (of_int (round_half_even (x / u)) - x / u) * u"
    using False u by (simp add: round64_def u_def field_simps)
  then have "\<bar>round64 x - x\<bar> = \<bar>of_int (round_half_even (x / u)) - x / u\<bar> * u"
    using u by (simp add: abs_mult)
  also have "\<dots> \<le> 1 / 2 * u" using rhe_error [of "x / u"] u by (simp only: mult_right_mono less_imp_le)
  also have "1 / 2 * u = pow2 (- 1) * pow2 (binade x - 52)" by (simp add: u_def pow2_def)
  also have "\<dots> = pow2 (- 1 + (binade x - 52))" by (rule pow2_add [symmetric])
  finally show ?thesis by simp
qed (simp add: less_imp_le)

lemma rhe_near_below:
  assumes "0 \<le> d" "d \<le> 1 / 2" "even N"
  shows "round_half_even (of_int N - d) = N"
proof (cases "d = 0")
  case True
  then show ?thesis by simp
next
  case False
  with assms have d: "0 < d" "d \<le> 1 / 2" by simp_all
  then have "\<lfloor>real_of_int N - d\<rfloor> = N - 1" by linarith
  moreover from assms(3) have "odd (N - 1)" by simp
  ultimately show ?thesis using d by (simp add: round_half_even_def Let_def)
qed

lemma rhe_below:
  assumes "1 / 2 < d" shows "round_half_even (of_int N - d) \<le> N - 1"
proof -
  define y where "y = real_of_int N - d"
  have f: "of_int \<lfloor>y\<rfloor> \<le> y" "y < of_int \<lfloor>y\<rfloor> + 1" by linarith+
  from assms have "y < of_int N - 1 / 2" by (simp add: y_def)
  with f have "\<lfloor>y\<rfloor> \<le> N - 2 \<or> (\<lfloor>y\<rfloor> = N - 1 \<and> y - of_int \<lfloor>y\<rfloor> < 1 / 2)" by linarith
  then show ?thesis unfolding y_def [symmetric]
    by (auto simp: round_half_even_def Let_def)
qed

lemma round64_int: "\<bar>n\<bar> < 2 ^ 53 \<Longrightarrow> round64 (of_int n) = of_int n"
  using round64_exact [of n 0] by (simp add: pow2_def)

lemma round64_1 [simp]: "round64 1 = 1"
  using round64_int [of 1] by simp

lemma round64_numeral_small:
  "round64 10 = 10" "round64 90 = 90" "round64 99 = 99" "round64 100 = 100"
  using round64_int [of 10] round64_int [of 90] round64_int [of 99] round64_int [of 100]
  by simp_all

lemma binade_le:
  assumes "x \<noteq> 0" "\<bar>x\<bar> < pow2 (e + 1)" "- 1022 \<le> e" shows "binade x \<le> e"
proof (rule ccontr)
  assume "\<not> binade x \<le> e"
  then have b: "e + 1 \<le> binade x" by simp
  with assms(3) have "- 1022 < binade x" by simp
  from binade_lower_pow2 [OF assms(1) this] pow2_mono [OF b] assms(2) show False by linarith
qed

lemma round64_error_le:
  assumes "\<bar>x\<bar> < pow2 (e + 1)" "- 1022 \<le> e"
  shows "\<bar>round64 x - x\<bar> \<le> pow2 (e - 53)"
proof (cases "x = 0")
  case True
  then show ?thesis by simp
next
  case False
  from binade_le [OF False assms] have "binade x - 53 \<le> e - 53" by simp
  from pow2_mono [OF this] round64_error [of x] show ?thesis by linarith
qed

lemma j_quotient_range: assumes "0 < j" "j < m" shows "0 \<le> j_quotient j m" "j_quotient j m \<le> 1"
proof -
  from assms have q: "0 \<le> j / m" "j / m \<le> 1" by simp_all
  from round64_nonneg [OF q(1)] show "0 \<le> j_quotient j m" by (simp add: j_quotient_def)
  from round64_mono [OF q] show "j_quotient j m \<le> 1" by (simp add: j_quotient_def)
qed

lemma j_deduction_range: assumes "0 < j" "j < m" shows "0 \<le> j_deduction j m" "j_deduction j m \<le> 90"
proof -
  from j_quotient_range [OF assms] have q: "0 \<le> j_quotient j m * 90" "j_quotient j m * 90 \<le> 90" by simp_all
  from round64_nonneg [OF q(1)] show "0 \<le> j_deduction j m" by (simp add: j_deduction_def)
  from round64_mono [OF q] show "j_deduction j m \<le> 90" by (simp add: j_deduction_def round64_numeral_small)
qed

lemma j_interpolated_range: assumes "0 < j" "j < m" shows "10 \<le> j_interpolated j m" "j_interpolated j m \<le> 100"
proof -
  from j_deduction_range [OF assms] have p: "10 \<le> 100 - j_deduction j m" "100 - j_deduction j m \<le> 100" by simp_all
  have "round64 10 \<le> round64 (100 - j_deduction j m)" by (rule round64_mono) (use p in simp_all)
  then show "10 \<le> j_interpolated j m" by (simp add: j_interpolated_def round64_numeral_small)
  have "round64 (100 - j_deduction j m) \<le> round64 100" by (rule round64_mono) (use p in simp_all)
  then show "j_interpolated j m \<le> 100" by (simp add: j_interpolated_def round64_numeral_small)
qed

lemma round64_near_100:
  assumes "0 \<le> p" "p \<le> 1"
  shows "round64 (100 - p) = 100 \<longleftrightarrow> p \<le> pow2 (- 47)"
proof -
  define N :: int where "N = 100 * 2 ^ 46"
  have u: "pow2 (- 46) = 1 / 2 ^ 46" by (simp add: pow2_def)
  have b: "binade (100 - p) = 6"
    by (rule binade_eq_pow2) (use assms in \<open>simp_all add: pow2_def\<close>)
  have x0: "100 - p \<noteq> 0" using assms by simp
  have sc: "(100 - p) / pow2 (- 46) = of_int N - p * 2 ^ 46"
    by (simp add: u N_def field_simps)
  have r: "round64 (100 - p) = of_int (round_half_even (of_int N - p * 2 ^ 46)) * pow2 (- 46)"
    using x0 by (simp add: round64_def b sc)
  have h: "100 = real_of_int N * pow2 (- 46)" by (simp add: u N_def)
  show ?thesis
  proof (cases "p \<le> pow2 (- 47)")
    case True
    have "0 \<le> p * 2 ^ 46" using assms by simp
    moreover from True have "p * 2 ^ 46 \<le> 1 / 2" by (simp add: pow2_def field_simps)
    moreover have "even N" by (simp add: N_def)
    ultimately have "round_half_even (of_int N - p * 2 ^ 46) = N" by (rule rhe_near_below)
    with True r h show ?thesis by simp
  next
    case False
    then have "1 / 2 < p * 2 ^ 46" by (simp add: pow2_def field_simps)
    then have "round_half_even (of_int N - p * 2 ^ 46) \<le> N - 1" by (rule rhe_below)
    then have "real_of_int (round_half_even (of_int N - p * 2 ^ 46)) \<le> of_int (N - 1)"
      by (simp only: of_int_le_iff)
    then have "real_of_int (round_half_even (of_int N - p * 2 ^ 46)) * pow2 (- 46)
                 \<le> of_int (N - 1) * pow2 (- 46)"
      by (rule mult_right_mono) simp
    also have "\<dots> < 100" by (simp add: u N_def)
    finally have "round64 (100 - p) < 100" by (simp only: r)
    with False show ?thesis by simp
  qed
qed

lemma round64_100_iff:
  assumes "0 \<le> p" "p \<le> 90"
  shows "round64 (100 - p) = 100 \<longleftrightarrow> p \<le> pow2 (- 47)"
proof (cases "p \<le> 1")
  case True
  with assms show ?thesis by (simp add: round64_near_100)
next
  case False
  then have "100 - p \<le> 99" by simp
  moreover from assms have "0 \<le> 100 - p" by simp
  ultimately have "round64 (100 - p) \<le> round64 99" by (rule round64_mono [rotated])
  then have "round64 (100 - p) \<noteq> 100" by (simp add: round64_numeral_small)
  moreover from False have "\<not> p \<le> pow2 (- 47)" by (simp add: pow2_def)
  ultimately show ?thesis by simp
qed

lemma j_interpolated_100_iff:
  assumes "0 < j" "j < m"
  shows "j_interpolated j m = 100 \<longleftrightarrow> j_deduction j m \<le> pow2 (- 47)"
  unfolding j_interpolated_def by (rule round64_100_iff) (rule j_deduction_range [OF assms])+

lemma j_deduction_tiny:
  assumes "0 < j" "0 < m" "j \<le> m * pow2 (- 54)"
  shows "j_deduction j m \<le> pow2 (- 47)"
proof -
  from assms have "j / m \<le> pow2 (- 54)" by (simp add: field_simps)
  moreover from assms have "0 \<le> j / m" by simp
  ultimately have "round64 (j / m) \<le> round64 (pow2 (- 54))" by (rule round64_mono [rotated])
  then have q: "j_quotient j m \<le> pow2 (- 54)" by (simp add: j_quotient_def round64_pow2)
  have q0: "0 \<le> j_quotient j m" unfolding j_quotient_def by (rule round64_nonneg) (use assms in simp)
  from q have "j_quotient j m * 90 \<le> pow2 (- 47)" by (simp add: pow2_def)
  moreover from q0 have "0 \<le> j_quotient j m * 90" by simp
  ultimately have "round64 (j_quotient j m * 90) \<le> round64 (pow2 (- 47))" by (rule round64_mono [rotated])
  then show ?thesis by (simp add: j_deduction_def round64_pow2)
qed

lemma j_deduction_not_tiny:
  assumes "0 < m" "m * pow2 (- 53) \<le> j"
  shows "pow2 (- 47) < j_deduction j m"
proof -
  from assms have "pow2 (- 53) \<le> j / m" by (simp add: field_simps)
  then have "round64 (pow2 (- 53)) \<le> round64 (j / m)" by (rule round64_mono [rotated]) simp
  then have q: "pow2 (- 53) \<le> j_quotient j m" by (simp add: j_quotient_def round64_pow2)
  then have "90 * pow2 (- 53) \<le> j_quotient j m * 90" by simp
  then have "round64 (90 * pow2 (- 53)) \<le> round64 (j_quotient j m * 90)"
    by (rule round64_mono [rotated]) simp
  moreover have "round64 (90 * pow2 (- 53)) = 90 * pow2 (- 53)"
    using round64_exact [of 90 "- 53"] by simp
  ultimately have "90 * pow2 (- 53) \<le> j_deduction j m" by (simp add: j_deduction_def)
  moreover have "pow2 (- 47) < 90 * pow2 (- 53)" by (simp add: pow2_def)
  ultimately show ?thesis by linarith
qed

lemma abs_three:
  fixes a b c :: real
  assumes "\<bar>a\<bar> \<le> ea" "\<bar>b\<bar> \<le> eb" "\<bar>c\<bar> \<le> ec"
  shows "\<bar>a - b - 90 * c\<bar> \<le> ea + eb + 90 * ec"
  using assms by linarith

lemma j_interpolated_error:
  assumes "0 < j" "j < m"
  shows "\<bar>j_interpolated j m - (100 - (j / m) * 90)\<bar> \<le> pow2 (- 45)"
proof -
  from assms have "\<bar>j / m\<bar> < pow2 (- 1 + 1)" by (simp add: pow2_def)
  from round64_error_le [OF this] have e1: "\<bar>j_quotient j m - j / m\<bar> \<le> pow2 (- 54)"
    by (simp add: j_quotient_def)
  from j_quotient_range [OF assms] have "\<bar>j_quotient j m * 90\<bar> < pow2 (6 + 1)" by (simp add: pow2_def)
  from round64_error_le [OF this] have e2: "\<bar>j_deduction j m - j_quotient j m * 90\<bar> \<le> pow2 (- 47)"
    by (simp add: j_deduction_def)
  from j_deduction_range [OF assms] have "\<bar>100 - j_deduction j m\<bar> < pow2 (6 + 1)" by (simp add: pow2_def)
  from round64_error_le [OF this] have e3: "\<bar>j_interpolated j m - (100 - j_deduction j m)\<bar> \<le> pow2 (- 47)"
    by (simp add: j_interpolated_def)
  have "j_interpolated j m - (100 - (j / m) * 90)
          = (j_interpolated j m - (100 - j_deduction j m)) - (j_deduction j m - j_quotient j m * 90)
            - 90 * (j_quotient j m - j / m)"
    by (simp add: algebra_simps)
  also have "\<bar>\<dots>\<bar> \<le> pow2 (- 47) + pow2 (- 47) + 90 * pow2 (- 54)"
    by (rule abs_three [OF e3 e2 e1])
  also have "\<dots> \<le> pow2 (- 45)" by (simp add: pow2_def)
  finally show ?thesis .
qed

lemma round64_eval:
  assumes "- 1022 \<le> e" "pow2 e \<le> \<bar>x\<bar>" "\<bar>x\<bar> < pow2 (e + 1)"
  shows "round64 x = of_int (round_half_even (x / pow2 (e - 52))) * pow2 (e - 52)"
proof -
  from assms(2) pow2_pos [of e] have "0 < \<bar>x\<bar>" by linarith
  then have "x \<noteq> 0" by auto
  with binade_eq_pow2 [OF assms] show ?thesis by (simp add: round64_def)
qed

subsection \<open>The verdict of the J-value strategy\<close>

lemma fl_bounded: assumes "0 \<le> x" "x \<le> 100" shows "fl x = Fin (round64 x)"
proof -
  from round64_nonneg [OF assms(1)] have a: "0 \<le> round64 x" .
  from round64_mono [OF assms] have b: "round64 x \<le> 100" by (simp add: round64_numeral_small)
  have "(100::real) < pow2 1024" by (simp add: pow2_def)
  with a b have "\<not> pow2 1024 \<le> \<bar>round64 x\<bar>" by linarith
  then show ?thesis by (simp add: fl_def Let_def)
qed

lemma j_score_le0: "jv \<le> Fin 0 \<Longrightarrow> j_score jv m = Inr (Fin 100)"
  by (simp add: j_score_def)

lemma j_score_ge: "\<not> jv \<le> Fin 0 \<Longrightarrow> Fin m \<le> jv \<Longrightarrow> j_score jv m = Inr (Fin 0)"
  by (simp add: j_score_def)

lemma j_score_between:
  assumes "0 < j" "j < m"
  shows "j_score (Fin j) m = Inr (Fin (j_interpolated j m))"
proof -
  from assms have m: "m \<noteq> 0" by simp
  from assms have "0 \<le> j / m" "j / m \<le> 100" by (simp_all add: field_simps)
  from fl_bounded [OF this] have q: "fl (j / m) = Fin (j_quotient j m)" by (simp add: j_quotient_def)
  from j_quotient_range [OF assms] have "0 \<le> j_quotient j m * 90" "j_quotient j m * 90 \<le> 100"
    by simp_all
  from fl_bounded [OF this] have p: "fl (j_quotient j m * 90) = Fin (j_deduction j m)"
    by (simp add: j_deduction_def)
  from j_deduction_range [OF assms] have "0 \<le> 100 - j_deduction j m" "100 - j_deduction j m \<le> 100"
    by simp_all
  from fl_bounded [OF this] have s: "fl (100 - j_deduction j m) = Fin (j_interpolated j m)"
    by (simp add: j_interpolated_def)
  from assms m show ?thesis
    by (simp add: j_score_def py_truediv_def npfloat_ops q p s)
qed

lemma j_score_total: assumes "jv \<noteq> NaN" shows "\<exists>s. j_score jv m = Inr (Fin s) \<and> 0 \<le> s \<and> s \<le> 100"
proof (cases "jv \<le> Fin 0")
  case True
  from j_score_le0 [OF True] show ?thesis by simp
next
  case n0: False
  show ?thesis
  proof (cases "Fin m \<le> jv")
    case True
    from j_score_ge [OF n0 True] show ?thesis by simp
  next
    case False
    with n0 assms obtain j where j: "jv = Fin j" "0 < j" "j < m"
      by (cases jv) (auto simp: npfloat_ops)
    from j_score_between [OF j(2,3)] j_interpolated_range [OF j(2,3)] j(1) show ?thesis by simp
  qed
qed

lemma sorted_last_greatest:
  "sorted (map f xs) \<Longrightarrow> xs \<noteq> [] \<Longrightarrow> \<forall>b\<in>set xs. f b \<le> f (last xs)"
  by (induction xs) auto

lemma get_latest_data_greatest:
  assumes "validate_data (Some df) 5"
  shows "\<exists>latest. get_latest_data (Some df) = Inr (Some latest)
           \<and> latest \<in> set (rows df)
           \<and> (\<forall>b\<in>set (rows df). trade_date b \<le> trade_date latest)"
proof -
  let ?xs = "sort_key trade_date (rows df)"
  from assms have ne: "\<not> df_empty df" and col: "''trade_date'' \<in> set (columns df)"
    by (simp_all add: validate_data_def split: if_splits)
  from ne have "rows df \<noteq> []" by (simp add: df_empty_def)
  then have "length ?xs \<noteq> 0" by simp
  then have xs: "?xs \<noteq> []" by (simp only: length_0_conv not_False_eq_True)
  have g: "get_latest_data (Some df) = Inr (Some (last ?xs))"
    using ne col by (simp add: get_latest_data_def sort_values_trade_date_def)
  from xs have "last ?xs \<in> set ?xs" by (rule last_in_set)
  then have mem: "last ?xs \<in> set (rows df)" by simp
  have "sorted (map trade_date ?xs)" by (rule sorted_sort_key)
  from sorted_last_greatest [OF this xs]
  have gr: "\<forall>b\<in>set (rows df). trade_date b \<le> trade_date (last ?xs)" by simp
  from g mem gr show ?thesis by (intro exI [of _ "last ?xs"] conjI)
qed

lemma analyze_JValue:
  "kind self = JValueStrategy max_j \<Longrightarrow>
   analyze self code nm data = JValueStrategy_analyze self max_j code nm data"
  by (simp add: analyze_def)

lemma JValueStrategy_analyze_nan:
  assumes "validate_data (Some df) 5" "get_latest_data (Some df) = Inr (Some latest)"
      and "J latest = NaN"
  shows "JValueStrategy_analyze self max_j code nm (Some df)
           = create_failed_result self code nm [Lit msg_missing_j]"
  using assms by (simp add: JValueStrategy_analyze_def isna_def)

lemma JValueStrategy_analyze_zero:
  assumes "validate_data (Some df) 5" "get_latest_data (Some df) = Inr (Some latest)"
      and "''J'' \<in> set (columns df)" "J latest \<noteq> NaN"
  shows "JValueStrategy_analyze self 0 code nm (Some df) = Inl ZeroDivisionError"
proof -
  from j_score_total [OF assms(4), of 0] obtain s
    where "j_score (J latest) 0 = Inr (Fin s)" "0 \<le> s" "s \<le> 100"
    by (elim exE conjE)
  with assms show ?thesis
    by (simp add: JValueStrategy_analyze_def isna_def py_truediv_def Let_def)
qed

lemma JValueStrategy_analyze_verdict:
  assumes "validate_data (Some df) 5" "get_latest_data (Some df) = Inr (Some latest)"
      and "''J'' \<in> set (columns df)" "J latest \<noteq> NaN" "max_j \<noteq> 0"
  shows "\<exists>r. JValueStrategy_analyze self max_j code nm (Some df) = Inr r
           \<and> is_qualified r = (J latest < Fin max_j)
           \<and> j_score (J latest) max_j = Inr (Fin (score r))
           \<and> j_confidence (J latest) max_j = Fin (confidence r)"
proof -
  from j_score_total [OF assms(4), of max_j] obtain s
    where s: "j_score (J latest) max_j = Inr (Fin s)" "0 \<le> s" "s \<le> 100"
    by (elim exE conjE)
  define cf :: real where "cf = (if J latest \<le> np_round (Fin max_j * Fin 0.5) then 0.9
       else if J latest \<le> np_round (Fin max_j * Fin double_0_8) then 0.7 else 0.5)"
  have cf: "j_confidence (J latest) max_j = Fin cf" "0 \<le> cf" "cf \<le> 1"
    by (simp_all add: j_confidence_def cf_def)
  let ?r = "\<lparr> stock_code = code, stock_name = nm, strategy_name = name self,
              is_qualified = (J latest < Fin max_j), score = s, confidence = cf,
              details = JDetails (J latest) max_j
                          (np_round (np_round (J latest / Fin max_j) * Fin 100)),
              reason = j_reason (J latest < Fin max_j) (J latest) max_j,
              current_price = close latest,
              trade_date_str = str_nat (trade_date latest) \<rparr>"
  have "JValueStrategy_analyze self max_j code nm (Some df) = Inr ?r"
    using assms s cf
    by (simp add: JValueStrategy_analyze_def isna_def py_truediv_def Let_def
        StrategyResult_new_def less_eq_npfloat_def)
  with s(1) cf(1) show ?thesis by (intro exI [of _ ?r]) simp
qed

lemma np_not_le0_ge: "0 < m \<Longrightarrow> Fin m \<le> jv \<Longrightarrow> \<not> jv \<le> Fin 0"
  by (cases jv) (auto simp: npfloat_ops)

lemma example_frame_valid: "validate_data (Some (example_frame j)) 5"
  by (simp add: validate_data_def example_frame_def df_empty_def)

lemma example_frame_latest:
  "get_latest_data (Some (example_frame j)) = Inr (Some (example_bar 20240108 10 j))"
  by (simp add: get_latest_data_def sort_values_trade_date_def example_frame_def df_empty_def
      example_bar_def)

lemma example_frame_has_J: "''J'' \<in> set (columns (example_frame j))"
  by (simp add: example_frame_def)

lemma example_bar_J: "J (example_bar d c j) = j"
  by (simp add: example_bar_def)

lemma JValueStrategy_init_kind: "kind (JValueStrategy_init m w f t) = JValueStrategy m"
  by (simp add: JValueStrategy_init_def)

lemma interpolated_example: "round64 (100 - round64 (round64 (1 / 2) * 90)) = 55"
  by code_simp

lemma rounded_products:
  "np_round (Fin 13 * Fin 0.5) = Fin (13 / 2)"
  "np_round (Fin 13 * Fin double_0_8) = Fin (5854679515581645 / 562949953421312)"
  "np_round (Fin 3 * Fin 0.5) = Fin (3 / 2)"
  "np_round (Fin 3 * Fin double_0_8) = Fin (5404319552844596 / 2251799813685248)"
proof -
  have "fl (13 * 0.5) = Fin (round64 (13 * 0.5))" by (rule fl_bounded) simp_all
  also have "round64 (13 * 0.5) = 13 / 2" by code_simp
  finally show "np_round (Fin 13 * Fin 0.5) = Fin (13 / 2)" by (simp add: npfloat_ops)
  have "fl (13 * double_0_8) = Fin (round64 (13 * double_0_8))"
    by (rule fl_bounded) (simp_all add: double_0_8_def)
  also have "round64 (13 * double_0_8) = 5854679515581645 / 562949953421312" by code_simp
  finally show "np_round (Fin 13 * Fin double_0_8) = Fin (5854679515581645 / 562949953421312)"
    by (simp add: npfloat_ops)
  have "fl (3 * 0.5) = Fin (round64 (3 * 0.5))" by (rule fl_bounded) simp_all
  also have "round64 (3 * 0.5) = 3 / 2" by code_simp
  finally show "np_round (Fin 3 * Fin 0.5) = Fin (3 / 2)" by (simp add: npfloat_ops)
  have "fl (3 * double_0_8) = Fin (round64 (3 * double_0_8))"
    by (rule fl_bounded) (simp_all add: double_0_8_def)
  also have "round64 (3 * double_0_8) = 5404319552844596 / 2251799813685248" by code_simp
  finally show "np_round (Fin 3 * Fin double_0_8) = Fin (5404319552844596 / 2251799813685248)"
    by (simp add: npfloat_ops)
qed

lemma confidence_examples:
  "Fin 6.5 \<le> np_round (Fin 13 * Fin 0.5)"
  "\<not> Fin 13 \<le> np_round (Fin 13 * Fin 0.5)"
  "\<not> Fin 13 \<le> np_round (Fin 13 * Fin double_0_8)"
  "\<not> Fin (5404319552844596 / 2251799813685248) \<le> np_round (Fin 3 * Fin 0.5)"
  "Fin (5404319552844596 / 2251799813685248) \<le> np_round (Fin 3 * Fin double_0_8)"
  unfolding rounded_products by (simp_all add: npfloat_ops)

text \<open>
  Claim C4. Let a series pass \<^verbatim>\<open>validate_data\<close> and have a \<^verbatim>\<open>J\<close> column, and let the
  strategy have the ceiling \<open>max_j\<close>. The bar \<^verbatim>\<open>get_latest_data\<close> returns is a row of the
  series and no row has a later date. If its \<^verbatim>\<open>J\<close> is NaN the series is not accepted: the
  verdict is the failed one with the message of the missing J value. Otherwise, for
  \<open>max_j = 0\<close> the percentile \<^verbatim>\<open>j_value / max_j_value\<close> of the details raises
  \<^verbatim>\<open>ZeroDivisionError\<close>; for every other ceiling \<^verbatim>\<open>analyze\<close> returns a verdict, also when
  \<^verbatim>\<open>J\<close> is infinite. That verdict qualifies iff \<open>J < max_j\<close>, so \<open>J = max_j\<close> does not
  qualify. Its score is 100 if \<open>J \<le> 0\<close>; else 0 if \<open>max_j \<le> J\<close> (for a positive ceiling the
  two cases exclude each other); else, for \<open>0 < J < max_j\<close>, it is the double that Python
  computes for \<^verbatim>\<open>100 - (J / max_j) * 90\<close>, rounding after the division, the multiplication
  and the subtraction: a number between 10 and 100, both included, within \<open>2 ^ (- 45)\<close> of
  the exact value of that expression, so that the score tends to the floor 10 and not
  to 0 as \<open>J\<close> approaches the ceiling from below. Its confidence is 0.9 if \<open>J\<close> is at most
  the double \<^verbatim>\<open>max_j * 0.5\<close>, else 0.7 if \<open>J\<close> is at most the double \<^verbatim>\<open>max_j * 0.8\<close>, else
  0.5. The breakpoints are the rounded products: for the ceiling 3 the product
  \<^verbatim>\<open>3 * 0.8\<close> is \<open>2.4000000000000004\<close>, the double above \<open>2.4\<close>, and a \<open>J\<close> of that value
  has confidence 0.7.
\<close>

theorem j_value_verdict:
  assumes k: "kind self = JValueStrategy max_j"
      and v: "validate_data (Some df) 5"
      and c: "''J'' \<in> set (columns df)"
  shows "\<exists>latest.
           get_latest_data (Some df) = Inr (Some latest)
         \<and> latest \<in> set (rows df)
         \<and> (\<forall>b\<in>set (rows df). trade_date b \<le> trade_date latest)
         \<and> (J latest = NaN \<longrightarrow>
              analyze self code nm (Some df)
                = create_failed_result self code nm [Lit msg_missing_j])
         \<and> (J latest \<noteq> NaN \<and> max_j = 0 \<longrightarrow>
              analyze self code nm (Some df) = Inl ZeroDivisionError)
         \<and> (J latest \<noteq> NaN \<and> max_j \<noteq> 0 \<longrightarrow>
              (\<exists>r. analyze self code nm (Some df) = Inr r
                 \<and> is_qualified r = (J latest < Fin max_j)
                 \<and> (J latest \<le> Fin 0 \<longrightarrow> score r = 100)
                 \<and> (\<not> J latest \<le> Fin 0 \<and> Fin max_j \<le> J latest \<longrightarrow> score r = 0)
                 \<and> (0 < max_j \<and> Fin max_j \<le> J latest \<longrightarrow> score r = 0)
                 \<and> (\<forall>j. J latest = Fin j \<and> 0 < j \<and> j < max_j \<longrightarrow>
                        score r = round64 (100 - round64 (round64 (j / max_j) * 90))
                      \<and> 10 \<le> score r \<and> score r \<le> 100
                      \<and> \<bar>score r - (100 - (j / max_j) * 90)\<bar> \<le> pow2 (- 45))
                 \<and> confidence r
                     = (if J latest \<le> np_round (Fin max_j * Fin 0.5) then 0.9
                        else if J latest \<le> np_round (Fin max_j * Fin double_0_8) then 0.7
                        else 0.5)))"
proof -
  from get_latest_data_greatest [OF v] obtain latest
    where l: "get_latest_data (Some df) = Inr (Some latest)"
      and mem: "latest \<in> set (rows df)"
      and gr: "\<forall>b\<in>set (rows df). trade_date b \<le> trade_date latest"
    by (elim exE conjE)
  have an: "analyze self code nm (Some df) = JValueStrategy_analyze self max_j code nm (Some df)"
    by (rule analyze_JValue [OF k])
  have nan: "J latest = NaN \<longrightarrow>
      analyze self code nm (Some df) = create_failed_result self code nm [Lit msg_missing_j]"
    unfolding an by (intro impI) (rule JValueStrategy_analyze_nan [OF v l])
  have zero: "J latest \<noteq> NaN \<and> max_j = 0 \<longrightarrow>
      analyze self code nm (Some df) = Inl ZeroDivisionError"
  proof (intro impI, elim conjE)
    assume n: "J latest \<noteq> NaN" and z: "max_j = 0"
    show "analyze self code nm (Some df) = Inl ZeroDivisionError"
      unfolding an z by (rule JValueStrategy_analyze_zero [OF v l c n])
  qed
  have main: "J latest \<noteq> NaN \<and> max_j \<noteq> 0 \<longrightarrow>
              (\<exists>r. analyze self code nm (Some df) = Inr r
                 \<and> is_qualified r = (J latest < Fin max_j)
                 \<and> (J latest \<le> Fin 0 \<longrightarrow> score r = 100)
                 \<and> (\<not> J latest \<le> Fin 0 \<and> Fin max_j \<le> J latest \<longrightarrow> score r = 0)
                 \<and> (0 < max_j \<and> Fin max_j \<le> J latest \<longrightarrow> score r = 0)
                 \<and> (\<forall>j. J latest = Fin j \<and> 0 < j \<and> j < max_j \<longrightarrow>
                        score r = round64 (100 - round64 (round64 (j / max_j) * 90))
                      \<and> 10 \<le> score r \<and> score r \<le> 100
                      \<and> \<bar>score r - (100 - (j / max_j) * 90)\<bar> \<le> pow2 (- 45))
                 \<and> confidence r
                     = (if J latest \<le> np_round (Fin max_j * Fin 0.5) then 0.9
                        else if J latest \<le> np_round (Fin max_j * Fin double_0_8) then 0.7
                        else 0.5))"
  proof (intro impI, elim conjE)
    assume n: "J latest \<noteq> NaN" and m: "max_j \<noteq> 0"
    from JValueStrategy_analyze_verdict [OF v l c n m, of self code nm] obtain r
      where r: "JValueStrategy_analyze self max_j code nm (Some df) = Inr r"
        and q: "is_qualified r = (J latest < Fin max_j)"
        and sc: "j_score (J latest) max_j = Inr (Fin (score r))"
        and cf: "j_confidence (J latest) max_j = Fin (confidence r)"
      by (elim exE conjE)
    have s1: "J latest \<le> Fin 0 \<longrightarrow> score r = 100"
      using sc by (auto dest: j_score_le0 [of _ max_j])
    have s2: "\<not> J latest \<le> Fin 0 \<and> Fin max_j \<le> J latest \<longrightarrow> score r = 0"
      using sc by (auto dest: j_score_ge [of _ max_j])
    have s3: "0 < max_j \<and> Fin max_j \<le> J latest \<longrightarrow> score r = 0"
      using s2 np_not_le0_ge [of max_j "J latest"] by simp
    have s4: "\<forall>j. J latest = Fin j \<and> 0 < j \<and> j < max_j \<longrightarrow>
                        score r = round64 (100 - round64 (round64 (j / max_j) * 90))
                      \<and> 10 \<le> score r \<and> score r \<le> 100
                      \<and> \<bar>score r - (100 - (j / max_j) * 90)\<bar> \<le> pow2 (- 45)"
    proof (intro allI impI, elim conjE)
      fix j assume j: "J latest = Fin j" "0 < j" "j < max_j"
      from sc j_score_between [OF j(2,3)] j(1) have e: "score r = j_interpolated j max_j" by simp
      from j_interpolated_range [OF j(2,3)] j_interpolated_error [OF j(2,3)]
      show "score r = round64 (100 - round64 (round64 (j / max_j) * 90))
                      \<and> 10 \<le> score r \<and> score r \<le> 100
                      \<and> \<bar>score r - (100 - (j / max_j) * 90)\<bar> \<le> pow2 (- 45)"
        unfolding e by (simp add: j_interpolated_def j_deduction_def j_quotient_def)
    qed
    have s5: "confidence r
                     = (if J latest \<le> np_round (Fin max_j * Fin 0.5) then 0.9
                        else if J latest \<le> np_round (Fin max_j * Fin double_0_8) then 0.7
                        else 0.5)"
      using cf by (simp add: j_confidence_def split: if_splits)
    from r have r': "analyze self code nm (Some df) = Inr r" by (simp only: an)
    from r' q s1 s2 s3 s4 s5 show "\<exists>r. analyze self code nm (Some df) = Inr r
                 \<and> is_qualified r = (J latest < Fin max_j)
                 \<and> (J latest \<le> Fin 0 \<longrightarrow> score r = 100)
                 \<and> (\<not> J latest \<le> Fin 0 \<and> Fin max_j \<le> J latest \<longrightarrow> score r = 0)
                 \<and> (0 < max_j \<and> Fin max_j \<le> J latest \<longrightarrow> score r = 0)
                 \<and> (\<forall>j. J latest = Fin j \<and> 0 < j \<and> j < max_j \<longrightarrow>
                        score r = round64 (100 - round64 (round64 (j / max_j) * 90))
                      \<and> 10 \<le> score r \<and> score r \<le> 100
                      \<and> \<bar>score r - (100 - (j / max_j) * 90)\<bar> \<le> pow2 (- 45))
                 \<and> confidence r
                     = (if J latest \<le> np_round (Fin max_j * Fin 0.5) then 0.9
                        else if J latest \<le> np_round (Fin max_j * Fin double_0_8) then 0.7
                        else 0.5)"
      by (intro exI [of _ r] conjI)
  qed
  from l mem gr nan zero main show ?thesis by (intro exI [of _ latest] conjI)
qed

theorem j_value_verdict_witness:
  "(\<exists>r. analyze (JValueStrategy_init 13 1 False 100) ''000001'' ''A''
            (Some (example_frame (Fin 6.5))) = Inr r
         \<and> is_qualified r \<and> score r = 55 \<and> confidence r = 0.9)
   \<and> (\<exists>r. analyze (JValueStrategy_init 13 1 False 100) ''000001'' ''A''
            (Some (example_frame (Fin 13))) = Inr r
         \<and> \<not> is_qualified r \<and> score r = 0 \<and> confidence r = 0.5)
   \<and> (\<exists>r. analyze (JValueStrategy_init 3 1 False 100) ''000001'' ''A''
            (Some (example_frame (Fin (5404319552844596 / 2251799813685248)))) = Inr r
         \<and> is_qualified r \<and> confidence r = 0.7)"
proof (intro conjI)
  let ?j = "Fin 6.5"
  note t = j_value_verdict [OF JValueStrategy_init_kind [of 13 1 False 100]
      example_frame_valid [of ?j] example_frame_has_J [of ?j],
      where code = "''000001''" and nm = "''A''"]
  from t obtain latest
    where l: "get_latest_data (Some (example_frame ?j)) = Inr (Some latest)"
      and main: "J latest \<noteq> NaN \<and> (13::real) \<noteq> 0 \<longrightarrow>
              (\<exists>r. analyze (JValueStrategy_init 13 1 False 100) ''000001'' ''A''
                     (Some (example_frame ?j)) = Inr r
                 \<and> is_qualified r = (J latest < Fin 13)
                 \<and> (J latest \<le> Fin 0 \<longrightarrow> score r = 100)
                 \<and> (\<not> J latest \<le> Fin 0 \<and> Fin 13 \<le> J latest \<longrightarrow> score r = 0)
                 \<and> (0 < (13::real) \<and> Fin 13 \<le> J latest \<longrightarrow> score r = 0)
                 \<and> (\<forall>j. J latest = Fin j \<and> 0 < j \<and> j < 13 \<longrightarrow>
                        score r = round64 (100 - round64 (round64 (j / 13) * 90))
                      \<and> 10 \<le> score r \<and> score r \<le> 100
                      \<and> \<bar>score r - (100 - (j / 13) * 90)\<bar> \<le> pow2 (- 45))
                 \<and> confidence r
                     = (if J latest \<le> np_round (Fin 13 * Fin 0.5) then 0.9
                        else if J latest \<le> np_round (Fin 13 * Fin double_0_8) then 0.7
                        else 0.5))"
    by (elim exE conjE)
  from l have le: "latest = example_bar 20240108 10 ?j" by (simp add: example_frame_latest)
  have jl: "J latest = ?j" unfolding le by (rule example_bar_J)
  have pre: "J latest \<noteq> NaN \<and> (13::real) \<noteq> 0" by (simp add: jl)
  from mp [OF main pre] obtain r
    where r: "analyze (JValueStrategy_init 13 1 False 100) ''000001'' ''A''
                (Some (example_frame ?j)) = Inr r"
      and q: "is_qualified r = (J latest < Fin 13)"
      and s4: "\<forall>j. J latest = Fin j \<and> 0 < j \<and> j < 13 \<longrightarrow>
                        score r = round64 (100 - round64 (round64 (j / 13) * 90))
                      \<and> 10 \<le> score r \<and> score r \<le> 100
                      \<and> \<bar>score r - (100 - (j / 13) * 90)\<bar> \<le> pow2 (- 45)"
      and cf: "confidence r
                     = (if J latest \<le> np_round (Fin 13 * Fin 0.5) then 0.9
                        else if J latest \<le> np_round (Fin 13 * Fin double_0_8) then 0.7
                        else 0.5)"
    by (elim exE conjE)
  from q have a: "is_qualified r" by (simp add: jl npfloat_ops)
  from spec [OF s4, of "6.5"] have b: "score r = 55" by (simp add: jl interpolated_example)
  from cf have c: "confidence r = 0.9" by (simp only: jl confidence_examples if_True)
  from r a b c show "\<exists>r. analyze (JValueStrategy_init 13 1 False 100) ''000001'' ''A''
            (Some (example_frame (Fin 6.5))) = Inr r
         \<and> is_qualified r \<and> score r = 55 \<and> confidence r = 0.9"
    by (intro exI [of _ r] conjI)
next
  let ?j = "Fin 13"
  note t = j_value_verdict [OF JValueStrategy_init_kind [of 13 1 False 100]
      example_frame_valid [of ?j] example_frame_has_J [of ?j],
      where code = "''000001''" and nm = "''A''"]
  from t obtain latest
    where l: "get_latest_data (Some (example_frame ?j)) = Inr (Some latest)"
      and main: "J latest \<noteq> NaN \<and> (13::real) \<noteq> 0 \<longrightarrow>
              (\<exists>r. analyze (JValueStrategy_init 13 1 False 100) ''000001'' ''A''
                     (Some (example_frame ?j)) = Inr r
                 \<and> is_qualified r = (J latest < Fin 13)
                 \<and> (J latest \<le> Fin 0 \<longrightarrow> score r = 100)
                 \<and> (\<not> J latest \<le> Fin 0 \<and> Fin 13 \<le> J latest \<longrightarrow> score r = 0)
                 \<and> (0 < (13::real) \<and> Fin 13 \<le> J latest \<longrightarrow> score r = 0)
                 \<and> (\<forall>j. J latest = Fin j \<and> 0 < j \<and> j < 13 \<longrightarrow>
                        score r = round64 (100 - round64 (round64 (j / 13) * 90))
                      \<and> 10 \<le> score r \<and> score r \<le> 100
                      \<and> \<bar>score r - (100 - (j / 13) * 90)\<bar> \<le> pow2 (- 45))
                 \<and> confidence r
                     = (if J latest \<le> np_round (Fin 13 * Fin 0.5) then 0.9
                        else if J latest \<le> np_round (Fin 13 * Fin double_0_8) then 0.7
                        else 0.5))"
    by (elim exE conjE)
  from l have le: "latest = example_bar 20240108 10 ?j" by (simp add: example_frame_latest)
  have jl: "J latest = ?j" unfolding le by (rule example_bar_J)
  have pre: "J latest \<noteq> NaN \<and> (13::real) \<noteq> 0" by (simp add: jl)
  from mp [OF main pre] obtain r
    where r: "analyze (JValueStrategy_init 13 1 False 100) ''000001'' ''A''
                (Some (example_frame ?j)) = Inr r"
      and q: "is_qualified r = (J latest < Fin 13)"
      and s3: "0 < (13::real) \<and> Fin 13 \<le> J latest \<longrightarrow> score r = 0"
      and cf: "confidence r
                     = (if J latest \<le> np_round (Fin 13 * Fin 0.5) then 0.9
                        else if J latest \<le> np_round (Fin 13 * Fin double_0_8) then 0.7
                        else 0.5)"
    by (elim exE conjE)
  from q have a: "\<not> is_qualified r" by (simp add: jl npfloat_ops)
  from s3 have b: "score r = 0" by (simp add: jl npfloat_ops)
  from cf have c: "confidence r = 0.5" by (simp only: jl confidence_examples if_False)
  from r a b c show "\<exists>r. analyze (JValueStrategy_init 13 1 False 100) ''000001'' ''A''
            (Some (example_frame (Fin 13))) = Inr r
         \<and> \<not> is_qualified r \<and> score r = 0 \<and> confidence r = 0.5"
    by (intro exI [of _ r] conjI)
next
  let ?j = "Fin (5404319552844596 / 2251799813685248)"
  note t = j_value_verdict [OF JValueStrategy_init_kind [of 3 1 False 100]
      example_frame_valid [of ?j] example_frame_has_J [of ?j],
      where code = "''000001''" and nm = "''A''"]
  from t obtain latest
    where l: "get_latest_data (Some (example_frame ?j)) = Inr (Some latest)"
      and main: "J latest \<noteq> NaN \<and> (3::real) \<noteq> 0 \<longrightarrow>
              (\<exists>r. analyze (JValueStrategy_init 3 1 False 100) ''000001'' ''A''
                     (Some (example_frame ?j)) = Inr r
                 \<and> is_qualified r = (J latest < Fin 3)
                 \<and> (J latest \<le> Fin 0 \<longrightarrow> score r = 100)
                 \<and> (\<not> J latest \<le> Fin 0 \<and> Fin 3 \<le> J latest \<longrightarrow> score r = 0)
                 \<and> (0 < (3::real) \<and> Fin 3 \<le> J latest \<longrightarrow> score r = 0)
                 \<and> (\<forall>j. J latest = Fin j \<and> 0 < j \<and> j < 3 \<longrightarrow>
                        score r = round64 (100 - round64 (round64 (j / 3) * 90))
                      \<and> 10 \<le> score r \<and> score r \<le> 100
                      \<and> \<bar>score r - (100 - (j / 3) * 90)\<bar> \<le> pow2 (- 45))
                 \<and> confidence r
                     = (if J latest \<le> np_round (Fin 3 * Fin 0.5) then 0.9
                        else if J latest \<le> np_round (Fin 3 * Fin double_0_8) then 0.7
                        else 0.5))"
    by (elim exE conjE)
  from l have le: "latest = example_bar 20240108 10 ?j" by (simp add: example_frame_latest)
  have jl: "J latest = ?j" unfolding le by (rule example_bar_J)
  have pre: "J latest \<noteq> NaN \<and> (3::real) \<noteq> 0" by (simp add: jl)
  from mp [OF main pre] obtain r
    where r: "analyze (JValueStrategy_init 3 1 False 100) ''000001'' ''A''
                (Some (example_frame ?j)) = Inr r"
      and q: "is_qualified r = (J latest < Fin 3)"
      and cf: "confidence r
                     = (if J latest \<le> np_round (Fin 3 * Fin 0.5) then 0.9
                        else if J latest \<le> np_round (Fin 3 * Fin double_0_8) then 0.7
                        else 0.5)"
    by (elim exE conjE)
  from q have a: "is_qualified r" by (simp add: jl npfloat_ops)
  from cf have c: "confidence r = 0.7" by (simp only: jl confidence_examples if_True if_False)
  from r a c show "\<exists>r. analyze (JValueStrategy_init 3 1 False 100) ''000001'' ''A''
            (Some (example_frame (Fin (5404319552844596 / 2251799813685248)))) = Inr r
         \<and> is_qualified r \<and> confidence r = 0.7"
    by (intro exI [of _ r] conjI)
qed

subsection \<open>The J-value strategy as a filter with the default threshold\<close>

lemma np_lt_not_ge: "Fin m \<le> jv \<Longrightarrow> \<not> jv < Fin m"
  by (cases jv) (auto simp: npfloat_ops)

lemma np_strictly_between:
  assumes "jv \<noteq> NaN" "\<not> jv \<le> Fin 0" "\<not> Fin m \<le> jv"
  shows "\<exists>j. jv = Fin j \<and> 0 < j \<and> j < m"
  using assms by (cases jv) (auto simp: npfloat_ops)

lemma np_le0_lt: "0 < m \<Longrightarrow> jv \<le> Fin 0 \<Longrightarrow> jv < Fin m"
  by (cases jv) (auto simp: npfloat_ops)

lemma j_score_tiny:
  assumes "0 < j" "0 < m" "j \<le> m * pow2 (- 54)"
  shows "j < m" "j_score (Fin j) m = Inr (Fin 100)"
proof -
  have "pow2 (- 54) < 1" by (simp add: pow2_def)
  with assms(2) have "m * pow2 (- 54) < m * 1" by (simp only: mult_strict_left_mono)
  with assms(3) show jm: "j < m" by simp
  from j_deduction_tiny [OF assms] j_interpolated_100_iff [OF assms(1) jm]
  have "j_interpolated j m = 100" by simp
  with j_score_between [OF assms(1) jm] show "j_score (Fin j) m = Inr (Fin 100)" by simp
qed

lemma j_score_not_tiny:
  assumes "0 < m" "m * pow2 (- 53) \<le> j" "j < m"
  shows "j_score (Fin j) m = Inr (Fin (j_interpolated j m))" "j_interpolated j m < 100"
proof -
  from assms(1) have "0 < m * pow2 (- 53)" by simp
  with assms(2) have j: "0 < j" by linarith
  from j_score_between [OF j assms(3)]
  show "j_score (Fin j) m = Inr (Fin (j_interpolated j m))" .
  from j_deduction_not_tiny [OF assms(1,2)] j_interpolated_100_iff [OF j assms(3)]
  have "j_interpolated j m \<noteq> 100" by simp
  with j_interpolated_range(2) [OF j assms(3)] show "j_interpolated j m < 100" by simp
qed

lemma j_pass_iff:
  assumes n: "jv \<noteq> NaN" and s: "j_score jv m = Inr (Fin s)"
  shows "(jv < Fin m \<and> 100 \<le> s)
         \<longleftrightarrow> jv < Fin m
             \<and> (jv \<le> Fin 0
                \<or> (\<exists>j. jv = Fin j \<and> round64 (round64 (j / m) * 90) \<le> pow2 (- 47)))"
proof (cases "jv \<le> Fin 0")
  case True
  from j_score_le0 [OF True, of m] s have "s = 100" by simp
  with True show ?thesis by simp
next
  case n0: False
  show ?thesis
  proof (cases "Fin m \<le> jv")
    case True
    from np_lt_not_ge [OF True] show ?thesis by simp
  next
    case False
    from np_strictly_between [OF n n0 False] obtain j where j: "jv = Fin j" "0 < j" "j < m"
      by (elim exE conjE)
    from j_score_between [OF j(2,3)] s j(1) have e: "s = j_interpolated j m" by simp
    from j_interpolated_range(2) [OF j(2,3)] have "100 \<le> s \<longleftrightarrow> s = 100"
      unfolding e by linarith
    also have "\<dots> \<longleftrightarrow> j_deduction j m \<le> pow2 (- 47)"
      unfolding e by (rule j_interpolated_100_iff [OF j(2,3)])
    finally have "100 \<le> s \<longleftrightarrow> round64 (round64 (j / m) * 90) \<le> pow2 (- 47)"
      by (simp add: j_deduction_def j_quotient_def)
    with n0 j show ?thesis by simp
  qed
qed

lemma passes_filter_default:
  "passes_filter (JValueStrategy_init max_j w True 100) r
     = (is_qualified r \<and> 100 \<le> score r)"
  by (simp add: passes_filter_def JValueStrategy_init_def)

text \<open>
  Claim C10, as stated, fails: the score of a qualifying \<open>J\<close> strictly between 0 and the
  ceiling is not always below 100. For \<open>J = 2 ^ (- 53)\<close> (about \<open>1.1e-16\<close>) and the ceiling
  13 the product \<^verbatim>\<open>(J / 13) * 90\<close> is less than half the distance from 100 to the double
  below it, so that \<^verbatim>\<open>100 - (J / 13) * 90\<close> is the double 100: the verdict qualifies with
  score 100 and passes the filter of threshold 100, although \<open>J > 0\<close>.
\<close>

theorem j_filter_tiny_positive_counterexample:
  "get_latest_data (Some (example_frame (Fin (1 / 2 ^ 53))))
     = Inr (Some (example_bar 20240108 10 (Fin (1 / 2 ^ 53))))
   \<and> Fin 0 < J (example_bar 20240108 10 (Fin (1 / 2 ^ 53)))
   \<and> J (example_bar 20240108 10 (Fin (1 / 2 ^ 53))) < Fin 13
   \<and> (\<exists>r. analyze (JValueStrategy_init 13 1 True 100) ''000001'' ''A''
            (Some (example_frame (Fin (1 / 2 ^ 53)))) = Inr r
         \<and> is_qualified r \<and> score r = 100
         \<and> passes_filter (JValueStrategy_init 13 1 True 100) r)"
proof (intro conjI)
  let ?j = "Fin (1 / 2 ^ 53)"
  let ?s = "JValueStrategy_init 13 1 True 100"
  show "get_latest_data (Some (example_frame ?j)) = Inr (Some (example_bar 20240108 10 ?j))"
    by (rule example_frame_latest)
  show "Fin 0 < J (example_bar 20240108 10 ?j)" by (simp add: example_bar_J npfloat_ops)
  show "J (example_bar 20240108 10 ?j) < Fin 13" by (simp add: example_bar_J npfloat_ops)
  have n: "J (example_bar 20240108 10 ?j) \<noteq> NaN" by (simp add: example_bar_J)
  have m: "(13::real) \<noteq> 0" by simp
  from JValueStrategy_analyze_verdict [OF example_frame_valid example_frame_latest
      example_frame_has_J n m, of ?s "''000001''" "''A''"]
  obtain r where r: "JValueStrategy_analyze ?s 13 ''000001'' ''A'' (Some (example_frame ?j)) = Inr r"
    and q: "is_qualified r = (J (example_bar 20240108 10 ?j) < Fin 13)"
    and sc: "j_score (J (example_bar 20240108 10 ?j)) 13 = Inr (Fin (score r))"
    by (elim exE conjE)
  have "(1 / 2 ^ 53 :: real) \<le> 13 * pow2 (- 54)" by (simp add: pow2_def)
  from j_score_tiny(2) [OF _ _ this] have "j_score ?j 13 = Inr (Fin 100)" by simp
  with sc have b: "score r = 100" by (simp add: example_bar_J)
  from q have a: "is_qualified r" by (simp add: example_bar_J npfloat_ops)
  from a b have p: "passes_filter ?s r" by (simp add: passes_filter_default)
  have "analyze ?s ''000001'' ''A'' (Some (example_frame ?j)) = Inr r"
    using r by (simp add: analyze_JValue [OF JValueStrategy_init_kind])
  with a b p show "\<exists>r. analyze ?s ''000001'' ''A'' (Some (example_frame ?j)) = Inr r
         \<and> is_qualified r \<and> score r = 100 \<and> passes_filter ?s r"
    by (intro exI [of _ r] conjI)
qed

text \<open>
  Claim C10, amended. Let a J-value strategy be constructed as a filter with the default
  \<^verbatim>\<open>threshold_score\<close> of 100 and a ceiling \<open>max_j \<noteq> 0\<close>, and let the series be accepted as
  in C4, the \<^verbatim>\<open>J\<close> of its latest bar not NaN. Then \<^verbatim>\<open>analyze\<close> returns a verdict, which
  passes the filter iff it qualifies with the score 100, that is: iff \<open>J < max_j\<close> and
  either \<open>J \<le> 0\<close> or the rounded product \<^verbatim>\<open>(J / max_j) * 90\<close> is at most \<open>2 ^ (- 47)\<close>, half
  the distance from 100 to the double below it. For a positive ceiling the verdict
  passes for every \<open>J \<le> 0\<close> and for every \<open>J\<close> with \<open>0 < J \<le> 2 ^ (- 54) * max_j\<close>, and it
  has a score below 100 and does not pass for every \<open>J \<ge> 2 ^ (- 53) * max_j\<close>: the default
  threshold is reached at \<open>J \<le> 0\<close> and on a sliver of positive values of relative size
  about \<open>1e-16\<close>.
\<close>

theorem j_filter_default_threshold:
  assumes v: "validate_data (Some df) 5"
      and c: "''J'' \<in> set (columns df)"
  shows "\<exists>latest.
           get_latest_data (Some df) = Inr (Some latest)
         \<and> latest \<in> set (rows df)
         \<and> (\<forall>b\<in>set (rows df). trade_date b \<le> trade_date latest)
         \<and> (J latest \<noteq> NaN \<and> max_j \<noteq> 0 \<longrightarrow>
              (\<exists>r. analyze (JValueStrategy_init max_j w True 100) code nm (Some df) = Inr r
                 \<and> (passes_filter (JValueStrategy_init max_j w True 100) r
                      \<longleftrightarrow> is_qualified r \<and> score r = 100)
                 \<and> (passes_filter (JValueStrategy_init max_j w True 100) r
                      \<longleftrightarrow> J latest < Fin max_j
                          \<and> (J latest \<le> Fin 0
                             \<or> (\<exists>j. J latest = Fin j
                                   \<and> round64 (round64 (j / max_j) * 90) \<le> pow2 (- 47))))
                 \<and> (0 < max_j \<longrightarrow>
                       (J latest \<le> Fin 0 \<longrightarrow>
                          is_qualified r \<and> score r = 100
                        \<and> passes_filter (JValueStrategy_init max_j w True 100) r)
                     \<and> (\<forall>j. J latest = Fin j \<and> 0 < j \<and> j \<le> max_j * pow2 (- 54) \<longrightarrow>
                          is_qualified r \<and> score r = 100
                        \<and> passes_filter (JValueStrategy_init max_j w True 100) r)
                     \<and> (\<forall>j. J latest = Fin j \<and> max_j * pow2 (- 53) \<le> j \<longrightarrow>
                          score r < 100
                        \<and> \<not> passes_filter (JValueStrategy_init max_j w True 100) r))))"
proof -
  let ?s = "JValueStrategy_init max_j w True 100"
  from get_latest_data_greatest [OF v] obtain latest
    where l: "get_latest_data (Some df) = Inr (Some latest)"
      and mem: "latest \<in> set (rows df)"
      and gr: "\<forall>b\<in>set (rows df). trade_date b \<le> trade_date latest"
    by (elim exE conjE)
  have an: "analyze ?s code nm (Some df) = JValueStrategy_analyze ?s max_j code nm (Some df)"
    by (rule analyze_JValue [OF JValueStrategy_init_kind])
  have main: "J latest \<noteq> NaN \<and> max_j \<noteq> 0 \<longrightarrow>
              (\<exists>r. analyze ?s code nm (Some df) = Inr r
                 \<and> (passes_filter ?s r \<longleftrightarrow> is_qualified r \<and> score r = 100)
                 \<and> (passes_filter ?s r
                      \<longleftrightarrow> J latest < Fin max_j
                          \<and> (J latest \<le> Fin 0
                             \<or> (\<exists>j. J latest = Fin j
                                   \<and> round64 (round64 (j / max_j) * 90) \<le> pow2 (- 47))))
                 \<and> (0 < max_j \<longrightarrow>
                       (J latest \<le> Fin 0 \<longrightarrow>
                          is_qualified r \<and> score r = 100 \<and> passes_filter ?s r)
                     \<and> (\<forall>j. J latest = Fin j \<and> 0 < j \<and> j \<le> max_j * pow2 (- 54) \<longrightarrow>
                          is_qualified r \<and> score r = 100 \<and> passes_filter ?s r)
                     \<and> (\<forall>j. J latest = Fin j \<and> max_j * pow2 (- 53) \<le> j \<longrightarrow>
                          score r < 100 \<and> \<not> passes_filter ?s r)))"
  proof (intro impI, elim conjE)
    assume n: "J latest \<noteq> NaN" and m: "max_j \<noteq> 0"
    from JValueStrategy_analyze_verdict [OF v l c n m, of ?s code nm] obtain r
      where r: "JValueStrategy_analyze ?s max_j code nm (Some df) = Inr r"
        and q: "is_qualified r = (J latest < Fin max_j)"
        and sc: "j_score (J latest) max_j = Inr (Fin (score r))"
      by (elim exE conjE)
    from j_score_total [OF n, of max_j] sc have le: "score r \<le> 100" by auto
    have pf: "passes_filter ?s r = (is_qualified r \<and> 100 \<le> score r)"
      by (rule passes_filter_default)
    from le have p1: "passes_filter ?s r \<longleftrightarrow> is_qualified r \<and> score r = 100"
      unfolding pf by auto
    have p2: "passes_filter ?s r
                \<longleftrightarrow> J latest < Fin max_j
                    \<and> (J latest \<le> Fin 0
                       \<or> (\<exists>j. J latest = Fin j
                             \<and> round64 (round64 (j / max_j) * 90) \<le> pow2 (- 47)))"
      unfolding pf q by (rule j_pass_iff [OF n sc])
    have p3: "0 < max_j \<longrightarrow>
                       (J latest \<le> Fin 0 \<longrightarrow>
                          is_qualified r \<and> score r = 100 \<and> passes_filter ?s r)
                     \<and> (\<forall>j. J latest = Fin j \<and> 0 < j \<and> j \<le> max_j * pow2 (- 54) \<longrightarrow>
                          is_qualified r \<and> score r = 100 \<and> passes_filter ?s r)
                     \<and> (\<forall>j. J latest = Fin j \<and> max_j * pow2 (- 53) \<le> j \<longrightarrow>
                          score r < 100 \<and> \<not> passes_filter ?s r)"
    proof (intro impI conjI allI)
      assume pos: "0 < max_j" and z: "J latest \<le> Fin 0"
      from j_score_le0 [OF z, of max_j] sc show "score r = 100" by simp
      from np_le0_lt [OF pos z] show "is_qualified r" by (simp only: q)
      with \<open>score r = 100\<close> show "passes_filter ?s r" by (simp add: p1)
    next
      fix j assume pos: "0 < max_j"
        and h: "J latest = Fin j \<and> 0 < j \<and> j \<le> max_j * pow2 (- 54)"
      then have j: "J latest = Fin j" "0 < j" "j \<le> max_j * pow2 (- 54)" by simp_all
      from j_score_tiny [OF j(2) pos j(3)] have t: "j < max_j" "j_score (Fin j) max_j = Inr (Fin 100)" .
      from t(2) sc j(1) show b: "score r = 100" by simp
      from t(1) show a: "is_qualified r" by (simp add: q j(1) npfloat_ops)
      from a b show "passes_filter ?s r" by (simp add: p1)
    next
      fix j assume pos: "0 < max_j"
        and h: "J latest = Fin j \<and> max_j * pow2 (- 53) \<le> j"
      then have j: "J latest = Fin j" "max_j * pow2 (- 53) \<le> j" by simp_all
      from pos have "0 < max_j * pow2 (- 53)" by simp
      with j(2) have jp: "0 < j" by linarith
      show "score r < 100"
      proof (cases "j < max_j")
        case True
        from j_score_not_tiny [OF pos j(2) True] sc j(1) show ?thesis by simp
      next
        case False
        with jp have "\<not> Fin j \<le> Fin 0" "Fin max_j \<le> Fin j" by (simp_all add: npfloat_ops)
        from j_score_ge [OF this] sc j(1) show ?thesis by simp
      qed
      then show "\<not> passes_filter ?s r" by (simp add: p1)
    qed
    from r have r': "analyze ?s code nm (Some df) = Inr r" by (simp only: an)
    from r' p1 p2 p3 show "\<exists>r. analyze ?s code nm (Some df) = Inr r
                 \<and> (passes_filter ?s r \<longleftrightarrow> is_qualified r \<and> score r = 100)
                 \<and> (passes_filter ?s r
                      \<longleftrightarrow> J latest < Fin max_j
                          \<and> (J latest \<le> Fin 0
                             \<or> (\<exists>j. J latest = Fin j
                                   \<and> round64 (round64 (j / max_j) * 90) \<le> pow2 (- 47))))
                 \<and> (0 < max_j \<longrightarrow>
                       (J latest \<le> Fin 0 \<longrightarrow>
                          is_qualified r \<and> score r = 100 \<and> passes_filter ?s r)
                     \<and> (\<forall>j. J latest = Fin j \<and> 0 < j \<and> j \<le> max_j * pow2 (- 54) \<longrightarrow>
                          is_qualified r \<and> score r = 100 \<and> passes_filter ?s r)
                     \<and> (\<forall>j. J latest = Fin j \<and> max_j * pow2 (- 53) \<le> j \<longrightarrow>
                          score r < 100 \<and> \<not> passes_filter ?s r))"
      by (intro exI [of _ r] conjI)
  qed
  from l mem gr main show ?thesis by (intro exI [of _ latest] conjI)
qed

theorem j_filter_default_threshold_witness:
  "(\<exists>r. analyze (JValueStrategy_init 13 1 True 100) ''000001'' ''A''
            (Some (example_frame (Fin 6.5))) = Inr r
         \<and> score r < 100 \<and> \<not> passes_filter (JValueStrategy_init 13 1 True 100) r)
   \<and> (\<exists>r. analyze (JValueStrategy_init 13 1 True 100) ''000001'' ''A''
            (Some (example_frame (Fin (- 2)))) = Inr r
         \<and> is_qualified r \<and> score r = 100 \<and> passes_filter (JValueStrategy_init 13 1 True 100) r)
   \<and> (\<exists>r. analyze (JValueStrategy_init 13 1 True 100) ''000001'' ''A''
            (Some (example_frame (Fin (1 / 2 ^ 53)))) = Inr r
         \<and> is_qualified r \<and> score r = 100 \<and> passes_filter (JValueStrategy_init 13 1 True 100) r)"
proof (intro conjI)
  let ?j = "Fin 6.5"
  note t = j_filter_default_threshold [OF example_frame_valid [of ?j] example_frame_has_J [of ?j],
      where code = "''000001''" and nm = "''A''" and max_j = 13 and w = 1]
  from t obtain latest
    where l: "get_latest_data (Some (example_frame ?j)) = Inr (Some latest)"
      and main: "J latest \<noteq> NaN \<and> (13::real) \<noteq> 0 \<longrightarrow>
              (\<exists>r. analyze (JValueStrategy_init 13 1 True 100) ''000001'' ''A''
                     (Some (example_frame ?j)) = Inr r
                 \<and> (passes_filter (JValueStrategy_init 13 1 True 100) r
                      \<longleftrightarrow> is_qualified r \<and> score r = 100)
                 \<and> (passes_filter (JValueStrategy_init 13 1 True 100) r
                      \<longleftrightarrow> J latest < Fin 13
                          \<and> (J latest \<le> Fin 0
                             \<or> (\<exists>j. J latest = Fin j
                                   \<and> round64 (round64 (j / 13) * 90) \<le> pow2 (- 47))))
                 \<and> (0 < (13::real) \<longrightarrow>
                       (J latest \<le> Fin 0 \<longrightarrow>
                          is_qualified r \<and> score r = 100
                        \<and> passes_filter (JValueStrategy_init 13 1 True 100) r)
                     \<and> (\<forall>j. J latest = Fin j \<and> 0 < j \<and> j \<le> 13 * pow2 (- 54) \<longrightarrow>
                          is_qualified r \<and> score r = 100
                        \<and> passes_filter (JValueStrategy_init 13 1 True 100) r)
                     \<and> (\<forall>j. J latest = Fin j \<and> 13 * pow2 (- 53) \<le> j \<longrightarrow>
                          score r < 100
                        \<and> \<not> passes_filter (JValueStrategy_init 13 1 True 100) r)))"
    by (elim exE conjE)
  from l have le: "latest = example_bar 20240108 10 ?j" by (simp add: example_frame_latest)
  have jl: "J latest = ?j" unfolding le by (rule example_bar_J)
  have pre: "J latest \<noteq> NaN \<and> (13::real) \<noteq> 0" by (simp add: jl)
  from mp [OF main pre] obtain r
    where r: "analyze (JValueStrategy_init 13 1 True 100) ''000001'' ''A''
                (Some (example_frame ?j)) = Inr r"
      and p3: "0 < (13::real) \<longrightarrow>
                       (J latest \<le> Fin 0 \<longrightarrow>
                          is_qualified r \<and> score r = 100
                        \<and> passes_filter (JValueStrategy_init 13 1 True 100) r)
                     \<and> (\<forall>j. J latest = Fin j \<and> 0 < j \<and> j \<le> 13 * pow2 (- 54) \<longrightarrow>
                          is_qualified r \<and> score r = 100
                        \<and> passes_filter (JValueStrategy_init 13 1 True 100) r)
                     \<and> (\<forall>j. J latest = Fin j \<and> 13 * pow2 (- 53) \<le> j \<longrightarrow>
                          score r < 100
                        \<and> \<not> passes_filter (JValueStrategy_init 13 1 True 100) r)"
    by (elim exE conjE)
  have pos: "0 < (13::real)" by simp
  have h: "J latest = Fin 6.5 \<and> 13 * pow2 (- 53) \<le> (6.5::real)" by (simp add: jl pow2_def)
  from mp [OF spec [OF mp [OF p3 pos, THEN conjunct2, THEN conjunct2], of "6.5"] h]
  have f: "score r < 100 \<and> \<not> passes_filter (JValueStrategy_init 13 1 True 100) r" .
  with r show "\<exists>r. analyze (JValueStrategy_init 13 1 True 100) ''000001'' ''A''
            (Some (example_frame (Fin 6.5))) = Inr r
         \<and> score r < 100 \<and> \<not> passes_filter (JValueStrategy_init 13 1 True 100) r"
    by (intro exI [of _ r] conjI) simp_all
next
  let ?j = "Fin (- 2)"
  note t = j_filter_default_threshold [OF example_frame_valid [of ?j] example_frame_has_J [of ?j],
      where code = "''000001''" and nm = "''A''" and max_j = 13 and w = 1]
  from t obtain latest
    where l: "get_latest_data (Some (example_frame ?j)) = Inr (Some latest)"
      and main: "J latest \<noteq> NaN \<and> (13::real) \<noteq> 0 \<longrightarrow>
              (\<exists>r. analyze (JValueStrategy_init 13 1 True 100) ''000001'' ''A''
                     (Some (example_frame ?j)) = Inr r
                 \<and> (passes_filter (JValueStrategy_init 13 1 True 100) r
                      \<longleftrightarrow> is_qualified r \<and> score r = 100)
                 \<and> (passes_filter (JValueStrategy_init 13 1 True 100) r
                      \<longleftrightarrow> J latest < Fin 13
                          \<and> (J latest \<le> Fin 0
                             \<or> (\<exists>j. J latest = Fin j
                                   \<and> round64 (round64 (j / 13) * 90) \<le> pow2 (- 47))))
                 \<and> (0 < (13::real) \<longrightarrow>
                       (J latest \<le> Fin 0 \<longrightarrow>
                          is_qualified r \<and> score r = 100
                        \<and> passes_filter (JValueStrategy_init 13 1 True 100) r)
                     \<and> (\<forall>j. J latest = Fin j \<and> 0 < j \<and> j \<le> 13 * pow2 (- 54) \<longrightarrow>
                          is_qualified r \<and> score r = 100
                        \<and> passes_filter (JValueStrategy_init 13 1 True 100) r)
                     \<and> (\<forall>j. J latest = Fin j \<and> 13 * pow2 (- 53) \<le> j \<longrightarrow>
                          score r < 100
                        \<and> \<not> passes_filter (JValueStrategy_init 13 1 True 100) r)))"
    by (elim exE conjE)
  from l have le: "latest = example_bar 20240108 10 ?j" by (simp add: example_frame_latest)
  have jl: "J latest = ?j" unfolding le by (rule example_bar_J)
  have pre: "J latest \<noteq> NaN \<and> (13::real) \<noteq> 0" by (simp add: jl)
  from mp [OF main pre] obtain r
    where r: "analyze (JValueStrategy_init 13 1 True 100) ''000001'' ''A''
                (Some (example_frame ?j)) = Inr r"
      and p3: "0 < (13::real) \<longrightarrow>
                       (J latest \<le> Fin 0 \<longrightarrow>
                          is_qualified r \<and> score r = 100
                        \<and> passes_filter (JValueStrategy_init 13 1 True 100) r)
                     \<and> (\<forall>j. J latest = Fin j \<and> 0 < j \<and> j \<le> 13 * pow2 (- 54) \<longrightarrow>
                          is_qualified r \<and> score r = 100
                        \<and> passes_filter (JValueStrategy_init 13 1 True 100) r)
                     \<and> (\<forall>j. J latest = Fin j \<and> 13 * pow2 (- 53) \<le> j \<longrightarrow>
                          score r < 100
                        \<and> \<not> passes_filter (JValueStrategy_init 13 1 True 100) r)"
    by (elim exE conjE)
  have pos: "0 < (13::real)" by simp
  have h: "J latest \<le> Fin 0" by (simp add: jl npfloat_ops)
  from mp [OF mp [OF p3 pos, THEN conjunct1] h]
  have f: "is_qualified r \<and> score r = 100 \<and> passes_filter (JValueStrategy_init 13 1 True 100) r" .
  with r show "\<exists>r. analyze (JValueStrategy_init 13 1 True 100) ''000001'' ''A''
            (Some (example_frame (Fin (- 2)))) = Inr r
         \<and> is_qualified r \<and> score r = 100 \<and> passes_filter (JValueStrategy_init 13 1 True 100) r"
    by (intro exI [of _ r] conjI) simp_all
next
  let ?j = "Fin (1 / 2 ^ 53)"
  note t = j_filter_default_threshold [OF example_frame_valid [of ?j] example_frame_has_J [of ?j],
      where code = "''000001''" and nm = "''A''" and max_j = 13 and w = 1]
  from t obtain latest
    where l: "get_latest_data (Some (example_frame ?j)) = Inr (Some latest)"
      and main: "J latest \<noteq> NaN \<and> (13::real) \<noteq> 0 \<longrightarrow>
              (\<exists>r. analyze (JValueStrategy_init 13 1 True 100) ''000001'' ''A''
                     (Some (example_frame ?j)) = Inr r
                 \<and> (passes_filter (JValueStrategy_init 13 1 True 100) r
                      \<longleftrightarrow> is_qualified r \<and> score r = 100)
                 \<and> (passes_filter (JValueStrategy_init 13 1 True 100) r
                      \<longleftrightarrow> J latest < Fin 13
                          \<and> (J latest \<le> Fin 0
                             \<or> (\<exists>j. J latest = Fin j
                                   \<and> round64 (round64 (j / 13) * 90) \<le> pow2 (- 47))))
                 \<and> (0 < (13::real) \<longrightarrow>
                       (J latest \<le> Fin 0 \<longrightarrow>
                          is_qualified r \<and> score r = 100
                        \<and> passes_filter (JValueStrategy_init 13 1 True 100) r)
                     \<and> (\<forall>j. J latest = Fin j \<and> 0 < j \<and> j \<le> 13 * pow2 (- 54) \<longrightarrow>
                          is_qualified r \<and> score r = 100
                        \<and> passes_filter (JValueStrategy_init 13 1 True 100) r)
                     \<and> (\<forall>j. J latest = Fin j \<and> 13 * pow2 (- 53) \<le> j \<longrightarrow>
                          score r < 100
                        \<and> \<not> passes_filter (JValueStrategy_init 13 1 True 100) r)))"
    by (elim exE conjE)
  from l have le: "latest = example_bar 20240108 10 ?j" by (simp add: example_frame_latest)
  have jl: "J latest = ?j" unfolding le by (rule example_bar_J)
  have pre: "J latest \<noteq> NaN \<and> (13::real) \<noteq> 0" by (simp add: jl)
  from mp [OF main pre] obtain r
    where r: "analyze (JValueStrategy_init 13 1 True 100) ''000001'' ''A''
                (Some (example_frame ?j)) = Inr r"
      and p3: "0 < (13::real) \<longrightarrow>
                       (J latest \<le> Fin 0 \<longrightarrow>
                          is_qualified r \<and> score r = 100
                        \<and> passes_filter (JValueStrategy_init 13 1 True 100) r)
                     \<and> (\<forall>j. J latest = Fin j \<and> 0 < j \<and> j \<le> 13 * pow2 (- 54) \<longrightarrow>
                          is_qualified r \<and> score r = 100
                        \<and> passes_filter (JValueStrategy_init 13 1 True 100) r)
                     \<and> (\<forall>j. J latest = Fin j \<and> 13 * pow2 (- 53) \<le> j \<longrightarrow>
                          score r < 100
                        \<and> \<not> passes_filter (JValueStrategy_init 13 1 True 100) r)"
    by (elim exE conjE)
  have pos: "0 < (13::real)" by simp
  have h: "J latest = Fin (1 / 2 ^ 53) \<and> 0 < (1 / 2 ^ 53 :: real)
             \<and> (1 / 2 ^ 53 :: real) \<le> 13 * pow2 (- 54)"
    by (simp add: jl pow2_def)
  from mp [OF spec [OF mp [OF p3 pos, THEN conjunct2, THEN conjunct1], of "1 / 2 ^ 53"] h]
  have f: "is_qualified r \<and> score r = 100 \<and> passes_filter (JValueStrategy_init 13 1 True 100) r" .
  with r show "\<exists>r. analyze (JValueStrategy_init 13 1 True 100) ''000001'' ''A''
            (Some (example_frame (Fin (1 / 2 ^ 53)))) = Inr r
         \<and> is_qualified r \<and> score r = 100 \<and> passes_filter (JValueStrategy_init 13 1 True 100) r"
    by (intro exI [of _ r] conjI) simp_all
qed

subsection \<open>The verdict of the volume/price strategy\<close>

text \<open>
  What \<^verbatim>\<open>_analyze_volume_price_pattern\<close> returns, when it returns a dictionary: the
  qualification is the conjunction of three negated comparisons, the recorded conditions
  are the three positive ones, and the two differ on NaN. An average up-day ratio of NaN
  with an average down-day ratio at most 1 (and not 0) qualifies.
\<close>

lemma analyze_volume_price_pattern_fields:
  assumes "analyze_volume_price_pattern d p c data = Some ar"
  shows "is_qualified_ar ar
           = (\<not> volume_contrast ar < Fin c \<and> \<not> avg_vol_ratio_up ar < Fin 1
              \<and> \<not> Fin 1 < avg_vol_ratio_down ar)"
    and "cond_volume_contrast ar = (Fin c \<le> volume_contrast ar)"
    and "cond_up_day_volume ar = (Fin 1 \<le> avg_vol_ratio_up ar)"
    and "cond_down_day_volume ar = (avg_vol_ratio_down ar \<le> Fin 1)"
    and "volume_contrast ar
           = (if avg_vol_ratio_down ar \<noteq> Fin 0
              then avg_vol_ratio_up ar / avg_vol_ratio_down ar else Fin 0)"
    and "3 \<le> up_days_count ar" and "3 \<le> down_days_count ar"
proof -
  from assms have a: "\<not> (length (filter (\<lambda>(pc, r). Fin p < pc)
            (zip (pct_change (map close (tail d (rows data))))
               (map2 (\<lambda>v ma. Fin v / ma) (map vol (tail d (rows data)))
                  (rolling_mean 5 (map vol (tail d (rows data))))))) < 3
        \<or> length (filter (\<lambda>(pc, r). pc < Fin (- p))
            (zip (pct_change (map close (tail d (rows data))))
               (map2 (\<lambda>v ma. Fin v / ma) (map vol (tail d (rows data)))
                  (rolling_mean 5 (map vol (tail d (rows data))))))) < 3)"
    unfolding analyze_volume_price_pattern_def Let_def by (rule contrapos_pn) simp
  from assms have e: "Some ar = analyze_volume_price_pattern d p c data" by simp
  show "is_qualified_ar ar
           = (\<not> volume_contrast ar < Fin c \<and> \<not> avg_vol_ratio_up ar < Fin 1
              \<and> \<not> Fin 1 < avg_vol_ratio_down ar)"
    and "cond_volume_contrast ar = (Fin c \<le> volume_contrast ar)"
    and "cond_up_day_volume ar = (Fin 1 \<le> avg_vol_ratio_up ar)"
    and "cond_down_day_volume ar = (avg_vol_ratio_down ar \<le> Fin 1)"
    and "volume_contrast ar
           = (if avg_vol_ratio_down ar \<noteq> Fin 0
              then avg_vol_ratio_up ar / avg_vol_ratio_down ar else Fin 0)"
    and "3 \<le> up_days_count ar" and "3 \<le> down_days_count ar"
    using e a unfolding analyze_volume_price_pattern_def Let_def
    by (simp_all only: if_not_P option.inject) simp_all
qed

lemma nan_up_ratio_qualifies:
  assumes "analyze_volume_price_pattern d p c data = Some ar"
      and "avg_vol_ratio_up ar = NaN"
      and "avg_vol_ratio_down ar \<le> Fin 1" "avg_vol_ratio_down ar \<noteq> Fin 0"
  shows "is_qualified_ar ar" "volume_contrast ar = NaN"
        "\<not> cond_volume_contrast ar" "\<not> cond_up_day_volume ar"
proof -
  note f = analyze_volume_price_pattern_fields [OF assms(1)]
  from f(5) assms(2,4) show vc: "volume_contrast ar = NaN" by (simp add: npfloat_ops)
  from assms(3) have "\<not> Fin 1 < avg_vol_ratio_down ar"
    by (cases "avg_vol_ratio_down ar") (simp_all add: npfloat_ops)
  with f(1) vc assms(2) show "is_qualified_ar ar" by (simp add: npfloat_ops)
  from f(2) vc show "\<not> cond_volume_contrast ar" by (simp add: npfloat_ops)
  from f(3) assms(2) show "\<not> cond_up_day_volume ar" by (simp add: npfloat_ops)
qed

text \<open>
  The analysis of the thirty-bar table, column by column. The rolling mean is taken on
  the 20 analysed bars, after \<^verbatim>\<open>tail(days_to_analyze)\<close> has dropped the five extra bars
  that \<^verbatim>\<open>analyze\<close> keeps for it, so that the volume ratio of the first four analysed
  bars is NaN.
\<close>

lemma early_rise_length: "length (rows early_rise_frame) = 30"
  by (simp add: early_rise_frame_def early_rise_rows_def)

lemma early_rise_sorted: "sort_key trade_date (rows early_rise_frame) = rows early_rise_frame"
  by (rule sort_key_id_if_sorted)
     (simp add: early_rise_frame_def early_rise_rows_def price_volume_bar_def)

lemma early_rise_window:
  "tail 20 (tail 25 (rows early_rise_frame)) = map price_volume_bar (drop 10 early_rise_rows)"
  by (simp add: tail_def early_rise_frame_def drop_map) (simp add: early_rise_rows_def)

lemma early_rise_closes:
  "map close (map price_volume_bar (drop 10 early_rise_rows))
     = [100, 102, 105, 108, 106, 104, 102, 102, 102, 102, 102, 102, 102, 102, 102, 102, 102,
        102, 102, 102]"
  by (simp add: early_rise_rows_def price_volume_bar_def)

lemma early_rise_vols:
  "map vol (map price_volume_bar (drop 10 early_rise_rows))
     = [1000, 1000, 1000, 1000, 500, 500, 500, 1000, 1000, 1000, 1000, 1000, 1000, 1000, 1000,
        1000, 1000, 1000, 1000, 1000]"
  by (simp add: early_rise_rows_def price_volume_bar_def)

lemma early_rise_price_change:
  "pct_change [100, 102, 105, 108, 106, 104, 102, 102, 102, 102, 102, 102, 102, 102, 102, 102,
               102, 102, 102, 102]
     = [NaN, Fin (1 / 50), Fin (1 / 34), Fin (1 / 35), Fin (- (1 / 54)), Fin (- (1 / 53)),
        Fin (- (1 / 52)), Fin 0, Fin 0, Fin 0, Fin 0, Fin 0, Fin 0, Fin 0, Fin 0, Fin 0,
        Fin 0, Fin 0, Fin 0, Fin 0]"
  by (simp add: npfloat_ops)

lemma upt_20: "[0..<20] = [0, 1, 2, 3, 4, 5, 6, 7, 8, 9, 10, 11, 12, 13, 14, 15, 16, 17, 18, 19]"
  by (simp add: upt_rec)

lemma early_rise_volume_ma:
  "rolling_mean 5 [1000, 1000, 1000, 1000, 500, 500, 500, 1000, 1000, 1000, 1000, 1000, 1000,
                   1000, 1000, 1000, 1000, 1000, 1000, 1000]
     = [NaN, NaN, NaN, NaN, Fin 900, Fin 800, Fin 700, Fin 700, Fin 700, Fin 800, Fin 900,
        Fin 1000, Fin 1000, Fin 1000, Fin 1000, Fin 1000, Fin 1000, Fin 1000, Fin 1000,
        Fin 1000]"
  by (simp add: rolling_mean_def upt_20)

lemma early_rise_volume_ratio:
  "map2 (\<lambda>v ma. Fin v / ma)
     [1000, 1000, 1000, 1000, 500, 500, 500, 1000, 1000, 1000, 1000, 1000, 1000,
      1000, 1000, 1000, 1000, 1000, 1000, 1000]
     [NaN, NaN, NaN, NaN, Fin 900, Fin 800, Fin 700, Fin 700, Fin 700, Fin 800, Fin 900,
      Fin 1000, Fin 1000, Fin 1000, Fin 1000, Fin 1000, Fin 1000, Fin 1000, Fin 1000,
      Fin 1000]
     = [NaN, NaN, NaN, NaN, Fin (5 / 9), Fin (5 / 8), Fin (5 / 7), Fin (10 / 7), Fin (10 / 7),
        Fin (5 / 4), Fin (10 / 9), Fin 1, Fin 1, Fin 1, Fin 1, Fin 1, Fin 1, Fin 1, Fin 1,
        Fin 1]"
  by (simp add: npfloat_ops)

lemma early_rise_recent:
  "close (last (tail 5 (map price_volume_bar (drop 10 early_rise_rows)))) = 102"
  "close (hd (tail 5 (map price_volume_bar (drop 10 early_rise_rows)))) = 102"
  "last (map price_volume_bar (drop 10 early_rise_rows)) = price_volume_bar (20240130, 102, 1000)"
  by (simp_all add: tail_def early_rise_rows_def price_volume_bar_def)

lemma early_rise_analysis:
  "analyze_volume_price_pattern 20 0.01 1.2
     (early_rise_frame\<lparr>rows := tail 25 (rows early_rise_frame)\<rparr>)
   = Some \<lparr> is_qualified_ar = True, up_days_count = 3, down_days_count = 3,
              avg_vol_ratio_up = NaN, avg_vol_ratio_down = Fin (955 / 1512),
              volume_contrast = NaN, recent_return_5d = Fin 0, j_value_ar = Fin 0,
              cond_volume_contrast = False, cond_up_day_volume = False,
              cond_down_day_volume = True, param_days_to_analyze = 20,
              param_min_price_change = 0.01, param_min_volume_contrast = 1.2 \<rparr>"
proof -
  have cols: "columns (early_rise_frame\<lparr>rows := tail 25 (rows early_rise_frame)\<rparr>)
               = [''trade_date'', ''high'', ''low'', ''close'', ''vol'']"
    by (simp add: early_rise_frame_def)
  have rws: "rows (early_rise_frame\<lparr>rows := tail 25 (rows early_rise_frame)\<rparr>)
               = tail 25 (rows early_rise_frame)"
    by simp
  show ?thesis
    unfolding analyze_volume_price_pattern_def Let_def
    unfolding rws early_rise_window early_rise_closes early_rise_vols
        early_rise_price_change early_rise_volume_ma early_rise_volume_ratio
        early_rise_recent cols
    by (simp add: mean_skipna_def isna_def npfloat_ops)
qed

lemma early_rise_valid: "validate_data (Some early_rise_frame) 30"
  by (simp add: validate_data_def df_empty_def early_rise_length)
     (simp add: early_rise_frame_def early_rise_rows_def)

lemma early_rise_sort:
  "sort_values_trade_date early_rise_frame = Inr early_rise_frame"
  by (simp add: sort_values_trade_date_def early_rise_sorted) (simp add: early_rise_frame_def)

lemma early_rise_columns:
  "columns early_rise_frame = [''trade_date'', ''high'', ''low'', ''close'', ''vol'']"
  by (simp add: early_rise_frame_def)

lemma early_rise_tail_length: "length (tail 25 (rows early_rise_frame)) = 25"
  by (simp add: tail_def early_rise_length)

lemma analyze_Volume:
  "kind self = VolumePatternStrategy d p c \<Longrightarrow>
   analyze self code nm data = VolumePatternStrategy_analyze self d p c code nm data"
  by (simp add: analyze_def)

lemma VolumePatternStrategy_init_kind:
  "kind (VolumePatternStrategy_init d p c w) = VolumePatternStrategy d p c"
  by (simp add: VolumePatternStrategy_init_def)

text \<open>
  Claim C5 says that the verdict qualifies iff there are at least three up-days and
  three down-days and the three conditions hold: contrast at least
  \<^verbatim>\<open>min_volume_contrast\<close>, average up-day ratio at least 1, average down-day ratio at most
  1. The code sets \<^verbatim>\<open>conditions_met\<close> to false by the three opposite comparisons
  (\<^verbatim>\<open><\<close>, \<^verbatim>\<open><\<close>, \<^verbatim>\<open>>\<close>), which are all false on NaN. On the thirty-bar table the three
  up-days are bars 1 to 3 of the analysed window, whose volume ratios are NaN: the
  average up-day ratio and the contrast are NaN, neither condition on them holds (the
  code's own \<^verbatim>\<open>condition_scores\<close> records both as false), and yet the verdict qualifies,
  with the score 20 of the down-day ratio alone.
\<close>

theorem volume_pattern_nan_ratio_qualifies:
  "\<exists>r ar. analyze (VolumePatternStrategy_init 20 0.01 1.2 1) ''000001'' ''A''
             (Some early_rise_frame) = Inr r
        \<and> details r = VolumeDetails ar
        \<and> up_days_count ar = 3 \<and> down_days_count ar = 3
        \<and> avg_vol_ratio_up ar = NaN \<and> volume_contrast ar = NaN
        \<and> \<not> Fin 1.2 \<le> volume_contrast ar \<and> \<not> Fin 1 \<le> avg_vol_ratio_up ar
        \<and> is_qualified r \<and> score r = 20"
proof -
  let ?ar = "\<lparr> is_qualified_ar = True, up_days_count = 3, down_days_count = 3,
              avg_vol_ratio_up = NaN, avg_vol_ratio_down = Fin (955 / 1512),
              volume_contrast = NaN, recent_return_5d = Fin 0, j_value_ar = Fin 0,
              cond_volume_contrast = False, cond_up_day_volume = False,
              cond_down_day_volume = True, param_days_to_analyze = 20,
              param_min_price_change = 0.01, param_min_volume_contrast = 1.2 \<rparr>"
  have sc: "calculate_score 1.2 ?ar = Fin 20"
    by (simp add: calculate_score_def contrast_points_def up_points_def down_points_def
        py_min_def Let_def npfloat_ops)
  have cf: "calculate_confidence ?ar = Fin (13 / 20)"
    by (simp add: calculate_confidence_def py_min_def Let_def npfloat_ops)
  have "\<exists>r. VolumePatternStrategy_analyze (VolumePatternStrategy_init 20 0.01 1.2 1) 20 0.01 1.2
           ''000001'' ''A'' (Some early_rise_frame) = Inr r
         \<and> details r = VolumeDetails ?ar \<and> is_qualified r \<and> score r = 20"
    unfolding VolumePatternStrategy_analyze_def
    using early_rise_valid early_rise_analysis sc cf
    by (simp add: early_rise_columns early_rise_sort early_rise_tail_length
        StrategyResult_new_def npfloat_ops Let_def)
  then obtain r where r: "VolumePatternStrategy_analyze (VolumePatternStrategy_init 20 0.01 1.2 1)
           20 0.01 1.2 ''000001'' ''A'' (Some early_rise_frame) = Inr r"
    and d: "details r = VolumeDetails ?ar" and q: "is_qualified r" and s: "score r = 20"
    by (elim exE conjE)
  have a: "analyze (VolumePatternStrategy_init 20 0.01 1.2 1) ''000001'' ''A''
             (Some early_rise_frame) = Inr r"
    by (simp only: analyze_Volume [OF VolumePatternStrategy_init_kind] r)
  show ?thesis
    using a d q s by (intro exI [of _ r] exI [of _ ?ar]) (simp add: npfloat_ops)
qed

subsection \<open>Aggregation of the scores\<close>

lemma zip_scores_weights:
  "map2 (\<lambda>sc w. sc * w) (map snd sd) (map f (map fst sd)) = map (\<lambda>(n, sc). sc * f n) sd"
  by (induction sd) auto

lemma calculate_scores_weighted_average:
  assumes "scoring_method self = ''weighted_average''" "sd \<noteq> []"
  shows "calculate_scores self sd wd =
           Inr (sum_list (map snd sd) / real (length sd),
                if 0 < sum_list (map (\<lambda>(n, sc). dict_get wd n 1) sd)
                then sum_list (map (\<lambda>(n, sc). sc * dict_get wd n 1) sd)
                       / sum_list (map (\<lambda>(n, sc). dict_get wd n 1) sd)
                else sum_list (map snd sd) / real (length sd))"
proof -
  have w: "map (\<lambda>n. dict_get wd n 1) (map fst sd) = map (\<lambda>(n, sc). dict_get wd n 1) sd"
    by (induction sd) auto
  show ?thesis
    using assms
    by (simp add: calculate_scores_def Let_def zip_scores_weights [of _ "\<lambda>n. dict_get wd n 1"]
        w [symmetric] del: map_map)
qed

lemma calculate_scores_total:
  assumes "calculate_scores self sd wd = Inr (t, w)" "sd \<noteq> []"
  shows "t = sum_list (map snd sd) / real (length sd)"
  using assms
  by (auto simp: calculate_scores_def Let_def split: if_splits)

lemma calculate_scores_returns:
  assumes "sd \<noteq> []"
  shows "calculate_scores self sd wd =
           (if scoring_method self = ''multiplicative'' \<and> list_all (\<lambda>sc. 0 < sc) (map snd sd)
               \<and> sum_list (map (\<lambda>n. dict_get wd n 1) (map fst sd)) = 0
            then Inl ZeroDivisionError
            else Inr (sum_list (map snd sd) / real (length sd),
                      snd (projr (calculate_scores self sd wd))))"
  using assms
  by (auto simp: calculate_scores_def Let_def)

lemma equal_weights_80_60:
  assumes "a \<noteq> b"
  shows "calculate_scores (ScoringEngine_init ''weighted_average'') [(a, 80), (b, 60)]
           [(a, w), (b, w)] = Inr (70, 70)"
proof -
  have m: "scoring_method (ScoringEngine_init ''weighted_average'') = ''weighted_average''"
    by (simp add: ScoringEngine_init_def)
  have "calculate_scores (ScoringEngine_init ''weighted_average'') [(a, 80), (b, 60)]
           [(a, w), (b, w)]
        = Inr (70, if 0 < w + w then (80 * w + 60 * w) / (w + w) else 70)"
    using assms by (subst calculate_scores_weighted_average [OF m]) (simp_all add: dict_get_def)
  moreover have "0 < w + w \<Longrightarrow> (80 * w + 60 * w) / (w + w) = 70"
    by (simp add: field_simps)
  ultimately show ?thesis by simp
qed

text \<open>
  Claim C6. For a non-empty dictionary of scores \<open>sd\<close> and any dictionary of weights \<open>wd\<close>
  (a strategy without an entry weighs 1): under the \<^verbatim>\<open>weighted_average\<close> method
  \<^verbatim>\<open>_calculate_scores\<close> returns the simple mean as the total score and, as the weighted
  score, the sum of score times weight divided by the sum of the weights when that sum
  is positive, the simple mean otherwise. Under every method, a returned total score is
  the simple mean of the scores; and the function returns under every method, the one
  exception being the \<^verbatim>\<open>multiplicative\<close> method with positive scores and weight sum 0,
  where \<^verbatim>\<open>1 / sum(weights)\<close> raises. Two strategies of scores 80 and 60 with one and
  the same weight give the total score 70 and the weighted score 70.
\<close>

theorem weighted_average_and_total:
  assumes ne: "sd \<noteq> []"
  shows
   "(scoring_method self = ''weighted_average'' \<longrightarrow>
       calculate_scores self sd wd =
         Inr (sum_list (map snd sd) / real (length sd),
              if 0 < sum_list (map (\<lambda>(n, sc). dict_get wd n 1) sd)
              then sum_list (map (\<lambda>(n, sc). sc * dict_get wd n 1) sd)
                     / sum_list (map (\<lambda>(n, sc). dict_get wd n 1) sd)
              else sum_list (map snd sd) / real (length sd)))
    \<and> (\<forall>t w. calculate_scores self sd wd = Inr (t, w) \<longrightarrow>
           t = sum_list (map snd sd) / real (length sd))
    \<and> ((\<exists>w. calculate_scores self sd wd = Inr (sum_list (map snd sd) / real (length sd), w))
        \<or> (scoring_method self = ''multiplicative''
            \<and> list_all (\<lambda>sc. 0 < sc) (map snd sd)
            \<and> sum_list (map (\<lambda>n. dict_get wd n 1) (map fst sd)) = 0
            \<and> calculate_scores self sd wd = Inl ZeroDivisionError))
    \<and> (\<forall>a b w. a \<noteq> b \<longrightarrow>
           calculate_scores (ScoringEngine_init ''weighted_average'') [(a, 80), (b, 60)]
             [(a, w), (b, w)] = Inr (70, 70))"
proof (intro conjI impI allI)
  assume "scoring_method self = ''weighted_average''"
  from calculate_scores_weighted_average [OF this ne]
  show "calculate_scores self sd wd =
         Inr (sum_list (map snd sd) / real (length sd),
              if 0 < sum_list (map (\<lambda>(n, sc). dict_get wd n 1) sd)
              then sum_list (map (\<lambda>(n, sc). sc * dict_get wd n 1) sd)
                     / sum_list (map (\<lambda>(n, sc). dict_get wd n 1) sd)
              else sum_list (map snd sd) / real (length sd))" .
next
  fix t w assume "calculate_scores self sd wd = Inr (t, w)"
  from calculate_scores_total [OF this ne]
  show "t = sum_list (map snd sd) / real (length sd)" .
next
  show "(\<exists>w. calculate_scores self sd wd = Inr (sum_list (map snd sd) / real (length sd), w))
        \<or> (scoring_method self = ''multiplicative''
            \<and> list_all (\<lambda>sc. 0 < sc) (map snd sd)
            \<and> sum_list (map (\<lambda>n. dict_get wd n 1) (map fst sd)) = 0
            \<and> calculate_scores self sd wd = Inl ZeroDivisionError)"
  proof (cases "scoring_method self = ''multiplicative'' \<and> list_all (\<lambda>sc. 0 < sc) (map snd sd)
               \<and> sum_list (map (\<lambda>n. dict_get wd n 1) (map fst sd)) = 0")
    case True
    with calculate_scores_returns [OF ne, of self wd] show ?thesis by simp
  next
    case False
    with calculate_scores_returns [OF ne, of self wd]
    have "calculate_scores self sd wd
            = Inr (sum_list (map snd sd) / real (length sd),
                   snd (projr (calculate_scores self sd wd)))"
      by (simp only: if_False)
    then show ?thesis by (intro disjI1 exI)
  qed
next
  fix a b :: string and w :: real
  assume "a \<noteq> b"
  then show "calculate_scores (ScoringEngine_init ''weighted_average'') [(a, 80), (b, 60)]
             [(a, w), (b, w)] = Inr (70, 70)"
    by (rule equal_weights_80_60)
qed

theorem weighted_average_and_total_witness:
  "calculate_scores (ScoringEngine_init ''weighted_average'')
     [(''j_value'', 80), (''volume'', 60)] [(''j_value'', 0.5), (''volume'', 0.5)] = Inr (70, 70)
   \<and> calculate_scores (ScoringEngine_init ''weighted_average'')
     [(''j_value'', 80), (''volume'', 60)] [(''j_value'', 3), (''volume'', 1)] = Inr (70, 75)
   \<and> calculate_scores (ScoringEngine_init ''weighted_average'')
     [(''j_value'', 80), (''volume'', 60)] [(''j_value'', 0), (''volume'', 0)] = Inr (70, 70)"
proof -
  have ne: "[(''j_value'', 80::real), (''volume'', 60)] \<noteq> []" by simp
  have m: "scoring_method (ScoringEngine_init ''weighted_average'') = ''weighted_average''"
    by (simp add: ScoringEngine_init_def)
  note t = weighted_average_and_total [OF ne, THEN conjunct1, THEN mp, OF m]
  show ?thesis
    by (intro conjI; subst t) (simp_all add: dict_get_def)
qed

subsection \<open>Ranking\<close>

lemma sort_reverse_stable_descending: "stable_descending key xs (sort_reverse key xs)"
proof -
  have "\<And>k. filter (\<lambda>x. key x = k) (rev (sort_key key (rev xs))) = filter (\<lambda>x. key x = k) xs"
  proof -
    fix k
    have "filter (\<lambda>x. key x = k) (rev (sort_key key (rev xs)))
            = rev (filter (\<lambda>x. key x = k) (sort_key key (rev xs)))" by (simp add: rev_filter)
    also have "\<dots> = rev (filter (\<lambda>x. key x = k) (rev xs))" by (simp only: sort_key_stable)
    also have "\<dots> = filter (\<lambda>x. key x = k) xs" by (simp add: rev_filter)
    finally show "filter (\<lambda>x. key x = k) (rev (sort_key key (rev xs))) = filter (\<lambda>x. key x = k) xs" .
  qed
  then show ?thesis
    by (simp add: stable_descending_def sort_reverse_def rev_map)
qed

lemma keep_stock_iff:
  "keep_stock sort_by min_score min_q ss =
     (min_q \<le> qualified_count ss
      \<and> (sort_by = ''total_score'' \<longrightarrow> min_score \<le> total_score ss)
      \<and> (sort_by = ''weighted_score'' \<longrightarrow> min_score \<le> weighted_score ss))"
  by (auto simp: keep_stock_def)

lemma ranks_of_enumerate:
  "map rank (map (\<lambda>(i, ss). \<lparr> rank = i, stock_score = ss \<rparr>) (zip [1..<Suc (length xs)] xs))
     = [1..<Suc (length xs)]"
  "map stock_score (map (\<lambda>(i, ss). \<lparr> rank = i, stock_score = ss \<rparr>) (zip [1..<Suc (length xs)] xs))
     = xs"
proof -
  have l: "length [1..<Suc (length xs)] = length xs" by (simp only: length_upt diff_Suc_1)
  have a: "map rank (map (\<lambda>(i, ss). \<lparr> rank = i, stock_score = ss \<rparr>) (zip [1..<Suc (length xs)] xs))
        = map fst (zip [1..<Suc (length xs)] xs)"
    by (simp add: case_prod_unfold)
  have b: "map stock_score (map (\<lambda>(i, ss). \<lparr> rank = i, stock_score = ss \<rparr>) (zip [1..<Suc (length xs)] xs))
        = map snd (zip [1..<Suc (length xs)] xs)"
    by (simp add: case_prod_unfold)
  from a l show "map rank (map (\<lambda>(i, ss). \<lparr> rank = i, stock_score = ss \<rparr>) (zip [1..<Suc (length xs)] xs))
     = [1..<Suc (length xs)]" by (simp only: map_fst_zip)
  from b l show "map stock_score (map (\<lambda>(i, ss). \<lparr> rank = i, stock_score = ss \<rparr>) (zip [1..<Suc (length xs)] xs))
     = xs" by (simp only: map_snd_zip)
qed

lemma length_sort_stocks: "length (sort_stocks sort_by xs) = length xs"
  by (simp add: sort_stocks_def sort_reverse_def)

lemma rank_stocks_eq:
  "rank_stocks self stocks sort_by min_score minq =
     map (\<lambda>(i, ss). \<lparr> rank = i, stock_score = ss \<rparr>)
       (zip [1..<Suc (length (sort_stocks sort_by
               (filter (\<lambda>ss. (case minq of None \<Rightarrow> min_qualified_strategies self | Some m \<Rightarrow> m)
                               \<le> qualified_count ss
                            \<and> (sort_by = ''total_score'' \<longrightarrow> min_score \<le> total_score ss)
                            \<and> (sort_by = ''weighted_score'' \<longrightarrow> min_score \<le> weighted_score ss))
                  stocks)))]
            (sort_stocks sort_by
               (filter (\<lambda>ss. (case minq of None \<Rightarrow> min_qualified_strategies self | Some m \<Rightarrow> m)
                               \<le> qualified_count ss
                            \<and> (sort_by = ''total_score'' \<longrightarrow> min_score \<le> total_score ss)
                            \<and> (sort_by = ''weighted_score'' \<longrightarrow> min_score \<le> weighted_score ss))
                  stocks)))"
  by (simp add: rank_stocks_def Let_def keep_stock_iff [abs_def])

lemma example_stock_fields:
  "total_score (example_stock code t w c q) = t"
  "weighted_score (example_stock code t w c q) = w"
  "confidence_ss (example_stock code t w c q) = c"
  "qualified_count (example_stock code t w c q) = q"
  by (simp_all add: example_stock_def qualified_count_def)

text \<open>
  Claim C7, as stated, fails: \<^verbatim>\<open>rank_stocks\<close> compares with \<^verbatim>\<open>min_score\<close> only when the sort
  key is \<^verbatim>\<open>total_score\<close> or \<^verbatim>\<open>weighted_score\<close>. Sorted by \<^verbatim>\<open>confidence\<close> or by
  \<^verbatim>\<open>qualified_count\<close> with \<^verbatim>\<open>min_score = 50\<close>, an entry whose total score, weighted score,
  confidence and qualified count are all below 50 is kept and ranked first.
\<close>

theorem rank_stocks_min_score_counterexample:
  "total_score (example_stock ''A'' 10 10 0.3 1) < 50
   \<and> weighted_score (example_stock ''A'' 10 10 0.3 1) < 50
   \<and> confidence_ss (example_stock ''A'' 10 10 0.3 1) < 50
   \<and> real (qualified_count (example_stock ''A'' 10 10 0.3 1)) < 50
   \<and> rank_stocks (ScoringEngine_init ''weighted_average'') [example_stock ''A'' 10 10 0.3 1]
         ''confidence'' 50 None
       = [\<lparr> rank = 1, stock_score = example_stock ''A'' 10 10 0.3 1 \<rparr>]
   \<and> rank_stocks (ScoringEngine_init ''weighted_average'') [example_stock ''A'' 10 10 0.3 1]
         ''qualified_count'' 50 None
       = [\<lparr> rank = 1, stock_score = example_stock ''A'' 10 10 0.3 1 \<rparr>]"
  by (simp add: example_stock_fields rank_stocks_def keep_stock_def sort_stocks_def
      sort_reverse_def ScoringEngine_init_def)

text \<open>
  Claim C7, amended. \<^verbatim>\<open>rank_stocks\<close> keeps the entries whose number of qualified
  strategies is at least \<^verbatim>\<open>min_qualified_strategies\<close> (the engine's value, 1 by default,
  when none is passed) and, only when the sort key is \<^verbatim>\<open>total_score\<close> or
  \<^verbatim>\<open>weighted_score\<close>, whose score under that key is at least \<^verbatim>\<open>min_score\<close>; for each of the
  four keys the result lists the kept entries in descending order of the key (for
  \<^verbatim>\<open>qualified_count\<close>: the pair of qualified count and weighted score), entries of equal
  key in their input order; and the ranks are 1, 2, ... in that order.
\<close>

theorem rank_stocks_filter_sort_rank:
  "map rank (rank_stocks self stocks sort_by min_score minq)
     = [1..<Suc (length (rank_stocks self stocks sort_by min_score minq))]
   \<and> (\<forall>kept.
         kept = filter (\<lambda>ss. (case minq of None \<Rightarrow> min_qualified_strategies self | Some m \<Rightarrow> m)
                               \<le> qualified_count ss
                          \<and> (sort_by = ''total_score'' \<longrightarrow> min_score \<le> total_score ss)
                          \<and> (sort_by = ''weighted_score'' \<longrightarrow> min_score \<le> weighted_score ss))
                  stocks \<longrightarrow>
         (sort_by = ''total_score'' \<longrightarrow>
            stable_descending total_score kept
              (map stock_score (rank_stocks self stocks sort_by min_score minq)))
       \<and> (sort_by = ''weighted_score'' \<longrightarrow>
            stable_descending weighted_score kept
              (map stock_score (rank_stocks self stocks sort_by min_score minq)))
       \<and> (sort_by = ''qualified_count'' \<longrightarrow>
            stable_descending (\<lambda>x. (qualified_count x, weighted_score x)) kept
              (map stock_score (rank_stocks self stocks sort_by min_score minq)))
       \<and> (sort_by = ''confidence'' \<longrightarrow>
            stable_descending confidence_ss kept
              (map stock_score (rank_stocks self stocks sort_by min_score minq))))
   \<and> min_qualified_strategies (ScoringEngine_init method) = 1"
proof (intro conjI allI impI)
  show "map rank (rank_stocks self stocks sort_by min_score minq)
     = [1..<Suc (length (rank_stocks self stocks sort_by min_score minq))]"
    by (simp only: rank_stocks_eq ranks_of_enumerate length_map length_zip length_upt diff_Suc_1
        min.idem)
next
  show "min_qualified_strategies (ScoringEngine_init method) = 1"
    by (simp add: ScoringEngine_init_def)
next
  fix kept
  assume k: "kept = filter (\<lambda>ss. (case minq of None \<Rightarrow> min_qualified_strategies self | Some m \<Rightarrow> m)
                               \<le> qualified_count ss
                          \<and> (sort_by = ''total_score'' \<longrightarrow> min_score \<le> total_score ss)
                          \<and> (sort_by = ''weighted_score'' \<longrightarrow> min_score \<le> weighted_score ss))
                  stocks"
  have out: "map stock_score (rank_stocks self stocks sort_by min_score minq)
               = sort_stocks sort_by kept"
    by (simp only: rank_stocks_eq ranks_of_enumerate k)
  {
    assume "sort_by = ''total_score''"
    then show "stable_descending total_score kept
              (map stock_score (rank_stocks self stocks sort_by min_score minq))"
      unfolding out by (simp add: sort_stocks_def sort_reverse_stable_descending)
  next
    assume "sort_by = ''weighted_score''"
    then show "stable_descending weighted_score kept
              (map stock_score (rank_stocks self stocks sort_by min_score minq))"
      unfolding out by (simp add: sort_stocks_def sort_reverse_stable_descending)
  next
    assume "sort_by = ''qualified_count''"
    then show "stable_descending (\<lambda>x. (qualified_count x, weighted_score x)) kept
              (map stock_score (rank_stocks self stocks sort_by min_score minq))"
      unfolding out by (simp add: sort_stocks_def sort_reverse_stable_descending)
  next
    assume "sort_by = ''confidence''"
    then show "stable_descending confidence_ss kept
              (map stock_score (rank_stocks self stocks sort_by min_score minq))"
      unfolding out by (simp add: sort_stocks_def sort_reverse_stable_descending)
  }
qed

theorem rank_stocks_filter_sort_rank_witness:
  "rank_stocks (ScoringEngine_init ''weighted_average'')
       [example_stock ''A'' 50 60 0.5 1, example_stock ''B'' 70 80 0.6 1,
        example_stock ''C'' 40 80 0.7 2, example_stock ''D'' 90 20 0.9 1,
        example_stock ''E'' 99 99 0.9 0] ''weighted_score'' 50 None
     = [\<lparr> rank = 1, stock_score = example_stock ''B'' 70 80 0.6 1 \<rparr>,
        \<lparr> rank = 2, stock_score = example_stock ''C'' 40 80 0.7 2 \<rparr>,
        \<lparr> rank = 3, stock_score = example_stock ''A'' 50 60 0.5 1 \<rparr>]
   \<and> stable_descending weighted_score
       [example_stock ''A'' 50 60 0.5 1, example_stock ''B'' 70 80 0.6 1,
        example_stock ''C'' 40 80 0.7 2]
       [example_stock ''B'' 70 80 0.6 1, example_stock ''C'' 40 80 0.7 2,
        example_stock ''A'' 50 60 0.5 1]"
proof -
  let ?stocks = "[example_stock ''A'' 50 60 0.5 1, example_stock ''B'' 70 80 0.6 1,
        example_stock ''C'' 40 80 0.7 2, example_stock ''D'' 90 20 0.9 1,
        example_stock ''E'' 99 99 0.9 0]"
  let ?self = "ScoringEngine_init ''weighted_average''"
  have run: "rank_stocks ?self ?stocks ''weighted_score'' 50 None
     = [\<lparr> rank = 1, stock_score = example_stock ''B'' 70 80 0.6 1 \<rparr>,
        \<lparr> rank = 2, stock_score = example_stock ''C'' 40 80 0.7 2 \<rparr>,
        \<lparr> rank = 3, stock_score = example_stock ''A'' 50 60 0.5 1 \<rparr>]"
    by (simp add: example_stock_fields rank_stocks_def keep_stock_def sort_stocks_def
      sort_reverse_def ScoringEngine_init_def)
  have kept: "[example_stock ''A'' 50 60 0.5 1, example_stock ''B'' 70 80 0.6 1,
        example_stock ''C'' 40 80 0.7 2]
      = filter (\<lambda>ss. (case None of None \<Rightarrow> min_qualified_strategies ?self | Some m \<Rightarrow> m)
                               \<le> qualified_count ss
                          \<and> (''weighted_score'' = ''total_score'' \<longrightarrow> 50 \<le> total_score ss)
                          \<and> (''weighted_score'' = ''weighted_score'' \<longrightarrow> 50 \<le> weighted_score ss))
                  ?stocks"
    by (simp add: example_stock_fields ScoringEngine_init_def)
  note t = rank_stocks_filter_sort_rank [where self = ?self and stocks = ?stocks
      and sort_by = "''weighted_score''" and min_score = 50 and minq = None,
      THEN conjunct2, THEN conjunct1, THEN spec, THEN mp, OF kept,
      THEN conjunct2, THEN conjunct1, THEN mp, OF refl]
  from t have "stable_descending weighted_score
       [example_stock ''A'' 50 60 0.5 1, example_stock ''B'' 70 80 0.6 1,
        example_stock ''C'' 40 80 0.7 2]
       [example_stock ''B'' 70 80 0.6 1, example_stock ''C'' 40 80 0.7 2,
        example_stock ''A'' 50 60 0.5 1]"
    by (simp only: run list.map RankedStock.simps)
  with run show ?thesis by (rule conjI)
qed

subsection \<open>The KDJ loop computes the smoothing recursion\<close>

lemma np_min_Min: "xs \<noteq> [] \<Longrightarrow> np_min xs = Min (set xs)"
proof (cases xs)
  case Nil
  assume "xs \<noteq> []"
  with Nil show ?thesis by simp
next
  case (Cons a list)
  have "np_min (a # list) = fold min list a" by simp
  also have "\<dots> = Min (set (a # list))" by (rule Min.set_eq_fold [symmetric])
  finally show ?thesis using Cons by simp
qed

lemma np_max_Max: "xs \<noteq> [] \<Longrightarrow> np_max xs = Max (set xs)"
proof (cases xs)
  case Nil
  assume "xs \<noteq> []"
  with Nil show ?thesis by simp
next
  case (Cons a list)
  have "np_max (a # list) = fold max list a" by simp
  also have "\<dots> = Max (set (a # list))" by (rule Max.set_eq_fold [symmetric])
  finally show ?thesis using Cons by simp
qed

lemma set_take_drop:
  "set (take m (drop s xs)) = {xs ! k |k. s \<le> k \<and> k < s + m \<and> k < length xs}"
proof (intro equalityI subsetI)
  fix x assume "x \<in> set (take m (drop s xs))"
  then obtain j where j: "j < length (take m (drop s xs))" "x = take m (drop s xs) ! j"
    by (auto simp: in_set_conv_nth)
  then have "j < m" "s + j < length xs" by auto
  moreover from j this have "x = xs ! (s + j)" by simp
  ultimately show "x \<in> {xs ! k |k. s \<le> k \<and> k < s + m \<and> k < length xs}"
    by (intro CollectI exI [of _ "s + j"]) simp
next
  fix x assume "x \<in> {xs ! k |k. s \<le> k \<and> k < s + m \<and> k < length xs}"
  then obtain k where k: "x = xs ! k" "s \<le> k" "k < s + m" "k < length xs" by auto
  then have a: "k - s < length (take m (drop s xs))" by auto
  from k have "take m (drop s xs) ! (k - s) = x" by simp
  with a show "x \<in> set (take m (drop s xs))" by (metis nth_mem)
qed

lemma set_window:
  assumes "i < length xs"
  shows "set (window n i xs) = {xs ! k |k. i + 1 - n \<le> k \<and> k \<le> i}"
proof -
  have "\<And>k. (i + 1 - n \<le> k \<and> k < i + 1 - n + (i + 1 - (i + 1 - n)) \<and> k < length xs)
            = (i + 1 - n \<le> k \<and> k \<le> i)"
    using assms by auto
  then show ?thesis by (simp only: window_def set_take_drop)
qed

lemma window_nonempty: "i < length xs \<Longrightarrow> 0 < n \<Longrightarrow> window n i xs \<noteq> []"
proof -
  assume a: "i < length xs" and n: "0 < n"
  from n have "i + 1 - n \<le> i" by simp
  then have "xs ! i \<in> {xs ! k |k. i + 1 - n \<le> k \<and> k \<le> i}"
    by (intro CollectI exI [of _ i]) simp
  with set_window [OF a, of n] have "xs ! i \<in> set (window n i xs)" by simp
  then show ?thesis by auto
qed

lemma rsv_at_formula:
  assumes "i < length lows" "i < length highs"
  shows "rsv_at closes highs lows i = rsv_formula closes highs lows i"
  using assms
  by (simp add: rsv_at_def rsv_formula_def Let_def np_min_Min np_max_Max window_nonempty
      set_window)

lemma seeded_append:
  "m \<le> length xs \<Longrightarrow> seeded (xs @ [x]) m = seeded xs m"
  by (auto simp: seeded_def nth_append)

lemma seeded_last: "seeded (xs @ [x]) (Suc (length xs)) = x"
  by (simp add: seeded_def)

lemma kdj_recurrence_step:
  assumes r: "kdj_recurrence cs hs ls i kl dl jl"
      and l: "length kl = i" "length dl = i" "length jl = i"
      and i: "i < length cs" "length hs = length cs" "length ls = length cs"
      and k: "k = Fin (2 / 3) * seeded kl i + Fin (1 / 3) * rsv_at cs hs ls i"
      and d: "d = Fin (2 / 3) * seeded dl i + Fin (1 / 3) * k"
      and j: "j = Fin 3 * k - Fin 2 * d"
  shows "kdj_recurrence cs hs ls (Suc i) (kl @ [k]) (dl @ [d]) (jl @ [j])"
  unfolding kdj_recurrence_def
proof (intro allI impI)
  fix m assume m: "m < Suc i"
  show "(kl @ [k]) ! m = Fin (2 / 3) * seeded (kl @ [k]) m + Fin (1 / 3) * rsv_formula cs hs ls m
      \<and> (dl @ [d]) ! m = Fin (2 / 3) * seeded (dl @ [d]) m + Fin (1 / 3) * (kl @ [k]) ! m
      \<and> (jl @ [j]) ! m = Fin 3 * (kl @ [k]) ! m - Fin 2 * (dl @ [d]) ! m"
  proof (cases "m < i")
    case True
    with r have "kl ! m = Fin (2 / 3) * seeded kl m + Fin (1 / 3) * rsv_formula cs hs ls m
      \<and> dl ! m = Fin (2 / 3) * seeded dl m + Fin (1 / 3) * kl ! m
      \<and> jl ! m = Fin 3 * kl ! m - Fin 2 * dl ! m"
      by (simp add: kdj_recurrence_def)
    with True l show ?thesis by (simp add: nth_append seeded_append)
  next
    case False
    with m have mi: "m = i" by simp
    from i have "rsv_at cs hs ls i = rsv_formula cs hs ls i"
      by (intro rsv_at_formula) simp_all
    with k d j l show ?thesis
      unfolding mi by (simp add: nth_append seeded_append)
  qed
qed

lemma kdj_loop_correct:
  assumes "i \<le> length cs" "length hs = length cs" "length ls = length cs"
      and "length kl = i" "length dl = i" "length jl = i"
      and "kp = seeded kl i" "dp = seeded dl i"
      and "kdj_recurrence cs hs ls i kl dl jl"
  shows "\<exists>ks ds js. kdj_loop cs hs ls i (kp, dp, kl, dl, jl) = (ks, ds, js)
           \<and> length ks = length cs \<and> length ds = length cs \<and> length js = length cs
           \<and> kdj_recurrence cs hs ls (length cs) ks ds js"
  using assms
proof (induction "length cs - i" arbitrary: i kp dp kl dl jl)
  case 0
  then have "i = length cs" by simp
  with "0.prems" show ?case by (subst kdj_loop.simps) simp
next
  case (Suc n)
  then have lt: "i < length cs" by simp
  let ?rsv = "rsv_at cs hs ls i"
  let ?k = "Fin (2 / 3) * kp + Fin (1 / 3) * ?rsv"
  let ?d = "Fin (2 / 3) * dp + Fin (1 / 3) * ?k"
  let ?j = "Fin 3 * ?k - Fin 2 * ?d"
  have step: "kdj_recurrence cs hs ls (Suc i) (kl @ [?k]) (dl @ [?d]) (jl @ [?j])"
    using Suc.prems lt by (intro kdj_recurrence_step) simp_all
  from Suc.hyps(2) have n: "n = length cs - Suc i" by simp
  have "\<exists>ks ds js. kdj_loop cs hs ls (Suc i) (?k, ?d, kl @ [?k], dl @ [?d], jl @ [?j]) = (ks, ds, js)
           \<and> length ks = length cs \<and> length ds = length cs \<and> length js = length cs
           \<and> kdj_recurrence cs hs ls (length cs) ks ds js"
    using Suc.prems lt step
    by (intro Suc.hyps(1) [OF n]) (simp_all add: seeded_def nth_append)
  with lt show ?case by (subst kdj_loop.simps) (simp add: Let_def)
qed

lemma kdj_rows_aux:
  assumes "length rs = length ks" "length ks = length ds" "length ds = length js"
  shows "map K (map (\<lambda>(b, k, d, j). b\<lparr>K := k, D := d, J := j\<rparr>) (zip rs (zip ks (zip ds js)))) = ks
    \<and> map D (map (\<lambda>(b, k, d, j). b\<lparr>K := k, D := d, J := j\<rparr>) (zip rs (zip ks (zip ds js)))) = ds
    \<and> map J (map (\<lambda>(b, k, d, j). b\<lparr>K := k, D := d, J := j\<rparr>) (zip rs (zip ks (zip ds js)))) = js
    \<and> map (\<lambda>b. (trade_date b, high b, low b, close b, vol b))
           (map (\<lambda>(b, k, d, j). b\<lparr>K := k, D := d, J := j\<rparr>) (zip rs (zip ks (zip ds js))))
         = map (\<lambda>b. (trade_date b, high b, low b, close b, vol b)) rs
    \<and> length (map (\<lambda>(b, k, d, j). b\<lparr>K := k, D := d, J := j\<rparr>) (zip rs (zip ks (zip ds js))))
         = length rs"
  using assms
  by (induction rs ks ds js rule: list_induct4) simp_all

lemma kdj_rows:
  assumes "length ks = length rs" "length ds = length rs" "length js = length rs"
  shows "map K (map (\<lambda>(b, k, d, j). b\<lparr>K := k, D := d, J := j\<rparr>) (zip rs (zip ks (zip ds js)))) = ks"
    and "map D (map (\<lambda>(b, k, d, j). b\<lparr>K := k, D := d, J := j\<rparr>) (zip rs (zip ks (zip ds js)))) = ds"
    and "map J (map (\<lambda>(b, k, d, j). b\<lparr>K := k, D := d, J := j\<rparr>) (zip rs (zip ks (zip ds js)))) = js"
    and "map (\<lambda>b. (trade_date b, high b, low b, close b, vol b))
           (map (\<lambda>(b, k, d, j). b\<lparr>K := k, D := d, J := j\<rparr>) (zip rs (zip ks (zip ds js))))
         = map (\<lambda>b. (trade_date b, high b, low b, close b, vol b)) rs"
    and "length (map (\<lambda>(b, k, d, j). b\<lparr>K := k, D := d, J := j\<rparr>) (zip rs (zip ks (zip ds js))))
         = length rs"
proof -
  from assms have "length rs = length ks" "length ks = length ds" "length ds = length js"
    by simp_all
  note a = kdj_rows_aux [OF this]
  from a show "map K (map (\<lambda>(b, k, d, j). b\<lparr>K := k, D := d, J := j\<rparr>) (zip rs (zip ks (zip ds js)))) = ks"
    by (rule conjunct1)
  from a show "map D (map (\<lambda>(b, k, d, j). b\<lparr>K := k, D := d, J := j\<rparr>) (zip rs (zip ks (zip ds js)))) = ds"
    by (rule conjunct2 [THEN conjunct1])
  from a show "map J (map (\<lambda>(b, k, d, j). b\<lparr>K := k, D := d, J := j\<rparr>) (zip rs (zip ks (zip ds js)))) = js"
    by (rule conjunct2 [THEN conjunct2, THEN conjunct1])
  from a show "map (\<lambda>b. (trade_date b, high b, low b, close b, vol b))
           (map (\<lambda>(b, k, d, j). b\<lparr>K := k, D := d, J := j\<rparr>) (zip rs (zip ks (zip ds js))))
         = map (\<lambda>b. (trade_date b, high b, low b, close b, vol b)) rs"
    by (rule conjunct2 [THEN conjunct2, THEN conjunct2, THEN conjunct1])
  from a show "length (map (\<lambda>(b, k, d, j). b\<lparr>K := k, D := d, J := j\<rparr>) (zip rs (zip ks (zip ds js))))
         = length rs"
    by (rule conjunct2 [THEN conjunct2, THEN conjunct2, THEN conjunct2])
qed

lemma calculate_kdj_result:
  assumes cols: "''trade_date'' \<in> set (columns df)" "''close'' \<in> set (columns df)"
                "''high'' \<in> set (columns df)" "''low'' \<in> set (columns df)"
  shows "\<exists>ks ds js.
           length ks = length (rows df) \<and> length ds = length (rows df)
         \<and> length js = length (rows df)
         \<and> kdj_recurrence (map close (sort_key trade_date (rows df)))
               (map high (sort_key trade_date (rows df)))
               (map low (sort_key trade_date (rows df))) (length (rows df)) ks ds js
         \<and> calculate_kdj df =
               Inr \<lparr> columns = add_columns (columns df) [''K'', ''D'', ''J''],
                      rows = map (\<lambda>(b, k, d, j). b\<lparr>K := k, D := d, J := j\<rparr>)
                               (zip (sort_key trade_date (rows df)) (zip ks (zip ds js))) \<rparr>"
proof -
  let ?rs = "sort_key trade_date (rows df)"
  have "\<exists>ks ds js. kdj_loop (map close ?rs) (map high ?rs) (map low ?rs) 0
                         (Fin 50, Fin 50, [], [], []) = (ks, ds, js)
           \<and> length ks = length (map close ?rs) \<and> length ds = length (map close ?rs)
           \<and> length js = length (map close ?rs)
           \<and> kdj_recurrence (map close ?rs) (map high ?rs) (map low ?rs)
                 (length (map close ?rs)) ks ds js"
    by (rule kdj_loop_correct) (simp_all add: seeded_def kdj_recurrence_def)
  then obtain ks ds js
    where loop: "kdj_loop (map close ?rs) (map high ?rs) (map low ?rs) 0
                         (Fin 50, Fin 50, [], [], []) = (ks, ds, js)"
      and len: "length ks = length (map close ?rs)" "length ds = length (map close ?rs)"
               "length js = length (map close ?rs)"
      and r: "kdj_recurrence (map close ?rs) (map high ?rs) (map low ?rs)
                 (length (map close ?rs)) ks ds js"
    by (elim exE conjE)
  have run: "calculate_kdj df =
               Inr \<lparr> columns = add_columns (columns df) [''K'', ''D'', ''J''],
                      rows = map (\<lambda>(b, k, d, j). b\<lparr>K := k, D := d, J := j\<rparr>)
                               (zip ?rs (zip ks (zip ds js))) \<rparr>"
    using cols loop by (simp add: calculate_kdj_def sort_values_trade_date_def)
  from len have len': "length ks = length (rows df)" "length ds = length (rows df)"
      "length js = length (rows df)" by simp_all
  from r have r': "kdj_recurrence (map close ?rs) (map high ?rs) (map low ?rs)
                 (length (rows df)) ks ds js" by simp
  from len' r' run show ?thesis by (intro exI conjI)
qed

lemma kdj_rows_columns:
  assumes "length rs = length ks" "length ks = length ds" "length ds = length js"
  shows "map close (map (\<lambda>(b, k, d, j). b\<lparr>K := k, D := d, J := j\<rparr>) (zip rs (zip ks (zip ds js))))
           = map close rs
    \<and> map high (map (\<lambda>(b, k, d, j). b\<lparr>K := k, D := d, J := j\<rparr>) (zip rs (zip ks (zip ds js))))
           = map high rs
    \<and> map low (map (\<lambda>(b, k, d, j). b\<lparr>K := k, D := d, J := j\<rparr>) (zip rs (zip ks (zip ds js))))
           = map low rs
    \<and> map trade_date (map (\<lambda>(b, k, d, j). b\<lparr>K := k, D := d, J := j\<rparr>) (zip rs (zip ks (zip ds js))))
           = map trade_date rs"
  using assms
  by (induction rs ks ds js rule: list_induct4) simp_all

text \<open>
  Claim C3. For every table that has the columns the computation reads,
  \<^verbatim>\<open>_calculate_kdj\<close> returns a table of the same length whose bars are the input's bars in
  ascending date order (the input's own order when it is already ascending; open, high,
  low, close and volume unchanged), and whose columns K, D, J obey, at every index \<open>i\<close>:
  \<open>K[i] = 2/3 * K[i-1] + 1/3 * rsv[i]\<close>, \<open>D[i] = 2/3 * D[i-1] + 1/3 * K[i]\<close>,
  \<open>J[i] = 3 * K[i] - 2 * D[i]\<close>, with 50 in place of \<open>K[-1]\<close> and \<open>D[-1]\<close>, where
  \<open>rsv[i] = (close[i] - m) / (M - m) * 100\<close> for the minimum \<open>m\<close> of the lows and the
  maximum \<open>M\<close> of the highs over the bars \<open>max(0, i - 8), ..., i\<close>. The arithmetic is that
  of the floats: where \<open>M = m\<close> the quotient is NaN or an infinity, and the equations
  hold of those values.
\<close>

theorem kdj_series:
  assumes cols: "''trade_date'' \<in> set (columns df)" "''close'' \<in> set (columns df)"
                "''high'' \<in> set (columns df)" "''low'' \<in> set (columns df)"
  shows "\<exists>out. calculate_kdj df = Inr out
         \<and> length (rows out) = length (rows df)
         \<and> sorted (map trade_date (rows out))
         \<and> mset (map (\<lambda>b. (trade_date b, high b, low b, close b, vol b)) (rows out))
             = mset (map (\<lambda>b. (trade_date b, high b, low b, close b, vol b)) (rows df))
         \<and> (sorted (map trade_date (rows df)) \<longrightarrow>
               map (\<lambda>b. (trade_date b, high b, low b, close b, vol b)) (rows out)
                 = map (\<lambda>b. (trade_date b, high b, low b, close b, vol b)) (rows df))
         \<and> kdj_recurrence (map close (rows out)) (map high (rows out)) (map low (rows out))
               (length (rows out)) (map K (rows out)) (map D (rows out)) (map J (rows out))"
proof -
  let ?rs = "sort_key trade_date (rows df)"
  let ?t = "\<lambda>b. (trade_date b, high b, low b, close b, vol b)"
  from calculate_kdj_result [OF cols] obtain ks ds js
    where len: "length ks = length (rows df)" "length ds = length (rows df)"
               "length js = length (rows df)"
      and r: "kdj_recurrence (map close ?rs) (map high ?rs) (map low ?rs) (length (rows df))
                ks ds js"
      and run: "calculate_kdj df =
               Inr \<lparr> columns = add_columns (columns df) [''K'', ''D'', ''J''],
                      rows = map (\<lambda>(b, k, d, j). b\<lparr>K := k, D := d, J := j\<rparr>)
                               (zip ?rs (zip ks (zip ds js))) \<rparr>"
    by (elim exE conjE)
  let ?rows = "map (\<lambda>(b, k, d, j). b\<lparr>K := k, D := d, J := j\<rparr>) (zip ?rs (zip ks (zip ds js)))"
  let ?out = "\<lparr> columns = add_columns (columns df) [''K'', ''D'', ''J''], rows = ?rows \<rparr>"
  from len have l1: "length ks = length ?rs" "length ds = length ?rs" "length js = length ?rs"
    by simp_all
  from len have l2: "length ?rs = length ks" "length ks = length ds" "length ds = length js"
    by simp_all
  note kr = kdj_rows [OF l1]
  note kc = kdj_rows_columns [OF l2]
  have c1: "length ?rows = length (rows df)" using kr(5) by simp
  have c2: "sorted (map trade_date ?rows)" using kc by simp
  have "mset (map ?t ?rows) = mset (map ?t ?rs)" by (simp only: kr(4))
  then have c3: "mset (map ?t ?rows) = mset (map ?t (rows df))" by simp
  have c4: "sorted (map trade_date (rows df)) \<longrightarrow> map ?t ?rows = map ?t (rows df)"
  proof
    assume "sorted (map trade_date (rows df))"
    then have "?rs = rows df" by (rule sort_key_id_if_sorted)
    with kr(4) show "map ?t ?rows = map ?t (rows df)" by simp
  qed
  have c5: "kdj_recurrence (map close ?rows) (map high ?rows) (map low ?rows)
               (length ?rows) (map K ?rows) (map D ?rows) (map J ?rows)"
    using r by (simp only: kr(1,2,3) c1 kc)
  have "calculate_kdj df = Inr ?out
         \<and> length (rows ?out) = length (rows df)
         \<and> sorted (map trade_date (rows ?out))
         \<and> mset (map ?t (rows ?out)) = mset (map ?t (rows df))
         \<and> (sorted (map trade_date (rows df)) \<longrightarrow> map ?t (rows ?out) = map ?t (rows df))
         \<and> kdj_recurrence (map close (rows ?out)) (map high (rows ?out)) (map low (rows ?out))
               (length (rows ?out)) (map K (rows ?out)) (map D (rows ?out)) (map J (rows ?out))"
    using run c1 c2 c3 c4 c5 by (simp only: dataframe.simps)
  then show ?thesis by (rule exI)
qed

text \<open>The computation on the three ordinary bars, evaluated.\<close>

lemma example_loop:
  "kdj_loop [10, 11, 12] [11, 12, 12] [9, 10, 10] 0 (Fin 50, Fin 50, [], [], [])
     = ([Fin 50, Fin (500 / 9), Fin (1900 / 27)],
        [Fin 50, Fin (1400 / 27), Fin (4700 / 81)],
        [Fin 50, Fin (1700 / 27), Fin (7700 / 81)])"
  by (simp add: kdj_loop.simps rsv_at_def window_def npfloat_ops Let_def)

lemma example_ohlc_kdj:
  "calculate_kdj example_ohlc =
     Inr \<lparr> columns = [''trade_date'', ''high'', ''low'', ''close'', ''vol'', ''K'', ''D'', ''J''],
            rows = [(ohlc_bar 20240102 11 9 10)\<lparr>K := Fin 50, D := Fin 50, J := Fin 50\<rparr>,
                    (ohlc_bar 20240103 12 10 11)
                      \<lparr>K := Fin (500 / 9), D := Fin (1400 / 27), J := Fin (1700 / 27)\<rparr>,
                    (ohlc_bar 20240104 12 10 12)
                      \<lparr>K := Fin (1900 / 27), D := Fin (4700 / 81), J := Fin (7700 / 81)\<rparr>] \<rparr>"
proof -
  have s: "sort_key trade_date (rows example_ohlc) = rows example_ohlc"
    by (simp add: example_ohlc_def ohlc_bar_def)
  have c: "columns example_ohlc = [''trade_date'', ''high'', ''low'', ''close'', ''vol'']"
    by (simp add: example_ohlc_def)
  have m: "map close (rows example_ohlc) = [10, 11, 12]"
          "map high (rows example_ohlc) = [11, 12, 12]"
          "map low (rows example_ohlc) = [9, 10, 10]"
    by (simp_all add: example_ohlc_def ohlc_bar_def)
  show ?thesis
    unfolding calculate_kdj_def sort_values_trade_date_def
    by (simp add: s c m example_loop add_columns_def) (simp add: example_ohlc_def)
qed

lemma example_ohlc_columns:
  "''trade_date'' \<in> set (columns example_ohlc)" "''close'' \<in> set (columns example_ohlc)"
  "''high'' \<in> set (columns example_ohlc)" "''low'' \<in> set (columns example_ohlc)"
  by (simp_all add: example_ohlc_def)

theorem kdj_series_witness:
  "calculate_kdj example_ohlc =
     Inr \<lparr> columns = [''trade_date'', ''high'', ''low'', ''close'', ''vol'', ''K'', ''D'', ''J''],
            rows = [(ohlc_bar 20240102 11 9 10)\<lparr>K := Fin 50, D := Fin 50, J := Fin 50\<rparr>,
                    (ohlc_bar 20240103 12 10 11)
                      \<lparr>K := Fin (500 / 9), D := Fin (1400 / 27), J := Fin (1700 / 27)\<rparr>,
                    (ohlc_bar 20240104 12 10 12)
                      \<lparr>K := Fin (1900 / 27), D := Fin (4700 / 81), J := Fin (7700 / 81)\<rparr>] \<rparr>
   \<and> kdj_recurrence [10, 11, 12] [11, 12, 12] [9, 10, 10] 3
         [Fin 50, Fin (500 / 9), Fin (1900 / 27)]
         [Fin 50, Fin (1400 / 27), Fin (4700 / 81)]
         [Fin 50, Fin (1700 / 27), Fin (7700 / 81)]"
proof -
  from kdj_series [OF example_ohlc_columns] obtain out
    where run: "calculate_kdj example_ohlc = Inr out"
      and r: "kdj_recurrence (map close (rows out)) (map high (rows out)) (map low (rows out))
               (length (rows out)) (map K (rows out)) (map D (rows out)) (map J (rows out))"
    by (elim exE conjE)
  from run have out: "out =
      \<lparr> columns = [''trade_date'', ''high'', ''low'', ''close'', ''vol'', ''K'', ''D'', ''J''],
            rows = [(ohlc_bar 20240102 11 9 10)\<lparr>K := Fin 50, D := Fin 50, J := Fin 50\<rparr>,
                    (ohlc_bar 20240103 12 10 11)
                      \<lparr>K := Fin (500 / 9), D := Fin (1400 / 27), J := Fin (1700 / 27)\<rparr>,
                    (ohlc_bar 20240104 12 10 12)
                      \<lparr>K := Fin (1900 / 27), D := Fin (4700 / 81), J := Fin (7700 / 81)\<rparr>] \<rparr>"
    by (simp add: example_ohlc_kdj)
  from r have "kdj_recurrence [10, 11, 12] [11, 12, 12] [9, 10, 10] 3
         [Fin 50, Fin (500 / 9), Fin (1900 / 27)]
         [Fin 50, Fin (1400 / 27), Fin (4700 / 81)]
         [Fin 50, Fin (1700 / 27), Fin (7700 / 81)]"
    unfolding out by (simp add: ohlc_bar_def numeral_3_eq_3)
  with example_ohlc_kdj show ?thesis by (rule conjI)
qed

subsection \<open>A flat window\<close>

text \<open>
  Where the highest high of the window equals its lowest low, the raw stochastic value
  is a division by zero. numpy does not raise; the quotient is NaN (or an infinity when
  the close lies off that price), and whatever the previous K and D are, the J of that
  bar is NaN.
\<close>

lemma j_of_undefined_rsv:
  assumes "rsv = NaN \<or> rsv = PInf \<or> rsv = NInf"
  shows "Fin 3 * (Fin (2 / 3) * kp + Fin (1 / 3) * rsv)
           - Fin 2 * (Fin (2 / 3) * dp + Fin (1 / 3) * (Fin (2 / 3) * kp + Fin (1 / 3) * rsv))
         = NaN"
  using assms
  by (cases kp; cases dp) (auto simp: npfloat_ops)

lemma rsv_flat:
  "Fin a / Fin 0 * Fin 100 = NaN \<or> Fin a / Fin 0 * Fin 100 = PInf
   \<or> Fin a / Fin 0 * Fin 100 = NInf"
  by (simp add: npfloat_ops)

lemma flat_window_J_nan:
  assumes cols: "''trade_date'' \<in> set (columns df)" "''close'' \<in> set (columns df)"
                "''high'' \<in> set (columns df)" "''low'' \<in> set (columns df)"
      and srt: "sorted (map trade_date (rows df))"
      and i: "i < length (rows df)"
      and flat: "Max {map high (rows df) ! k |k. i + 1 - 9 \<le> k \<and> k \<le> i}
                 = Min {map low (rows df) ! k |k. i + 1 - 9 \<le> k \<and> k \<le> i}"
  shows "\<exists>out. calculate_kdj df = Inr out \<and> length (rows out) = length (rows df)
           \<and> J (rows out ! i) = NaN"
proof -
  let ?rs = "sort_key trade_date (rows df)"
  from srt have rs: "?rs = rows df" by (rule sort_key_id_if_sorted)
  from calculate_kdj_result [OF cols] obtain ks ds js
    where len: "length ks = length (rows df)" "length ds = length (rows df)"
               "length js = length (rows df)"
      and r: "kdj_recurrence (map close ?rs) (map high ?rs) (map low ?rs) (length (rows df))
                ks ds js"
      and run: "calculate_kdj df =
               Inr \<lparr> columns = add_columns (columns df) [''K'', ''D'', ''J''],
                      rows = map (\<lambda>(b, k, d, j). b\<lparr>K := k, D := d, J := j\<rparr>)
                               (zip ?rs (zip ks (zip ds js))) \<rparr>"
    by (elim exE conjE)
  let ?rows = "map (\<lambda>(b, k, d, j). b\<lparr>K := k, D := d, J := j\<rparr>) (zip ?rs (zip ks (zip ds js)))"
  from len have l1: "length ks = length ?rs" "length ds = length ?rs" "length js = length ?rs"
    by simp_all
  note kr = kdj_rows [OF l1]
  from kr(5) have c1: "length ?rows = length (rows df)" by simp
  from r i have eqs:
    "ks ! i = Fin (2 / 3) * seeded ks i
               + Fin (1 / 3) * rsv_formula (map close ?rs) (map high ?rs) (map low ?rs) i"
    "ds ! i = Fin (2 / 3) * seeded ds i + Fin (1 / 3) * ks ! i"
    "js ! i = Fin 3 * ks ! i - Fin 2 * ds ! i"
    by (simp_all add: kdj_recurrence_def)
  let ?rsv = "rsv_formula (map close ?rs) (map high ?rs) (map low ?rs) i"
  have "?rsv = NaN \<or> ?rsv = PInf \<or> ?rsv = NInf"
    unfolding rsv_formula_def rs flat by (simp only: diff_self rsv_flat)
  from j_of_undefined_rsv [OF this, of "seeded ks i" "seeded ds i"] eqs
  have "js ! i = NaN" by simp
  moreover from i c1 have "J (?rows ! i) = map J ?rows ! i" by simp
  ultimately have c2: "J (?rows ! i) = NaN" by (simp only: kr(3))
  from run c1 c2 show ?thesis by simp
qed

lemma flat_loop:
  "kdj_loop [10, 11] [10, 11] [10, 10] 0 (Fin 50, Fin 50, [], [], [])
     = ([NaN, NaN], [NaN, NaN], [NaN, NaN])"
  by (simp add: kdj_loop.simps rsv_at_def window_def npfloat_ops Let_def)

lemma flat_ohlc_kdj:
  "calculate_kdj flat_ohlc =
     Inr \<lparr> columns = [''trade_date'', ''high'', ''low'', ''close'', ''vol'', ''K'', ''D'', ''J''],
            rows = [(ohlc_bar 20240102 10 10 10)\<lparr>K := NaN, D := NaN, J := NaN\<rparr>,
                    (ohlc_bar 20240103 11 10 11)\<lparr>K := NaN, D := NaN, J := NaN\<rparr>] \<rparr>"
proof -
  have s: "sort_key trade_date (rows flat_ohlc) = rows flat_ohlc"
    by (simp add: flat_ohlc_def ohlc_bar_def)
  have c: "columns flat_ohlc = [''trade_date'', ''high'', ''low'', ''close'', ''vol'']"
    by (simp add: flat_ohlc_def)
  have m: "map close (rows flat_ohlc) = [10, 11]"
          "map high (rows flat_ohlc) = [10, 11]"
          "map low (rows flat_ohlc) = [10, 10]"
    by (simp_all add: flat_ohlc_def ohlc_bar_def)
  show ?thesis
    unfolding calculate_kdj_def sort_values_trade_date_def
    by (simp add: s c m flat_loop add_columns_def) (simp add: flat_ohlc_def)
qed

text \<open>
  Claim C2 says that on a flat window the computation does not raise, takes \<open>rsv = 0\<close>
  and so leaves J defined on every bar. The code does not raise, but it has no such
  case: on the two-bar table whose first bar has high = low = close = 10, the raw value
  of the first bar is NaN, and K, D and J are NaN on both bars.
\<close>

theorem kdj_flat_window_yields_nan:
  "rsv_at [10, 11] [10, 11] [10, 10] 0 = NaN
   \<and> calculate_kdj flat_ohlc =
       Inr \<lparr> columns = [''trade_date'', ''high'', ''low'', ''close'', ''vol'', ''K'', ''D'', ''J''],
              rows = [(ohlc_bar 20240102 10 10 10)\<lparr>K := NaN, D := NaN, J := NaN\<rparr>,
                      (ohlc_bar 20240103 11 10 11)\<lparr>K := NaN, D := NaN, J := NaN\<rparr>] \<rparr>"
proof (rule conjI)
  show "rsv_at [10, 11] [10, 11] [10, 10] 0 = NaN"
    by (simp add: rsv_at_def window_def npfloat_ops Let_def)
  show "calculate_kdj flat_ohlc =
       Inr \<lparr> columns = [''trade_date'', ''high'', ''low'', ''close'', ''vol'', ''K'', ''D'', ''J''],
              rows = [(ohlc_bar 20240102 10 10 10)\<lparr>K := NaN, D := NaN, J := NaN\<rparr>,
                      (ohlc_bar 20240103 11 10 11)\<lparr>K := NaN, D := NaN, J := NaN\<rparr>] \<rparr>"
    by (rule flat_ohlc_kdj)
qed

end
